theory Spec2Isabelle
  imports Main "HOL-Library.Multiset"
begin

section \<open>Strings\<close>

text \<open>
  A JavaScript string is a sequence of UTF-16 code units. The model writes it as a
  \<open>string\<close> whose characters are the code units below 256 (the Latin-1 range); all the
  literals of the program lie in that range, except the ellipsis mark of the snippet
  (see \<open>ellipsis\<close> below).
\<close>

definition is_space :: "char \<Rightarrow> bool" where
  \<comment> \<open>the code units below 256 that \<open>\s\<close> and \<open>trim\<close> treat as white space:
      TAB, LF, VT, FF, CR, SP and NBSP\<close>
  "is_space c \<longleftrightarrow>
     c = CHR 0x09 \<or> c = CHR 0x0A \<or> c = CHR 0x0B \<or> c = CHR 0x0C \<or> c = CHR 0x0D \<or>
     c = CHR 0x20 \<or> c = CHR 0xA0"

definition trimStart :: "string \<Rightarrow> string" where
  "trimStart s = dropWhile is_space s"

definition trimEnd :: "string \<Rightarrow> string" where
  "trimEnd s = rev (dropWhile is_space (rev s))"

definition trim :: "string \<Rightarrow> string" where
  "trim s = trimEnd (trimStart s)"

definition lower_char :: "char \<Rightarrow> char" where
  \<comment> \<open>\<open>toLowerCase\<close> on one code unit below 256: A..Z, and the Latin-1 capitals
      0xC0..0xDE without the multiplication sign 0xD7\<close>
  "lower_char c =
     (let n = (of_char c :: nat) in
      if (65 \<le> n \<and> n \<le> 90) \<or> (192 \<le> n \<and> n \<le> 222 \<and> n \<noteq> 215)
      then char_of (n + 32) else c)"

definition toLowerCase :: "string \<Rightarrow> string" where
  "toLowerCase s = map lower_char s"

definition startsWith :: "string \<Rightarrow> string \<Rightarrow> bool" where
  "startsWith s p \<longleftrightarrow> take (length p) s = p"

definition endsWith :: "string \<Rightarrow> string \<Rightarrow> bool" where
  "endsWith s p \<longleftrightarrow> length p \<le> length s \<and> drop (length s - length p) s = p"

primrec str_includes :: "string \<Rightarrow> string \<Rightarrow> bool" where
  "str_includes [] p = (p = [])"
| "str_includes (c # cs) p = (startsWith (c # cs) p \<or> str_includes cs p)"

primrec indexOf :: "string \<Rightarrow> char \<Rightarrow> int" where
  \<comment> \<open>\<open>s.indexOf(c)\<close> for a one-character needle: the first position, or -1\<close>
  "indexOf [] c = -1"
| "indexOf (x # xs) c =
     (if x = c then 0 else (let i = indexOf xs c in if i < 0 then -1 else i + 1))"

definition lastIndexOf :: "string \<Rightarrow> char \<Rightarrow> int" where
  \<comment> \<open>\<open>s.lastIndexOf(c)\<close>: the last position, or -1\<close>
  "lastIndexOf s c =
     (let i = indexOf (rev s) c in if i < 0 then -1 else int (length s) - 1 - i)"

definition slice :: "'a list \<Rightarrow> int \<Rightarrow> int \<Rightarrow> 'a list" where
  \<comment> \<open>\<open>s.slice(b, e)\<close> of a string or an array: negative positions count from the end,
      both are clamped\<close>
  "slice s b e =
     (let n = int (length s);
          from = (if b < 0 then max (n + b) 0 else min b n);
          to = (if e < 0 then max (n + e) 0 else min e n)
      in take (nat (to - from)) (drop (nat from) s))"

definition slice_from :: "'a list \<Rightarrow> int \<Rightarrow> 'a list" where
  \<comment> \<open>\<open>s.slice(b)\<close>: to the end\<close>
  "slice_from s b = slice s b (int (length s))"

primrec join :: "string \<Rightarrow> string list \<Rightarrow> string" where
  \<comment> \<open>\<open>xs.join(sep)\<close>\<close>
  "join sep [] = []"
| "join sep (x # xs) = (if xs = [] then x else x @ sep @ join sep xs)"

section \<open>JavaScript values\<close>

text \<open>
  The values \<open>JSON.parse\<close> can return. A number is carried as its numeral text; an
  object is the list of its properties in order, and \<open>get_prop\<close> reads the first binding
  of a key. The value \<open>undefined\<close> (a missing property, a missing input) is \<open>None\<close> of
  \<open>jsvalue option\<close>.
\<close>

datatype jsvalue =
    JNull
  | JBool bool
  | JNum string
  | JStr string
  | JArr "jsvalue list"
  | JObj "(string \<times> jsvalue) list"

definition get_prop :: "jsvalue option \<Rightarrow> string \<Rightarrow> jsvalue option" where
  \<comment> \<open>\<open>v?.k\<close> on a parsed value: only an object has the properties the program reads\<close>
  "get_prop v k = (case v of Some (JObj kvs) \<Rightarrow> map_of kvs k | _ \<Rightarrow> None)"

text \<open>
  A thrown value, as far as \<open>toErrorDetails\<close> and the retry test of the client observe
  it: an object with the properties \<open>name\<close>, \<open>message\<close>, \<open>code\<close>, \<open>$fault\<close>, \<open>$metadata\<close>
  and the text \<open>String(err)\<close>, or a value that is falsy or no object, of which only the
  text \<open>String(err)\<close> is observed.
\<close>

record error_object =
  err_name :: "jsvalue option"
  err_message :: "jsvalue option"
  err_code :: "jsvalue option"
  err_fault :: "jsvalue option"
  err_metadata :: "jsvalue option"
  err_string :: string

datatype thrown = ThrownObject error_object | ThrownPrimitive string

definition new_Error :: "string \<Rightarrow> thrown" where
  \<comment> \<open>\<open>new Error(msg)\<close>\<close>
  "new_Error msg = ThrownObject
     \<lparr>err_name = Some (JStr ''Error''), err_message = Some (JStr msg), err_code = None,
      err_fault = None, err_metadata = None, err_string = ''Error: '' @ msg\<rparr>"

section \<open>Retrieval scorer (retrieval.ts)\<close>

record RetrievalHit =
  hit_id :: string
  hit_title :: string
  snippet :: string
  score :: nat

record Doc =
  doc_id :: string
  doc_title :: string
  doc_text :: string

definition DOCS :: "Doc list" where
  "DOCS =
   [\<lparr>doc_id = ''hackathon-submission'',
     doc_title = ''Hackathon submission checklist'',
     doc_text = join [CHR 0x0A]
      [''Pick one category.'',
       ''Provide a brief text description explaining what you built and how you leverage Amazon Nova.'',
       ''Provide a demo video around 3 minutes showing the project functioning and include #AmazonNova.'',
       ''Provide a code repository link (share access if private).'']\<rparr>,
    \<lparr>doc_id = ''nova-act-summary'',
     doc_title = ''Nova Act summary'',
     doc_text = join [CHR 0x0A]
      [''Nova Act is an AWS service to build and manage fleets of reliable AI agents for automating production UI workflows at scale.'',
       ''It automates browser workflows and can integrate with external tools via API calls and remote MCP.'']\<rparr>,
    \<lparr>doc_id = ''agentic-best-practices'',
     doc_title = ''Agentic demo best practices'',
     doc_text = join [CHR 0x0A]
      [''Show a clear goal, a plan, tool usage, and a trace of steps.'',
       ''Keep the demo crisp and within 3 minutes.'',
       ''Make errors visible and actionable (missing credentials, missing model access).'']\<rparr>]"

definition is_token_char :: "char \<Rightarrow> bool" where
  \<comment> \<open>the class \<open>[a-z0-9\s]\<close>\<close>
  "is_token_char c \<longleftrightarrow>
     (let n = (of_char c :: nat) in (97 \<le> n \<and> n \<le> 122) \<or> (48 \<le> n \<and> n \<le> 57)) \<or> is_space c"

primrec split_spaces :: "string \<Rightarrow> string \<Rightarrow> bool \<Rightarrow> string list" where
  \<comment> \<open>\<open>s.split(/\s+/)\<close>, left to right: \<open>cur\<close> is the piece read so far (reversed),
      \<open>inws\<close> tells that the last character was white space\<close>
  "split_spaces [] cur inws = [rev cur]"
| "split_spaces (c # cs) cur inws =
     (if is_space c
      then (if inws then split_spaces cs [] True else rev cur # split_spaces cs [] True)
      else split_spaces cs (c # cur) False)"

definition tokenize :: "string \<Rightarrow> string list" where
  "tokenize s =
     filter (\<lambda>t. t \<noteq> [])
       (split_spaces (map (\<lambda>c. if is_token_char c then c else CHR '' '') (toLowerCase s)) [] False)"

definition ellipsis :: string where
  \<comment> \<open>the mark appended to a truncated snippet: U+2026 in the source, one code unit
      above 255, written here as the single code unit 0x85\<close>
  "ellipsis = [CHR 0x85]"

definition doc_score :: "string list \<Rightarrow> Doc \<Rightarrow> nat" where
  \<comment> \<open>the body of the \<open>map\<close> callback: \<open>q.reduce((acc, term) => acc + (termSet.has(term) ? 1 : 0), 0)\<close>\<close>
  "doc_score q d =
     (let t = tokenize (doc_title d @ '' '' @ doc_text d);
          termSet = set t
      in fold (\<lambda>term acc. acc + (if term \<in> termSet then 1 else 0)) q 0)"

definition scored_docs :: "Doc list \<Rightarrow> string list \<Rightarrow> nat \<Rightarrow> (Doc \<times> nat) list" where
  \<comment> \<open>\<open>docs.map(...).filter((x) => x.score > 0).sort((a, b) => b.score - a.score).slice(0, limit)\<close>;
      \<open>Array.prototype.sort\<close> is stable, as \<open>sort_key\<close> is\<close>
  "scored_docs docs q limit =
     slice
       (sort_key (\<lambda>x. - int (snd x))
          (filter (\<lambda>x. snd x > 0) (map (\<lambda>d. (d, doc_score q d)) docs)))
       0 (int limit)"

definition make_hit :: "Doc \<times> nat \<Rightarrow> RetrievalHit" where
  "make_hit x =
     (case x of (d, sc) \<Rightarrow>
        \<lparr>hit_id = doc_id d, hit_title = doc_title d,
         snippet = (if length (doc_text d) > 400 then slice (doc_text d) 0 400 @ ellipsis
                    else doc_text d),
         score = sc\<rparr>)"

definition retrieveImpl :: "string \<Rightarrow> nat \<Rightarrow> RetrievalHit list" where
  \<comment> \<open>\<open>retrieve(query, limit)\<close> of retrieval.ts; \<open>limit\<close> is a count of results
      (the tool passes 5, the default is 5)\<close>
  "retrieveImpl query limit =
     (let q = tokenize query in
      if length q = 0 then [] else map make_hit (scored_docs DOCS q limit))"

section \<open>The run-time library\<close>

text \<open>
  The functions of the JavaScript run time that the program calls and the repository does
  not define are parameters of the model: every theorem below holds for each of them. A
  call that can throw gives the value thrown on the left of a sum.
\<close>

datatype tool_output =
    PlanOut "string list"
  | HitsOut "RetrievalHit list"
  | DraftOut "string option"

record platform =
  JSON_parse :: "string \<Rightarrow> thrown + jsvalue"
    \<comment> \<open>\<open>JSON.parse(s)\<close>: the value, or the \<open>SyntaxError\<close> it throws\<close>
  JSON_stringify :: "jsvalue \<Rightarrow> string"
    \<comment> \<open>\<open>JSON.stringify(v)\<close> of a parsed value\<close>
  JSON_stringify_result :: "string \<Rightarrow> tool_output \<Rightarrow> string"
    \<comment> \<open>\<open>JSON.stringify({ tool, output })\<close> of a tool's name and result\<close>
  String_of :: "jsvalue \<Rightarrow> thrown + string"
    \<comment> \<open>\<open>String(v)\<close> of a number, an array or an object: the text, or the \<open>TypeError\<close> it
        throws when the value cannot be converted (an object that has a property
        \<open>toString\<close> of its own, which is no function)\<close>
  undefined_toLowerCase :: thrown
    \<comment> \<open>the \<open>TypeError\<close> that \<open>s.toLowerCase()\<close> throws when \<open>s\<close> is \<open>undefined\<close>\<close>

definition String :: "platform \<Rightarrow> jsvalue option \<Rightarrow> thrown + string" where
  \<comment> \<open>\<open>String(v)\<close>: the text, or what the conversion throws\<close>
  "String P v =
     (case v of
        None \<Rightarrow> Inr ''undefined''
      | Some JNull \<Rightarrow> Inr ''null''
      | Some (JBool b) \<Rightarrow> Inr (if b then ''true'' else ''false'')
      | Some (JStr s) \<Rightarrow> Inr s
      | Some x \<Rightarrow> String_of P x)"

section \<open>Tools (tools.ts)\<close>

record ToolContext =
  draft :: "string option"
    \<comment> \<open>a string; \<open>None\<close> is the \<open>undefined\<close> that \<open>writeDraft\<close> stores for a missing input\<close>
  plan :: "string list"

definition createToolContext :: ToolContext where
  "createToolContext = \<lparr>draft = Some [], plan = []\<rparr>"

definition input_text :: "platform \<Rightarrow> jsvalue option \<Rightarrow> string option" where
  \<comment> \<open>\<open>typeof input === 'string' ? input : JSON.stringify(input)\<close>;
      \<open>JSON.stringify(undefined)\<close> is \<open>undefined\<close>\<close>
  "input_text P input =
     (case input of
        Some (JStr s) \<Rightarrow> Some s
      | Some v \<Rightarrow> Some (JSON_stringify P v)
      | None \<Rightarrow> None)"

definition template :: "string option \<Rightarrow> string" where
  \<comment> \<open>\<open>${x}\<close> inside a template literal\<close>
  "template x = (case x of None \<Rightarrow> ''undefined'' | Some s \<Rightarrow> s)"

definition makePlan :: "platform \<Rightarrow> ToolContext \<Rightarrow> jsvalue option \<Rightarrow> ToolContext \<times> string list" where
  \<comment> \<open>the context after the call, and the \<open>plan\<close> of the result\<close>
  "makePlan P ctx input =
     (let goal = input_text P input;
          plan = [''Understand the goal: '' @ template goal,
                  ''Retrieve relevant context and constraints'',
                  ''Propose an approach and key steps'',
                  ''Draft the output'',
                  ''Refine and finalize'']
      in (ctx\<lparr>plan := plan\<rparr>, plan))"

definition retrieve :: "platform \<Rightarrow> ToolContext \<Rightarrow> jsvalue option \<Rightarrow> ToolContext \<times> (thrown + RetrievalHit list)" where
  \<comment> \<open>the context after the call, and the \<open>hits\<close> of the result or what the call throws:
      \<open>tokenize\<close> calls \<open>toLowerCase\<close> on its argument first\<close>
  "retrieve P ctx input =
     (let query = input_text P input in
      (ctx, case query of
              None \<Rightarrow> Inl (undefined_toLowerCase P)
            | Some q \<Rightarrow> Inr (retrieveImpl q 5)))"

definition writeDraft :: "platform \<Rightarrow> ToolContext \<Rightarrow> jsvalue option \<Rightarrow> ToolContext \<times> string option" where
  \<comment> \<open>the context after the call, and the \<open>draft\<close> of the result\<close>
  "writeDraft P ctx input =
     (let text = input_text P input;
          ctx' = ctx\<lparr>draft := text\<rparr>
      in (ctx', draft ctx'))"

section \<open>Decision extraction (routes/agent.ts)\<close>

definition isToolName :: "jsvalue option \<Rightarrow> bool" where
  "isToolName x \<longleftrightarrow>
     x = Some (JStr ''makePlan'') \<or> x = Some (JStr ''retrieve'') \<or> x = Some (JStr ''writeDraft'')"

definition fenceMatch :: "string \<Rightarrow> string option" where
  \<comment> \<open>group 1 of \<open>trimmed.match(/^```(?:json)?\s*([\s\S]*?)\s*```$/i)\<close>, \<open>None\<close> when there
      is no match. The greedy choices of the prefix (the tag, then all the white space)
      decide whether there is a match, since the three closing back quotes are the end of
      the text; the lazy group is then the rest without its trailing white space.\<close>
  "fenceMatch t =
     (if startsWith t ''```'' then
        (let r0 = drop 3 t;
             r1 = (if toLowerCase (take 4 r0) = ''json'' then drop 4 r0 else r0);
             r2 = dropWhile is_space r1
         in if endsWith r2 ''```'' then Some (trimEnd (take (length r2 - 3) r2)) else None)
      else None)"

definition extractJsonObject :: "string \<Rightarrow> string" where
  "extractJsonObject text =
     (let trimmed = trim text;
          candidate = (case fenceMatch trimmed of Some g \<Rightarrow> trim g | None \<Rightarrow> trimmed)
      in if startsWith candidate ''{'' \<or> startsWith candidate ''['' then candidate
         else
           (let firstBrace = indexOf candidate (CHR ''{'');
                lastBrace = lastIndexOf candidate (CHR ''}'')
            in if firstBrace \<ge> 0 \<and> lastBrace > firstBrace
               then slice candidate firstBrace (lastBrace + 1)
               else
                 (let firstBracket = indexOf candidate (CHR ''['');
                      lastBracket = lastIndexOf candidate (CHR '']'')
                  in if firstBracket \<ge> 0 \<and> lastBracket > firstBracket
                     then slice candidate firstBracket (lastBracket + 1)
                     else candidate)))"

definition safeJsonParse :: "platform \<Rightarrow> string \<Rightarrow> jsvalue" where
  \<comment> \<open>the parsed value, or \<open>null\<close> when \<open>JSON.parse\<close> throws\<close>
  "safeJsonParse P text =
     (case JSON_parse P (extractJsonObject text) of Inl err \<Rightarrow> JNull | Inr v \<Rightarrow> v)"

section \<open>Error details (routes/agent.ts)\<close>

record metadata =
  httpStatusCode :: "jsvalue option"
  requestId :: "jsvalue option"
  attempts :: "jsvalue option"
  totalRetryDelay :: "jsvalue option"

record error_details =
  det_name :: "string option"
  det_message :: string
  det_code :: "string option"
  det_fault :: "string option"
  det_metadata :: "metadata option"

definition string_or_undefined :: "jsvalue option \<Rightarrow> string option" where
  \<comment> \<open>\<open>typeof x === 'string' ? x : undefined\<close>\<close>
  "string_or_undefined x = (case x of Some (JStr s) \<Rightarrow> Some s | _ \<Rightarrow> None)"

definition is_object :: "jsvalue option \<Rightarrow> bool" where
  \<comment> \<open>\<open>x && typeof x === 'object'\<close>\<close>
  "is_object x = (case x of Some (JObj kvs) \<Rightarrow> True | Some (JArr xs) \<Rightarrow> True | _ \<Rightarrow> False)"

definition toErrorDetails :: "platform \<Rightarrow> thrown \<Rightarrow> error_details" where
  "toErrorDetails P err =
     (case err of
        ThrownPrimitive s \<Rightarrow>
          \<lparr>det_name = None, det_message = s, det_code = None, det_fault = None,
           det_metadata = None\<rparr>
      | ThrownObject e \<Rightarrow>
          \<lparr>det_name = string_or_undefined (err_name e),
           det_message = (case err_message e of Some (JStr m) \<Rightarrow> m | _ \<Rightarrow> err_string e),
           det_code = string_or_undefined (err_code e),
           det_fault = string_or_undefined (err_fault e),
           det_metadata =
             (let md = err_metadata e in
              if is_object md
              then Some \<lparr>httpStatusCode = get_prop md ''httpStatusCode'',
                         requestId = get_prop md ''requestId'',
                         attempts = get_prop md ''attempts'',
                         totalRetryDelay = get_prop md ''totalRetryDelay''\<rparr>
              else None)\<rparr>)"

section \<open>Model invocation client (novaClient.ts)\<close>

datatype role = User | Assistant

record AgentMessage =
  role :: role
  content :: string

record NovaTextOptions =
  modelId :: string
  system :: "string option"
  messages :: "AgentMessage list"
  maxTokens :: "nat option"
  temperature :: "string option"
    \<comment> \<open>a number, carried as its numeral text\<close>

record env =
  DEMO_API_KEY :: "string option"
  NOVA_MODEL_ID :: "string option"
  AWS_REGION :: "string option"

text \<open>
  What the client sends, under either protocol, and the backend it sends it to. The two
  \<open>send\<close> calls of the SDK are parameters: each gives the response or the value it throws.
\<close>

record bedrock_message =
  msg_role :: role
  msg_content :: "string list"
    \<comment> \<open>the text blocks\<close>

record bedrock_request =
  req_modelId :: string
  req_system :: "string list option"
  req_messages :: "bedrock_message list"
  req_maxTokens :: nat
  req_temperature :: string

datatype content_block = TextBlock string | OtherBlock

record backend =
  converse_send :: "string \<Rightarrow> bedrock_request \<Rightarrow> thrown + content_block list option"
    \<comment> \<open>\<open>client.send(new ConverseCommand(...))\<close> in a region: \<open>resp.output?.message?.content\<close>\<close>
  invoke_send :: "string \<Rightarrow> bedrock_request \<Rightarrow> thrown + string"
    \<comment> \<open>\<open>client.send(new InvokeModelCommand(...))\<close> in a region: the decoded \<open>resp.body\<close>\<close>

datatype protocol = Structured | SingleCall

definition toBedrockMessages :: "AgentMessage list \<Rightarrow> bedrock_message list" where
  "toBedrockMessages ms = map (\<lambda>m. \<lparr>msg_role = role m, msg_content = [content m]\<rparr>) ms"

definition request_of :: "NovaTextOptions \<Rightarrow> bedrock_request" where
  \<comment> \<open>the fields both commands are built from\<close>
  "request_of opts =
     \<lparr>req_modelId = modelId opts,
      req_system = (case system opts of None \<Rightarrow> None
                    | Some s \<Rightarrow> if s = [] then None else Some [s]),
      req_messages = toBedrockMessages (messages opts),
      req_maxTokens = (case maxTokens opts of None \<Rightarrow> 800 | Some n \<Rightarrow> n),
      req_temperature = (case temperature opts of None \<Rightarrow> ''0.2'' | Some t \<Rightarrow> t)\<rparr>"

definition part_text :: "jsvalue \<Rightarrow> string" where
  \<comment> \<open>\<open>p && typeof p.text === 'string' ? p.text : ''\<close>\<close>
  "part_text p = (case get_prop (Some p) ''text'' of Some (JStr s) \<Rightarrow> s | _ \<Rightarrow> [])"

definition extractTextFromConverseLikeJson :: "jsvalue \<Rightarrow> string" where
  "extractTextFromConverseLikeJson json =
     (let parts = get_prop (get_prop (get_prop (Some json) ''output'') ''message'') ''content'';
          blocks = (case parts of Some (JArr ps) \<Rightarrow> concat (map part_text ps) | _ \<Rightarrow> [])
      in if blocks \<noteq> [] then blocks
         else case get_prop (Some json) ''outputText'' of Some (JStr s) \<Rightarrow> s | _ \<Rightarrow>
             (case get_prop (Some json) ''generation'' of Some (JStr s) \<Rightarrow> s | _ \<Rightarrow>
             (case get_prop (Some json) ''completion'' of Some (JStr s) \<Rightarrow> s | _ \<Rightarrow>
             (case get_prop (Some json) ''text'' of Some (JStr s) \<Rightarrow> s | _ \<Rightarrow> []))))"

definition invokeModelFallback :: "platform \<Rightarrow> backend \<Rightarrow> string \<Rightarrow> NovaTextOptions \<Rightarrow> thrown + string" where
  "invokeModelFallback P B region opts =
     (case invoke_send B region (request_of opts) of
        Inl err \<Rightarrow> Inl err
      | Inr textBody \<Rightarrow>
          (case JSON_parse P textBody of
             Inl err \<Rightarrow> Inl err
           | Inr json \<Rightarrow>
               (let text = extractTextFromConverseLikeJson json in
                if text = [] then Inl (new_Error ''Empty model response from Bedrock InvokeModel API'')
                else Inr text)))"

definition block_text :: "content_block \<Rightarrow> string" where
  \<comment> \<open>\<open>'text' in p ? p.text : ''\<close>\<close>
  "block_text p = (case p of TextBlock s \<Rightarrow> s | OtherBlock \<Rightarrow> [])"

definition converse_attempt :: "backend \<Rightarrow> string \<Rightarrow> NovaTextOptions \<Rightarrow> thrown + string" where
  \<comment> \<open>the body of the \<open>try\<close> block\<close>
  "converse_attempt B region opts =
     (case converse_send B region (request_of opts) of
        Inl err \<Rightarrow> Inl err
      | Inr resp \<Rightarrow>
          (let parts = (case resp of None \<Rightarrow> [] | Some ps \<Rightarrow> ps);
               text = concat (map block_text parts)
           in if text = [] then Inl (new_Error ''Empty model response from Bedrock Converse API'')
              else Inr text))"

definition thrown_prop :: "thrown \<Rightarrow> (error_object \<Rightarrow> jsvalue option) \<Rightarrow> string" where
  \<comment> \<open>\<open>typeof err?.name === 'string' ? err.name : ''\<close>, and the same for \<open>message\<close>\<close>
  "thrown_prop err field =
     (case err of
        ThrownObject e \<Rightarrow> (case field e of Some (JStr s) \<Rightarrow> s | _ \<Rightarrow> [])
      | ThrownPrimitive v \<Rightarrow> [])"

definition operation_not_allowed :: "thrown \<Rightarrow> bool" where
  \<comment> \<open>the test of the \<open>catch\<close> block\<close>
  "operation_not_allowed err \<longleftrightarrow>
     (let name = thrown_prop err err_name; msg = thrown_prop err err_message in
      name = ''ValidationException'' \<and> str_includes (toLowerCase msg) ''operation not allowed'')"

definition isInferenceProfileArn :: "string \<Rightarrow> bool" where
  "isInferenceProfileArn m \<longleftrightarrow>
     startsWith m ''arn:aws:bedrock:'' \<and> str_includes m '':inference-profile/''"

definition client_region :: "env \<Rightarrow> string" where
  \<comment> \<open>\<open>process.env.AWS_REGION || 'us-east-1'\<close>\<close>
  "client_region E =
     (case AWS_REGION E of None \<Rightarrow> ''us-east-1'' | Some r \<Rightarrow> if r = [] then ''us-east-1'' else r)"

definition novaConverseText :: "platform \<Rightarrow> backend \<Rightarrow> env \<Rightarrow> NovaTextOptions \<Rightarrow> (thrown + string) \<times> protocol list" where
  \<comment> \<open>the text or the thrown value, and the protocols used, in order\<close>
  "novaConverseText P B E opts =
     (let region = client_region E
      in if isInferenceProfileArn (modelId opts)
         then (invokeModelFallback P B region opts, [SingleCall])
         else
           (case converse_attempt B region opts of
              Inr text \<Rightarrow> (Inr text, [Structured])
            | Inl err \<Rightarrow>
                if operation_not_allowed err
                then (invokeModelFallback P B region opts, [Structured, SingleCall])
                else (Inl err, [Structured])))"

section \<open>Orchestration loop (routes/agent.ts)\<close>

datatype AgentStep =
    ModelStep string
  | ToolStep string "jsvalue option" tool_output
      \<comment> \<open>\<open>call.tool\<close>, \<open>call.input\<close>, \<open>output\<close>\<close>
  | ErrorStep string

record request =
  header_key :: "string option"
    \<comment> \<open>\<open>req.header('x-demo-api-key')\<close>\<close>
  body :: "jsvalue option"
    \<comment> \<open>\<open>req.body\<close>\<close>

text \<open>The JSON body of a response: a field the handler does not write is \<open>None\<close>.\<close>

record response =
  status :: nat
  final :: "string option"
  error :: "string option"
  details :: "error_details option"
  hint :: "string option"
  steps :: "AgentStep list option"

text \<open>
  The local variables of the handler that a run changes; \<open>st_calls\<close> counts the calls of
  \<open>novaConverseText\<close> and is not a variable of the program.
\<close>

record run_state =
  st_steps :: "AgentStep list"
  st_messages :: "AgentMessage list"
  st_toolCtx :: ToolContext
  st_calls :: nat

definition maxTurns :: nat where
  "maxTurns = 8"

definition system_prompt :: string where
  \<open>system_prompt =
     ''You are an agent. You MUST respond with a single JSON object only (no markdown, no extra text). '' @
     ''Choose one: '' @
     ''{"action":"tool","tool":"makePlan"|"retrieve"|"writeDraft","input":...} '' @
     ''or {"action":"final","output":"..."}. '' @
     ''You are continuing a conversation; use the prior messages for context when answering follow-ups. '' @
     ''Be reliable: if you need constraints or context, call retrieve.''\<close>

definition history_entry :: "jsvalue \<Rightarrow> AgentMessage option" where
  \<comment> \<open>the \<open>map\<close> callback over \<open>body.messages\<close>; \<open>None\<close> is its \<open>null\<close>\<close>
  "history_entry m =
     (let r = get_prop (Some m) ''role''; c = get_prop (Some m) ''content'' in
      if r \<noteq> Some (JStr ''user'') \<and> r \<noteq> Some (JStr ''assistant'') then None
      else case c of
             Some (JStr s) \<Rightarrow>
               (let trimmed = trim s in
                if trimmed = [] then None
                else Some \<lparr>role = (if r = Some (JStr ''user'') then User else Assistant),
                           content = trimmed\<rparr>)
           | _ \<Rightarrow> None)"

definition history_of :: "jsvalue option \<Rightarrow> AgentMessage list" where
  \<comment> \<open>\<open>Array.isArray(body.messages) ? body.messages.filter(...).map(...).filter(...).slice(-12) : []\<close>\<close>
  "history_of ms =
     (case ms of
        Some (JArr xs) \<Rightarrow>
          slice_from
            (map the (filter (\<lambda>x. x \<noteq> None)
               (map history_entry (filter (\<lambda>m. is_object (Some m)) xs))))
            (- 12)
      | _ \<Rightarrow> [])"

definition trimmed_string :: "jsvalue option \<Rightarrow> string" where
  \<comment> \<open>\<open>typeof x === 'string' ? x.trim() : ''\<close>\<close>
  "trimmed_string x = (case x of Some (JStr s) \<Rightarrow> trim s | _ \<Rightarrow> [])"

definition goal_turn :: "string \<Rightarrow> string \<Rightarrow> AgentMessage" where
  \<comment> \<open>the user turn that carries the goal\<close>
  "goal_turn goal context =
     \<lparr>role = User,
      content = goal @
        (if context \<noteq> [] then [CHR 0x0A, CHR 0x0A] @ ''Context:'' @ [CHR 0x0A] @ context else []) @
        [CHR 0x0A, CHR 0x0A] @
        ''If needed, start by making a plan, then use tools as needed, then finalize.''\<rparr>"

definition initial_messages :: "jsvalue option \<Rightarrow> AgentMessage list" where
  \<comment> \<open>\<open>messages\<close> before the first turn, from the request body\<close>
  "initial_messages b =
     history_of (get_prop b ''messages'') @
     [goal_turn (trimmed_string (get_prop b ''goal'')) (trimmed_string (get_prop b ''context''))]"

definition catch_response :: "platform \<Rightarrow> env \<Rightarrow> thrown \<Rightarrow> run_state \<Rightarrow> response \<times> run_state" where
  \<comment> \<open>the \<open>catch\<close> block of the handler\<close>
  "catch_response P E err st =
     (let details = toErrorDetails P err;
          message = det_message details;
          st' = st\<lparr>st_steps := st_steps st @ [ErrorStep message]\<rparr>;
          region = (case AWS_REGION E of None \<Rightarrow> ''(unset)'' | Some r \<Rightarrow> r)
      in (\<lparr>status = 500, final = None, error = Some message, details = Some details,
           hint = Some (''If this is an AWS/Bedrock issue, verify AWS_REGION='' @ region @
                        '', credentials, Bedrock model access, and NOVA_MODEL_ID.''),
           steps = Some (st_steps st')\<rparr>, st'))"

definition run_tool :: "platform \<Rightarrow> ToolContext \<Rightarrow> jsvalue option \<Rightarrow> jsvalue option \<Rightarrow> ToolContext \<times> (thrown + tool_output)" where
  \<comment> \<open>the \<open>if\<close> chain that calls the tool of a name that passed \<open>isToolName\<close>\<close>
  "run_tool P ctx tool input =
     (if tool = Some (JStr ''makePlan'') then
        (case makePlan P ctx input of (ctx', p) \<Rightarrow> (ctx', Inr (PlanOut p)))
      else if tool = Some (JStr ''retrieve'') then
        (case retrieve P ctx input of
           (ctx', Inl err) \<Rightarrow> (ctx', Inl err)
         | (ctx', Inr hits) \<Rightarrow> (ctx', Inr (HitsOut hits)))
      else
        (case writeDraft P ctx input of (ctx', d) \<Rightarrow> (ctx', Inr (DraftOut d))))"

datatype turn_result = Respond response run_state | Continue run_state

definition tool_turn :: "platform \<Rightarrow> env \<Rightarrow> jsvalue option \<Rightarrow> jsvalue option \<Rightarrow> run_state \<Rightarrow> turn_result" where
  \<comment> \<open>a tool call with a registered name: the call, the Tool step and the user turn that
      carries the result; what the tool throws reaches the \<open>catch\<close> block\<close>
  "tool_turn P E tool input st =
     (case run_tool P (st_toolCtx st) tool input of
        (ctx', Inl err) \<Rightarrow>
          (case catch_response P E err (st\<lparr>st_toolCtx := ctx'\<rparr>) of (r, st') \<Rightarrow> Respond r st')
      | (ctx', Inr out) \<Rightarrow>
          (let name = (case tool of Some (JStr s) \<Rightarrow> s | _ \<Rightarrow> []) in
           Continue (st\<lparr>st_toolCtx := ctx',
                        st_steps := st_steps st @ [ToolStep name input out],
                        st_messages := st_messages st @
                          [\<lparr>role = User, content = JSON_stringify_result P name out\<rparr>]\<rparr>)))"

definition has_action :: "jsvalue \<Rightarrow> bool" where
  \<comment> \<open>the negation of \<open>!parsed || typeof parsed !== 'object' || !('action' in parsed)\<close>\<close>
  "has_action parsed = (case parsed of JObj kvs \<Rightarrow> map_of kvs ''action'' \<noteq> None | _ \<Rightarrow> False)"

definition final_output :: "platform \<Rightarrow> jsvalue option \<Rightarrow> thrown + string" where
  \<comment> \<open>\<open>String(parsed.output ?? '')\<close>: the text, or what the conversion throws\<close>
  "final_output P out =
     (case out of None \<Rightarrow> Inr [] | Some JNull \<Rightarrow> Inr [] | Some v \<Rightarrow> String P (Some v))"

definition decide :: "platform \<Rightarrow> env \<Rightarrow> string \<Rightarrow> run_state \<Rightarrow> turn_result" where
  \<comment> \<open>one turn after the model has answered \<open>modelText\<close>: from \<open>steps.push\<close> to the end of
      the loop body; what \<open>String\<close> throws while a result or a message is built reaches
      the \<open>catch\<close> block in place of that result or \<open>Error\<close>\<close>
  "decide P E modelText st =
     (let st1 = st\<lparr>st_steps := st_steps st @ [ModelStep modelText],
                   st_messages := st_messages st @ [\<lparr>role = Assistant, content = modelText\<rparr>]\<rparr>;
          parsed = safeJsonParse P modelText
      in if \<not> has_action parsed then
           (case catch_response P E
                   (new_Error ''Model did not return valid JSON decision. Ensure the model is following the JSON-only contract.'')
                   st1 of (r, st') \<Rightarrow> Respond r st')
         else
           (let action = get_prop (Some parsed) ''action'';
                tool = get_prop (Some parsed) ''tool'';
                input = get_prop (Some parsed) ''input''
            in if action = Some (JStr ''final'') then
                 (case final_output P (get_prop (Some parsed) ''output'') of
                    Inl err \<Rightarrow> (case catch_response P E err st1 of (r, st') \<Rightarrow> Respond r st')
                  | Inr out \<Rightarrow>
                      Respond \<lparr>status = 200, final = Some out, error = None, details = None,
                               hint = None, steps = Some (st_steps st1)\<rparr> st1)
               else if isToolName action then tool_turn P E action input st1
               else if action = Some (JStr ''tool'') then
                 (if \<not> isToolName tool then
                    (case catch_response P E
                            (case String P tool of
                               Inl err \<Rightarrow> err
                             | Inr name \<Rightarrow> new_Error (''Unknown or missing tool: '' @ name)) st1 of
                       (r, st') \<Rightarrow> Respond r st')
                  else tool_turn P E tool input st1)
               else
                 (case catch_response P E
                         (case String P action of
                            Inl err \<Rightarrow> err
                          | Inr name \<Rightarrow> new_Error (''Unknown model action: '' @ name)) st1 of
                    (r, st') \<Rightarrow> Respond r st')))"

definition turn_options :: "string \<Rightarrow> run_state \<Rightarrow> NovaTextOptions" where
  \<comment> \<open>the argument of \<open>novaConverseText\<close> in a turn\<close>
  "turn_options mid st =
     \<lparr>modelId = mid, system = Some system_prompt, messages = st_messages st,
      maxTokens = Some 700, temperature = Some ''0.2''\<rparr>"

function agent_loop :: "platform \<Rightarrow> backend \<Rightarrow> env \<Rightarrow> string \<Rightarrow> nat \<Rightarrow> run_state \<Rightarrow> response \<times> run_state" where
  "agent_loop P B E mid turn st =
     (if turn < maxTurns then
        (case fst (novaConverseText P B E (turn_options mid st)) of
           Inl err \<Rightarrow> catch_response P E err (st\<lparr>st_calls := st_calls st + 1\<rparr>)
         | Inr modelText \<Rightarrow>
             (case decide P E modelText (st\<lparr>st_calls := st_calls st + 1\<rparr>) of
                Respond r st' \<Rightarrow> (r, st')
              | Continue st' \<Rightarrow> agent_loop P B E mid (turn + 1) st'))
      else
        (\<lparr>status = 500, final = None,
          error = Some ''Agent exceeded max turns without producing a final answer.'',
          details = None, hint = None, steps = Some (st_steps st)\<rparr>, st))"
  by pat_completeness auto
termination
  by (relation "measure (\<lambda>(P, B, E, mid, turn, st). maxTurns - turn)") auto

definition initial_state :: "jsvalue option \<Rightarrow> run_state" where
  \<comment> \<open>\<open>steps\<close>, \<open>messages\<close> and \<open>toolCtx\<close> before the first turn\<close>
  "initial_state b =
     \<lparr>st_steps = [], st_messages = initial_messages b, st_toolCtx = createToolContext,
      st_calls = 0\<rparr>"

definition request_body :: "request \<Rightarrow> jsvalue option" where
  \<comment> \<open>\<open>req.body ?? {}\<close>\<close>
  "request_body req =
     (case body req of None \<Rightarrow> Some (JObj []) | Some JNull \<Rightarrow> Some (JObj []) | Some v \<Rightarrow> Some v)"

definition plain_error :: "nat \<Rightarrow> string \<Rightarrow> response" where
  \<comment> \<open>\<open>res.status(code).json({ error: msg })\<close>\<close>
  "plain_error code msg =
     \<lparr>status = code, final = None, error = Some msg, details = None, hint = None, steps = None\<rparr>"

definition post_agent :: "platform \<Rightarrow> backend \<Rightarrow> env \<Rightarrow> request \<Rightarrow> response" where
  \<comment> \<open>the handler of \<open>POST /agent\<close>\<close>
  "post_agent P B E req =
     (let expectedKey = (case DEMO_API_KEY E of None \<Rightarrow> [] | Some k \<Rightarrow> k) in
      if expectedKey \<noteq> [] \<and> header_key req \<noteq> Some expectedKey then plain_error 401 ''Unauthorized''
      else
        (let b = request_body req;
             goal = trimmed_string (get_prop b ''goal'')
         in if goal = [] then plain_error 400 ''Missing required field: goal''
            else
              (case NOVA_MODEL_ID E of
                 None \<Rightarrow> plain_error 500 ''Missing NOVA_MODEL_ID. Set it in your server environment (and ensure Bedrock model access is enabled).''
               | Some mid \<Rightarrow>
                   if mid = [] then plain_error 500 ''Missing NOVA_MODEL_ID. Set it in your server environment (and ensure Bedrock model access is enabled).''
                   else fst (agent_loop P B E mid 0 (initial_state b)))))"

section \<open>A reference run-time library\<close>

text \<open>
  One instance of the parameters, for the concrete runs below: a parser of the JSON
  grammar (white space, literals, numbers, strings with their escapes, arrays, objects;
  a second binding of a key replaces the value of the first), and the texts
  \<open>JSON.stringify\<close> and \<open>String\<close> give for the values it returns. It is used on concrete
  inputs only; no general theorem depends on it.
\<close>

definition json_ws :: "char \<Rightarrow> bool" where
  "json_ws c \<longleftrightarrow> c = CHR 0x20 \<or> c = CHR 0x09 \<or> c = CHR 0x0A \<or> c = CHR 0x0D"

definition is_digit :: "char \<Rightarrow> bool" where
  "is_digit c \<longleftrightarrow> (let n = (of_char c :: nat) in 48 \<le> n \<and> n \<le> 57)"

definition hex_value :: "char \<Rightarrow> nat option" where
  "hex_value c =
     (let n = (of_char c :: nat) in
      if 48 \<le> n \<and> n \<le> 57 then Some (n - 48)
      else if 65 \<le> n \<and> n \<le> 70 then Some (n - 55)
      else if 97 \<le> n \<and> n \<le> 102 then Some (n - 87)
      else None)"

definition unescape :: "char \<Rightarrow> char option" where
  \<comment> \<open>the character after a backslash, other than \<open>u\<close>\<close>
  "unescape e =
     (if e = CHR 0x22 then Some (CHR 0x22)
      else if e = CHR 0x5C then Some (CHR 0x5C)
      else if e = CHR ''/'' then Some (CHR ''/'')
      else if e = CHR ''b'' then Some (CHR 0x08)
      else if e = CHR ''f'' then Some (CHR 0x0C)
      else if e = CHR ''n'' then Some (CHR 0x0A)
      else if e = CHR ''r'' then Some (CHR 0x0D)
      else if e = CHR ''t'' then Some (CHR 0x09)
      else None)"

fun parse_chars :: "string \<Rightarrow> string \<Rightarrow> (string \<times> string) option" where
  \<comment> \<open>a string after its opening quote: its characters and the rest of the text; an
      escape \<open>\uXXXX\<close> of a code unit above 255 is outside the model and is refused\<close>
  "parse_chars acc [] = None"
| "parse_chars acc (c # cs) =
     (if c = CHR 0x22 then Some (rev acc, cs)
      else if c = CHR 0x5C then
        (case cs of
           [] \<Rightarrow> None
         | e # rest \<Rightarrow>
             if e = CHR ''u'' then
               (case rest of
                  h1 # h2 # h3 # h4 # rest' \<Rightarrow>
                    (case (hex_value h1, hex_value h2, hex_value h3, hex_value h4) of
                       (Some a, Some b, Some c, Some d) \<Rightarrow>
                         if a = 0 \<and> b = 0 then parse_chars (char_of (16 * c + d) # acc) rest'
                         else None
                     | _ \<Rightarrow> None)
                | _ \<Rightarrow> None)
             else
               (case unescape e of
                  Some x \<Rightarrow> parse_chars (x # acc) rest
                | None \<Rightarrow> None))
      else if (of_char c :: nat) < 32 then None
      else parse_chars (c # acc) cs)"

definition parse_digits :: "string \<Rightarrow> (string \<times> string) option" where
  \<comment> \<open>one digit or more\<close>
  "parse_digits s =
     (let ds = takeWhile is_digit s in
      if ds = [] then None else Some (ds, dropWhile is_digit s))"

definition parse_number :: "string \<Rightarrow> (jsvalue \<times> string) option" where
  \<comment> \<open>\<open>-? (0 | [1-9][0-9]*) (. [0-9]+)? ([eE] [+-]? [0-9]+)?\<close>: the numeral and the rest\<close>
  "parse_number s =
     (let sign = (if startsWith s ''-'' then ''-'' else []);
          s1 = drop (length sign) s;
          int_part = (if startsWith s1 ''0'' then Some (''0'', drop 1 s1) else parse_digits s1)
      in case int_part of
           None \<Rightarrow> None
         | Some (ip, s2) \<Rightarrow>
             (let frac = (if startsWith s2 ''.''
                          then (case parse_digits (drop 1 s2) of
                                  None \<Rightarrow> None
                                | Some (ds, r) \<Rightarrow> Some (''.'' @ ds, r))
                          else Some ([], s2))
              in case frac of
                   None \<Rightarrow> None
                 | Some (fp, s3) \<Rightarrow>
                     (if startsWith s3 ''e'' \<or> startsWith s3 ''E'' then
                        (let s4 = drop 1 s3;
                             esign = (if startsWith s4 ''+'' \<or> startsWith s4 ''-'' then take 1 s4 else [])
                         in case parse_digits (drop (length esign) s4) of
                              None \<Rightarrow> None
                            | Some (ds, r) \<Rightarrow> Some (JNum (sign @ ip @ fp @ take 1 s3 @ esign @ ds), r))
                      else Some (JNum (sign @ ip @ fp), s3))))"

fun set_prop :: "(string \<times> jsvalue) list \<Rightarrow> string \<Rightarrow> jsvalue \<Rightarrow> (string \<times> jsvalue) list" where
  \<comment> \<open>a property is created at the end; a second binding replaces the value in place\<close>
  "set_prop [] k v = [(k, v)]"
| "set_prop ((k', v') # kvs) k v = (if k' = k then (k, v) # kvs else (k', v') # set_prop kvs k v)"

fun parse_value :: "nat \<Rightarrow> string \<Rightarrow> (jsvalue \<times> string) option"
  and parse_elements :: "nat \<Rightarrow> string \<Rightarrow> jsvalue list \<Rightarrow> (jsvalue \<times> string) option"
  and parse_members :: "nat \<Rightarrow> string \<Rightarrow> (string \<times> jsvalue) list \<Rightarrow> (jsvalue \<times> string) option" where
  \<comment> \<open>the first argument bounds the depth of the calls; the length of the text is enough\<close>
  "parse_value 0 s = None"
| "parse_value (Suc n) s =
     (case dropWhile json_ws s of
        [] \<Rightarrow> None
      | c # cs \<Rightarrow>
          if c = CHR ''{'' then
            (case dropWhile json_ws cs of
               [] \<Rightarrow> None
             | d # ds \<Rightarrow> if d = CHR ''}'' then Some (JObj [], ds) else parse_members n cs [])
          else if c = CHR ''['' then
            (case dropWhile json_ws cs of
               [] \<Rightarrow> None
             | d # ds \<Rightarrow> if d = CHR '']'' then Some (JArr [], ds) else parse_elements n cs [])
          else if c = CHR 0x22 then
            (case parse_chars [] cs of
               None \<Rightarrow> None
             | Some (str, rest) \<Rightarrow> Some (JStr str, rest))
          else if startsWith (c # cs) ''true'' then Some (JBool True, drop 4 (c # cs))
          else if startsWith (c # cs) ''false'' then Some (JBool False, drop 5 (c # cs))
          else if startsWith (c # cs) ''null'' then Some (JNull, drop 4 (c # cs))
          else parse_number (c # cs))"
| "parse_elements 0 s acc = None"
| "parse_elements (Suc n) s acc =
     (case parse_value n s of
        None \<Rightarrow> None
      | Some (v, rest) \<Rightarrow>
          (case dropWhile json_ws rest of
             [] \<Rightarrow> None
           | d # ds \<Rightarrow>
               if d = CHR '','' then parse_elements n ds (acc @ [v])
               else if d = CHR '']'' then Some (JArr (acc @ [v]), ds)
               else None))"
| "parse_members 0 s acc = None"
| "parse_members (Suc n) s acc =
     (case dropWhile json_ws s of
        [] \<Rightarrow> None
      | q # cs \<Rightarrow>
          if q \<noteq> CHR 0x22 then None
          else
            (case parse_chars [] cs of
               None \<Rightarrow> None
             | Some (k, rest) \<Rightarrow>
                 (case dropWhile json_ws rest of
                    [] \<Rightarrow> None
                  | colon # r \<Rightarrow>
                      if colon \<noteq> CHR '':'' then None
                      else
                        (case parse_value n r of
                           None \<Rightarrow> None
                         | Some (v, rest2) \<Rightarrow>
                             (case dropWhile json_ws rest2 of
                                [] \<Rightarrow> None
                              | d # ds \<Rightarrow>
                                  if d = CHR '','' then parse_members n ds (set_prop acc k v)
                                  else if d = CHR ''}'' then Some (JObj (set_prop acc k v), ds)
                                  else None)))))"

definition syntax_error :: thrown where
  "syntax_error = ThrownObject
     \<lparr>err_name = Some (JStr ''SyntaxError''), err_message = Some (JStr ''Unexpected token in JSON''),
      err_code = None, err_fault = None, err_metadata = None,
      err_string = ''SyntaxError: Unexpected token in JSON''\<rparr>"

definition json_parse :: "string \<Rightarrow> thrown + jsvalue" where
  "json_parse s =
     (case parse_value (length s + 1) s of
        None \<Rightarrow> Inl syntax_error
      | Some (v, rest) \<Rightarrow> if dropWhile json_ws rest = [] then Inr v else Inl syntax_error)"


fun show_nat :: "nat \<Rightarrow> string" where
  \<comment> \<open>the decimal numeral of a count\<close>
  "show_nat n =
     (if n < 10 then [char_of (48 + n)] else show_nat (n div 10) @ [char_of (48 + n mod 10)])"

definition hex_digit :: "nat \<Rightarrow> char" where
  "hex_digit n = (if n < 10 then char_of (48 + n) else char_of (87 + n))"

definition escape_char :: "char \<Rightarrow> string" where
  "escape_char c =
     (if c = CHR 0x22 then [CHR 0x5C, CHR 0x22]
      else if c = CHR 0x5C then [CHR 0x5C, CHR 0x5C]
      else if c = CHR 0x08 then [CHR 0x5C, CHR ''b'']
      else if c = CHR 0x0C then [CHR 0x5C, CHR ''f'']
      else if c = CHR 0x0A then [CHR 0x5C, CHR ''n'']
      else if c = CHR 0x0D then [CHR 0x5C, CHR ''r'']
      else if c = CHR 0x09 then [CHR 0x5C, CHR ''t'']
      else if (of_char c :: nat) < 32
      then [CHR 0x5C, CHR ''u'', CHR ''0'', CHR ''0'',
            hex_digit ((of_char c :: nat) div 16), hex_digit ((of_char c :: nat) mod 16)]
      else [c])"

definition quote :: "string \<Rightarrow> string" where
  "quote s = [CHR 0x22] @ concat (map escape_char s) @ [CHR 0x22]"

fun json_stringify :: "jsvalue \<Rightarrow> string" where
  "json_stringify JNull = ''null''"
| "json_stringify (JBool b) = (if b then ''true'' else ''false'')"
| "json_stringify (JNum s) = s"
| "json_stringify (JStr s) = quote s"
| "json_stringify (JArr xs) = ''['' @ join '','' (map json_stringify xs) @ '']''"
| "json_stringify (JObj kvs) =
     ''{'' @ join '','' (map (\<lambda>kv. quote (fst kv) @ '':'' @ json_stringify (snd kv)) kvs) @ ''}''"

definition hit_value :: "RetrievalHit \<Rightarrow> jsvalue" where
  "hit_value h =
     JObj [(''id'', JStr (hit_id h)), (''title'', JStr (hit_title h)),
           (''snippet'', JStr (snippet h)), (''score'', JNum (show_nat (score h)))]"

definition output_value :: "tool_output \<Rightarrow> jsvalue" where
  "output_value out =
     (case out of
        PlanOut p \<Rightarrow> JObj [(''plan'', JArr (map JStr p))]
      | HitsOut hs \<Rightarrow> JObj [(''hits'', JArr (map hit_value hs))]
      | DraftOut None \<Rightarrow> JObj []
      | DraftOut (Some d) \<Rightarrow> JObj [(''draft'', JStr d)])"

definition json_stringify_result :: "string \<Rightarrow> tool_output \<Rightarrow> string" where
  "json_stringify_result name out =
     json_stringify (JObj [(''tool'', JStr name), (''output'', output_value out)])"

fun convertible :: "jsvalue \<Rightarrow> bool" where
  \<comment> \<open>\<open>String(v)\<close> returns: no object on the way has a property \<open>toString\<close> of its own
      (a parsed value holds no function, and \<open>Object.prototype.valueOf\<close> gives no
      primitive)\<close>
  "convertible (JArr xs) = list_all convertible xs"
| "convertible (JObj kvs) = (map_of kvs ''toString'' = None)"
| "convertible v = True"

fun text_of :: "jsvalue \<Rightarrow> string" where
  \<comment> \<open>the text \<open>String(v)\<close> of a value that can be converted\<close>
  "text_of JNull = ''null''"
| "text_of (JBool b) = (if b then ''true'' else ''false'')"
| "text_of (JNum s) = s"
| "text_of (JStr s) = s"
| "text_of (JArr xs) = join '','' (map (\<lambda>x. if x = JNull then [] else text_of x) xs)"
| "text_of (JObj kvs) = ''[object Object]''"

definition conversion_error :: thrown where
  "conversion_error = ThrownObject
     \<lparr>err_name = Some (JStr ''TypeError''),
      err_message = Some (JStr ''Cannot convert object to primitive value''),
      err_code = None, err_fault = None, err_metadata = None,
      err_string = ''TypeError: Cannot convert object to primitive value''\<rparr>"

definition string_of :: "jsvalue \<Rightarrow> thrown + string" where
  "string_of v = (if convertible v then Inr (text_of v) else Inl conversion_error)"

definition type_error :: thrown where
  "type_error = ThrownObject
     \<lparr>err_name = Some (JStr ''TypeError''),
      err_message = Some (JStr (''Cannot read properties of undefined (reading '' @ [CHR 0x27] @
                                ''toLowerCase'' @ [CHR 0x27] @ '')'')),
      err_code = None, err_fault = None, err_metadata = None,
      err_string = ''TypeError: Cannot read properties of undefined (reading '' @ [CHR 0x27] @
                   ''toLowerCase'' @ [CHR 0x27] @ '')''\<rparr>"

definition ref_platform :: platform where
  "ref_platform =
     \<lparr>JSON_parse = json_parse, JSON_stringify = json_stringify,
      JSON_stringify_result = json_stringify_result, String_of = string_of,
      undefined_toLowerCase = type_error\<rparr>"

section \<open>The specification's words, as definitions\<close>

definition spec_score :: "string list \<Rightarrow> Doc \<Rightarrow> nat" where
  \<comment> \<open>the score of the specification: the number of query-token occurrences, counted
      with repetition, whose token is a member of the document's token set\<close>
  "spec_score q d =
     length (filter (\<lambda>term. term \<in> set (tokenize (doc_title d @ '' '' @ doc_text d))) q)"

definition ranked :: "Doc list \<Rightarrow> string list \<Rightarrow> (Doc \<times> nat) list" where
  \<comment> \<open>every document of the corpus that scores above 0, with its score, before truncation\<close>
  "ranked docs q = scored_docs docs q (length docs)"







definition valid_entry :: "jsvalue \<Rightarrow> bool" where
  \<comment> \<open>a valid entry of \<open>messages\<close>: an object whose \<open>role\<close> is \<open>user\<close> or \<open>assistant\<close> and whose
      \<open>content\<close> is a string that is not empty once trimmed\<close>
  "valid_entry m =
     (case m of
        JObj kvs \<Rightarrow>
          (case (map_of kvs ''role'', map_of kvs ''content'') of
             (Some (JStr r), Some (JStr c)) \<Rightarrow> (r = ''user'' \<or> r = ''assistant'') \<and> trim c \<noteq> []
           | _ \<Rightarrow> False)
      | _ \<Rightarrow> False)"

definition kept_entry :: "jsvalue \<Rightarrow> AgentMessage" where
  \<comment> \<open>what is kept of a valid entry: its role and its trimmed content\<close>
  "kept_entry m =
     (case m of
        JObj kvs \<Rightarrow>
          \<lparr>role = (if map_of kvs ''role'' = Some (JStr ''user'') then User else Assistant),
           content = (case map_of kvs ''content'' of Some (JStr c) \<Rightarrow> trim c | _ \<Rightarrow> [])\<rparr>
      | _ \<Rightarrow> \<lparr>role = User, content = []\<rparr>)"

definition last12 :: "'a list \<Rightarrow> 'a list" where
  \<comment> \<open>the last 12 elements of a list, the whole list when it has at most 12\<close>
  "last12 xs = rev (take 12 (rev xs))"

definition closing_note :: string where
  \<comment> \<open>the instruction that ends the goal turn, after two line feeds\<close>
  "closing_note =
     [CHR 0x0A, CHR 0x0A] @
     ''If needed, start by making a plan, then use tools as needed, then finalize.''"

definition entry :: "string \<Rightarrow> string \<Rightarrow> jsvalue" where
  \<comment> \<open>an entry of \<open>messages\<close> with a role and a content\<close>
  "entry r c = JObj [(''role'', JStr r), (''content'', JStr c)]"

definition sample_messages :: "jsvalue list" where
  \<comment> \<open>19 entries: 13 valid ones (\<open>m1\<close> to \<open>m13\<close>) and 6 that are not\<close>
  "sample_messages =
     [entry ''user'' ''m1'', entry ''assistant'' '' m2 '', entry ''system'' ''x'',
      entry ''user'' ''   '', JNum ''42'', JNull, JObj [(''role'', JStr ''user'')], JArr [],
      entry ''user'' ''m3'', entry ''assistant'' ''m4'', entry ''user'' ''m5'',
      entry ''assistant'' ''m6'', entry ''user'' ''m7'', entry ''assistant'' ''m8'',
      entry ''user'' ''m9'', entry ''assistant'' ''m10'', entry ''user'' ''m11'',
      entry ''assistant'' ''m12'', entry ''user'' ''m13'']"

definition sample_body :: "jsvalue option" where
  "sample_body =
     Some (JObj [(''goal'', JStr '' Write a pitch ''), (''context'', JStr '' for the judges''),
                 (''messages'', JArr sample_messages)])"

text \<open>Concrete backends and requests for the runs evaluated below.\<close>

definition options0 :: "string \<Rightarrow> NovaTextOptions" where
  "options0 mid =
     \<lparr>modelId = mid, system = Some ''Answer in JSON.'',
      messages = [\<lparr>role = User, content = ''hello''\<rparr>],
      maxTokens = None, temperature = None\<rparr>"

definition env0 :: env where
  "env0 = \<lparr>DEMO_API_KEY = None, NOVA_MODEL_ID = Some ''amazon.nova-lite-v1:0'', AWS_REGION = None\<rparr>"

definition service_error :: "string \<Rightarrow> string \<Rightarrow> thrown" where
  \<comment> \<open>a service exception of the SDK with its name and message\<close>
  "service_error name msg = ThrownObject
     \<lparr>err_name = Some (JStr name), err_message = Some (JStr msg), err_code = None,
      err_fault = Some (JStr ''client''),
      err_metadata = Some (JObj [(''httpStatusCode'', JNum ''400''), (''attempts'', JNum ''1'')]),
      err_string = name @ '': '' @ msg\<rparr>"

definition backend_of :: "(thrown + content_block list option) \<Rightarrow> (thrown + string) \<Rightarrow> backend" where
  \<comment> \<open>the backend that gives the same two answers to every request\<close>
  "backend_of c i = \<lparr>converse_send = (\<lambda>region req. c), invoke_send = (\<lambda>region req. i)\<rparr>"

definition body_outputText :: string where
  \<open>body_outputText = ''{"outputText":"from the single call"}''\<close>


definition profile_arn :: string where
  "profile_arn = ''arn:aws:bedrock:us-east-1:123456789012:inference-profile/us.amazon.nova-lite-v1:0''"

text \<open>Names for the responses and messages of the handler, and measures of a transcript.\<close>

definition budget_message :: string where
  "budget_message = ''Agent exceeded max turns without producing a final answer.''"

definition parse_failure_message :: string where
  "parse_failure_message =
     ''Model did not return valid JSON decision. Ensure the model is following the JSON-only contract.''"

definition budget_response :: "AgentStep list \<Rightarrow> response" where
  \<comment> \<open>the response after the loop, for a transcript\<close>
  "budget_response xs =
     \<lparr>status = 500, final = None, error = Some budget_message, details = None, hint = None,
      steps = Some xs\<rparr>"

definition is_model_step :: "AgentStep \<Rightarrow> bool" where
  "is_model_step s = (case s of ModelStep t \<Rightarrow> True | _ \<Rightarrow> False)"

definition is_error_step :: "AgentStep \<Rightarrow> bool" where
  "is_error_step s = (case s of ErrorStep m \<Rightarrow> True | _ \<Rightarrow> False)"

definition model_steps :: "AgentStep list \<Rightarrow> nat" where
  \<comment> \<open>the number of Model steps of a transcript\<close>
  "model_steps xs = length (filter is_model_step xs)"

fun after_turns :: "platform \<Rightarrow> backend \<Rightarrow> env \<Rightarrow> string \<Rightarrow> nat \<Rightarrow> run_state \<Rightarrow> run_state option" where
  \<comment> \<open>the state after \<open>k\<close> turns that all end in a tool result (the loop continues after
      each); \<open>None\<close> when one of them ends the run\<close>
  "after_turns P B E mid 0 st = Some st"
| "after_turns P B E mid (Suc k) st =
     (case fst (novaConverseText P B E (turn_options mid st)) of
        Inl err \<Rightarrow> None
      | Inr modelText \<Rightarrow>
          (case decide P E modelText (st\<lparr>st_calls := st_calls st + 1\<rparr>) of
             Respond r st' \<Rightarrow> None
           | Continue st' \<Rightarrow> after_turns P B E mid k st'))"

definition unknown_tool_message :: "string \<Rightarrow> string" where
  \<comment> \<open>the message for a canonical decision whose \<open>tool\<close> is not registered, for the text
      of that \<open>tool\<close>\<close>
  "unknown_tool_message name = ''Unknown or missing tool: '' @ name"

definition unknown_action_message :: "string \<Rightarrow> string" where
  \<comment> \<open>the message for a decision whose \<open>action\<close> is neither \<open>final\<close>, nor \<open>tool\<close>, nor a
      registered tool, for the text of that \<open>action\<close>\<close>
  "unknown_action_message name = ''Unknown model action: '' @ name"

definition tool_reply :: string where
  \<comment> \<open>a model answer that asks for a tool, in the canonical form\<close>
  \<open>tool_reply = ''{"action":"tool","tool":"writeDraft","input":"d"}''\<close>

definition backend_tool :: backend where
  \<comment> \<open>a backend whose model asks for the same tool at every turn\<close>
  "backend_tool = backend_of (Inr (Some [TextBlock tool_reply])) (Inr body_outputText)"

definition backend_says :: "string \<Rightarrow> backend" where
  \<comment> \<open>a backend whose model gives the same answer at every turn\<close>
  "backend_says answer = backend_of (Inr (Some [TextBlock answer])) (Inr body_outputText)"

definition request0 :: request where
  "request0 = \<lparr>header_key = None, body = Some (JObj [(''goal'', JStr ''Write a pitch'')])\<rparr>"

definition state0 :: run_state where
  \<comment> \<open>a state in the middle of a run: a plan and a draft are there\<close>
  "state0 =
     \<lparr>st_steps = [ModelStep ''earlier''], st_messages = [\<lparr>role = User, content = ''goal''\<rparr>],
      st_toolCtx = \<lparr>draft = Some ''a draft'', plan = [''step one'']\<rparr>, st_calls = 1\<rparr>"

definition hint_text :: "env \<Rightarrow> string" where
  \<comment> \<open>the \<open>hint\<close> of the \<open>catch\<close> block\<close>
  "hint_text E =
     ''If this is an AWS/Bedrock issue, verify AWS_REGION='' @
     (case AWS_REGION E of None \<Rightarrow> ''(unset)'' | Some r \<Rightarrow> r) @
     '', credentials, Bedrock model access, and NOVA_MODEL_ID.''"

definition failure_response :: "env \<Rightarrow> string \<Rightarrow> AgentStep list \<Rightarrow> response" where
  \<comment> \<open>the response of the \<open>catch\<close> block for an \<open>Error\<close> of the handler's own with message
      \<open>msg\<close>, for the transcript \<open>xs\<close> (its Error step included)\<close>
  "failure_response E msg xs =
     \<lparr>status = 500, final = None, error = Some msg,
      details = Some \<lparr>det_name = Some ''Error'', det_message = msg, det_code = None,
                      det_fault = None, det_metadata = None\<rparr>,
      hint = Some (hint_text E), steps = Some xs\<rparr>"

definition turn_failure :: "platform \<Rightarrow> env \<Rightarrow> thrown \<Rightarrow> AgentStep list \<Rightarrow> response" where
  \<comment> \<open>the response to a value thrown during a turn: status 500, the message, the details,
      the hint, and the transcript \<open>xs\<close> followed by the Error step with that message\<close>
  "turn_failure P E err xs =
     \<lparr>status = 500, final = None, error = Some (det_message (toErrorDetails P err)),
      details = Some (toErrorDetails P err), hint = Some (hint_text E),
      steps = Some (xs @ [ErrorStep (det_message (toErrorDetails P err))])\<rparr>"


definition after_model_step :: "string \<Rightarrow> string \<Rightarrow> run_state \<Rightarrow> run_state" where
  \<comment> \<open>the state when a turn fails right after the model has answered \<open>modelText\<close>: one
      more call, the Model step, the assistant turn and the Error step\<close>
  "after_model_step modelText msg st =
     st\<lparr>st_calls := st_calls st + 1,
        st_steps := st_steps st @ [ModelStep modelText, ErrorStep msg],
        st_messages := st_messages st @ [\<lparr>role = Assistant, content = modelText\<rparr>]\<rparr>"

definition after_tool_reply :: "run_state \<Rightarrow> run_state" where
  \<comment> \<open>the state after one turn in which the model answers \<open>tool_reply\<close>\<close>
  "after_tool_reply st =
     st\<lparr>st_calls := st_calls st + 1,
        st_toolCtx := (st_toolCtx st)\<lparr>draft := Some ''d''\<rparr>,
        st_steps := st_steps st @
          [ModelStep tool_reply, ToolStep ''writeDraft'' (Some (JStr ''d'')) (DraftOut (Some ''d''))],
        st_messages := st_messages st @
          [\<lparr>role = Assistant, content = tool_reply\<rparr>,
           \<lparr>role = User, content = json_stringify_result ''writeDraft'' (DraftOut (Some ''d''))\<rparr>]\<rparr>"

fun tool_rounds :: "AgentStep list \<Rightarrow> bool" where
  \<comment> \<open>a transcript made of turns that ended in a tool result: a Model step, then the
      Tool step of its call, any number of times\<close>
  "tool_rounds [] = True"
| "tool_rounds (ModelStep t # ToolStep name input out # xs) = tool_rounds xs"
| "tool_rounds xs = False"

definition throttled :: thrown where
  \<comment> \<open>an error of the model service\<close>
  "throttled = service_error ''ThrottlingException'' ''Too many requests''"

definition backend_then :: "(thrown + content_block list option) \<Rightarrow> backend" where
  \<comment> \<open>a backend whose model asks for a tool while the request holds fewer than three
      messages, and gives \<open>answer\<close> afterwards\<close>
  "backend_then answer =
     \<lparr>converse_send = (\<lambda>region req.
        if length (req_messages req) < 3 then Inr (Some [TextBlock tool_reply]) else answer),
      invoke_send = (\<lambda>region req. Inr body_outputText)\<rparr>"

definition unknown_canonical :: string where
  \<open>unknown_canonical = ''{"action":"tool","tool":"deleteAll","input":1}''\<close>

definition unknown_compact :: string where
  \<open>unknown_compact = ''{"action":"deleteAll","input":1}''\<close>

definition unknown_no_text :: string where
  \<comment> \<open>a canonical decision whose \<open>tool\<close> is an object that \<open>String\<close> cannot convert\<close>
  \<open>unknown_no_text = ''{"action":"tool","tool":{"toString":1}}''\<close>

definition action_no_text :: string where
  \<comment> \<open>a decision whose \<open>action\<close> is an object that \<open>String\<close> cannot convert\<close>
  \<open>action_no_text = ''{"action":{"toString":1}}''\<close>

definition final_no_text :: string where
  \<comment> \<open>a final answer whose \<open>output\<close> is an object that \<open>String\<close> cannot convert\<close>
  \<open>final_no_text = ''{"action":"final","output":{"toString":1}}''\<close>

definition retrieve_no_input :: string where
  \<comment> \<open>a call of \<open>retrieve\<close> without an input, in the compact form: the tool throws\<close>
  \<open>retrieve_no_input = ''{"action":"retrieve"}''\<close>

definition no_action_reply :: string where
  \<open>no_action_reply = ''{"answer":"hi"}''\<close>

definition between :: "char \<Rightarrow> char \<Rightarrow> string \<Rightarrow> string option" where
  \<comment> \<open>the text from the first \<open>a\<close> to the last \<open>b\<close>, both included, when there is a \<open>b\<close>
      after the first \<open>a\<close>\<close>
  "between a b s =
     (let from_a = dropWhile (\<lambda>c. c \<noteq> a) s in
      if from_a \<noteq> [] \<and> b \<in> set (tl from_a)
      then Some (rev (dropWhile (\<lambda>c. c \<noteq> b) (rev from_a)))
      else None)"

definition untag :: "string \<Rightarrow> string" where
  \<comment> \<open>a text without the tag \<open>json\<close> (in any case) it may start with\<close>
  "untag s = (if toLowerCase (take 4 s) = ''json'' then drop 4 s else s)"

definition fence_body :: "string \<Rightarrow> string option" where
  \<comment> \<open>the whole text is fenced when it starts with three back quotes and ends with three
      others; what is stripped is the fence, the optional tag and the white space around
      the body\<close>
  "fence_body s =
     (if 6 \<le> length s \<and> take 3 s = ''```'' \<and> drop (length s - 3) s = ''```''
      then Some (trim (untag (take (length s - 6) (drop 3 s))))
      else None)"

definition spec_extract :: "string \<Rightarrow> string" where
  \<comment> \<open>the extraction heuristic in the specification's words, applied to a text as it is:
      strip the fence when the whole text is fenced; use the result as it is when it
      starts with a brace or a bracket; otherwise the text from the first opening brace
      to the last closing brace; otherwise the same with brackets; otherwise the text
      unchanged\<close>
  "spec_extract s =
     (let c = (case fence_body s of Some g \<Rightarrow> g | None \<Rightarrow> s) in
      if startsWith c ''{'' \<or> startsWith c ''['' then c
      else case between (CHR ''{'') (CHR ''}'') c of
             Some r \<Rightarrow> r
           | None \<Rightarrow> (case between (CHR ''['') (CHR '']'') c of Some r \<Rightarrow> r | None \<Rightarrow> c))"

definition fenced_final :: string where
  \<open>fenced_final = ''```json {"action":"final","output":"x"} ```''\<close>

definition padded_final :: string where
  \<open>padded_final = '' {"action":"final","output":"x"} trailing''\<close>


section \<open>Tool context: what each tool changes\<close>

text \<open>
  C10. Each tool writes at most its own field of the Tool Context: for every context and
  input, \<open>makePlan\<close> leaves \<open>draft\<close> as it was, \<open>writeDraft\<close> leaves \<open>plan\<close> as it was, and
  \<open>retrieve\<close> leaves the whole context (both \<open>plan\<close> and \<open>draft\<close>) as it was, also when it
  throws.
\<close>

theorem tools_frame:
  "draft (fst (makePlan P ctx input)) = draft ctx \<and>
   plan (fst (writeDraft P ctx input)) = plan ctx \<and>
   fst (retrieve P ctx input) = ctx \<and>
   plan (fst (retrieve P ctx input)) = plan ctx \<and>
   draft (fst (retrieve P ctx input)) = draft ctx"
  by (simp add: makePlan_def writeDraft_def retrieve_def Let_def)

section \<open>Message history\<close>

lemma slice_from_last12: "slice_from xs (- 12) = drop (length xs - 12) xs"
  by (auto simp: slice_from_def slice_def Let_def max_def nat_diff_distrib'
      intro: arg_cong2[where f=drop])

lemma history_entry_non_object: "\<not> is_object (Some m) \<Longrightarrow> history_entry m = None"
  by (cases m) (auto simp: history_entry_def is_object_def get_prop_def Let_def)

lemma filter_objects:
  "filter (\<lambda>x. x \<noteq> None) (map history_entry (filter (\<lambda>m. is_object (Some m)) xs))
   = filter (\<lambda>x. x \<noteq> None) (map history_entry xs)"
  by (induction xs) (auto simp: history_entry_non_object)

lemma map_the_filter: "map the (filter (\<lambda>x. x \<noteq> None) (map f xs)) = List.map_filter f xs"
  by (induction xs) (auto split: option.splits)

lemma history_of_array:
  "history_of (Some (JArr xs)) =
     drop (length (List.map_filter history_entry xs) - 12) (List.map_filter history_entry xs)"
proof -
  have "history_of (Some (JArr xs)) = slice_from (List.map_filter history_entry xs) (- 12)"
    unfolding history_of_def
    by (simp only: filter_objects map_the_filter option.case jsvalue.case)
  then show ?thesis by (simp only: slice_from_last12)
qed

lemma history_of_other: "(\<forall>xs. ms \<noteq> Some (JArr xs)) \<Longrightarrow> history_of ms = []"
  by (auto simp: history_of_def split: option.splits jsvalue.splits)

lemma length_history_of: "length (history_of ms) \<le> 12"
proof (cases "\<exists>xs. ms = Some (JArr xs)")
  case True
  then show ?thesis by (auto simp: history_of_array)
next
  case False
  then show ?thesis by (simp add: history_of_other)
qed

lemma history_entry_content: "history_entry m = Some e \<Longrightarrow> content e \<noteq> []"
  by (auto simp: history_entry_def Let_def split: if_splits option.splits jsvalue.splits)

lemma history_of_nonempty: "[] \<notin> content ` set (history_of ms)"
proof (cases "\<exists>xs. ms = Some (JArr xs)")
  case True
  then obtain xs where ms: "ms = Some (JArr xs)" by blast
  have "set (history_of ms) \<subseteq> set (List.map_filter history_entry xs)"
    unfolding ms history_of_array by (rule set_drop_subset)
  moreover have "\<And>e. e \<in> set (List.map_filter history_entry xs) \<Longrightarrow> content e \<noteq> []"
    by (auto simp: List.map_filter_def history_entry_content)
  ultimately show ?thesis by force
next
  case False
  then show ?thesis by (simp add: history_of_other)
qed

lemma history_entry_iff: "history_entry m = Some e \<longleftrightarrow> valid_entry m \<and> e = kept_entry m"
  by (cases m)
    (auto simp: history_entry_def valid_entry_def kept_entry_def get_prop_def Let_def
      split: option.splits jsvalue.splits if_splits)

lemma map_filter_history_entry:
  "List.map_filter history_entry xs = map kept_entry (filter valid_entry xs)"
proof (induction xs)
  case Nil
  then show ?case by (simp add: List.map_filter_simps)
next
  case (Cons m xs)
  show ?case
  proof (cases "history_entry m")
    case None
    with history_entry_iff[of m "kept_entry m"] have "\<not> valid_entry m" by simp
    with None Cons show ?thesis by (simp add: List.map_filter_simps)
  next
    case (Some e)
    with history_entry_iff[of m e] have "valid_entry m" "e = kept_entry m" by simp_all
    with Some Cons show ?thesis by (simp add: List.map_filter_simps)
  qed
qed

lemma last12_drop: "last12 xs = drop (length xs - 12) xs"
  by (simp add: last12_def take_rev)

lemma history_of_valid: "history_of (Some (JArr xs)) = last12 (map kept_entry (filter valid_entry xs))"
  by (simp only: history_of_array map_filter_history_entry last12_drop)

lemma history_of_cases:
  "history_of ms =
     (case ms of Some (JArr xs) \<Rightarrow> last12 (map kept_entry (filter valid_entry xs)) | _ \<Rightarrow> [])"
proof (cases "\<exists>xs. ms = Some (JArr xs)")
  case True
  then show ?thesis by (auto simp: history_of_valid)
next
  case False
  then have "history_of ms = []" by (simp add: history_of_other)
  with False show ?thesis by (auto split: option.splits jsvalue.splits)
qed

lemma goal_turn_content:
  "goal_turn g c =
     \<lparr>role = User,
      content = g @ (if c = [] then [] else [CHR 0x0A, CHR 0x0A] @ ''Context:'' @ [CHR 0x0A] @ c) @
                closing_note\<rparr>"
  by (simp add: goal_turn_def closing_note_def)

lemma initial_messages_body:
  "initial_messages (Some (JObj [(''goal'', JStr g), (''context'', JStr c), (''messages'', JArr xs)])) =
     last12 (map kept_entry (filter valid_entry xs)) @
     [\<lparr>role = User,
       content = trim g @
         (if trim c = [] then [] else [CHR 0x0A, CHR 0x0A] @ ''Context:'' @ [CHR 0x0A] @ trim c) @
         closing_note\<rparr>]"
  by (simp add: initial_messages_def get_prop_def trimmed_string_def history_of_valid
      goal_turn_content)

lemma initial_messages_goal_only:
  "initial_messages (Some (JObj [(''goal'', JStr g)])) =
     [\<lparr>role = User, content = trim g @ closing_note\<rparr>]"
  by (simp add: initial_messages_def get_prop_def trimmed_string_def history_of_def
      goal_turn_content)

lemma eval_sample_history:
  "map kept_entry (filter valid_entry sample_messages) =
     [\<lparr>role = User, content = ''m1''\<rparr>, \<lparr>role = Assistant, content = ''m2''\<rparr>,
      \<lparr>role = User, content = ''m3''\<rparr>, \<lparr>role = Assistant, content = ''m4''\<rparr>,
      \<lparr>role = User, content = ''m5''\<rparr>, \<lparr>role = Assistant, content = ''m6''\<rparr>,
      \<lparr>role = User, content = ''m7''\<rparr>, \<lparr>role = Assistant, content = ''m8''\<rparr>,
      \<lparr>role = User, content = ''m9''\<rparr>, \<lparr>role = Assistant, content = ''m10''\<rparr>,
      \<lparr>role = User, content = ''m11''\<rparr>, \<lparr>role = Assistant, content = ''m12''\<rparr>,
      \<lparr>role = User, content = ''m13''\<rparr>]"
  unfolding sample_messages_def entry_def by code_simp

lemma eval_sample_trims:
  "trim '' Write a pitch '' = ''Write a pitch''" "trim '' for the judges'' = ''for the judges''"
  by code_simp+

lemma eval_sample_body:
  "initial_messages sample_body =
     [\<lparr>role = Assistant, content = ''m2''\<rparr>,
      \<lparr>role = User, content = ''m3''\<rparr>, \<lparr>role = Assistant, content = ''m4''\<rparr>,
      \<lparr>role = User, content = ''m5''\<rparr>, \<lparr>role = Assistant, content = ''m6''\<rparr>,
      \<lparr>role = User, content = ''m7''\<rparr>, \<lparr>role = Assistant, content = ''m8''\<rparr>,
      \<lparr>role = User, content = ''m9''\<rparr>, \<lparr>role = Assistant, content = ''m10''\<rparr>,
      \<lparr>role = User, content = ''m11''\<rparr>, \<lparr>role = Assistant, content = ''m12''\<rparr>,
      \<lparr>role = User, content = ''m13''\<rparr>,
      \<lparr>role = User,
       content = ''Write a pitch'' @ [CHR 0x0A, CHR 0x0A] @ ''Context:'' @ [CHR 0x0A] @
                 ''for the judges'' @ closing_note\<rparr>]"
  unfolding sample_body_def initial_messages_body eval_sample_history eval_sample_trims
  by (simp add: last12_def)

text \<open>
  C8. Whatever the length of the \<open>messages\<close> of a request, the history kept is the last 12
  of its valid entries, each with its role and its trimmed content, in their order (an
  entry is valid when it is an object whose role is user or assistant and whose content
  is a string that is not empty once trimmed; \<open>messages\<close> that is no array gives no
  history). No kept entry has an empty content. The message list a run starts with is
  that history followed by exactly one turn: a user turn whose content is the trimmed
  goal, then the trimmed context under the heading \<open>Context:\<close> when it is not empty, then
  the closing instruction. So a run starts with at most 13 messages. Of 13 valid entries
  among 19, the first is dropped and the 12 others are kept before the goal turn.
\<close>

theorem history_retained:
  "history_of (Some (JArr xs)) =
     drop (length (List.map_filter history_entry xs) - 12) (List.map_filter history_entry xs) \<and>
   length (history_of ms) \<le> 12 \<and>
   [] \<notin> content ` set (history_of ms) \<and>
   initial_messages b =
     history_of (get_prop b ''messages'') @
     [goal_turn (trimmed_string (get_prop b ''goal'')) (trimmed_string (get_prop b ''context''))] \<and>
   length (initial_messages b) \<le> 13 \<and>
   st_messages (initial_state b) = initial_messages b \<and>
   (history_entry m = Some e \<longleftrightarrow> valid_entry m \<and> e = kept_entry m) \<and>
   history_of ms =
     (case ms of Some (JArr xs) \<Rightarrow> last12 (map kept_entry (filter valid_entry xs)) | _ \<Rightarrow> []) \<and>
   last12 ys = drop (length ys - 12) ys \<and>
   goal_turn g c =
     \<lparr>role = User,
      content = g @ (if c = [] then [] else [CHR 0x0A, CHR 0x0A] @ ''Context:'' @ [CHR 0x0A] @ c) @
                closing_note\<rparr> \<and>
   initial_messages (Some (JObj [(''goal'', JStr g), (''context'', JStr c), (''messages'', JArr xs)])) =
     last12 (map kept_entry (filter valid_entry xs)) @
     [\<lparr>role = User,
       content = trim g @
         (if trim c = [] then [] else [CHR 0x0A, CHR 0x0A] @ ''Context:'' @ [CHR 0x0A] @ trim c) @
         closing_note\<rparr>] \<and>
   initial_messages (Some (JObj [(''goal'', JStr g)])) =
     [\<lparr>role = User, content = trim g @ closing_note\<rparr>] \<and>
   initial_messages sample_body =
     [\<lparr>role = Assistant, content = ''m2''\<rparr>,
      \<lparr>role = User, content = ''m3''\<rparr>, \<lparr>role = Assistant, content = ''m4''\<rparr>,
      \<lparr>role = User, content = ''m5''\<rparr>, \<lparr>role = Assistant, content = ''m6''\<rparr>,
      \<lparr>role = User, content = ''m7''\<rparr>, \<lparr>role = Assistant, content = ''m8''\<rparr>,
      \<lparr>role = User, content = ''m9''\<rparr>, \<lparr>role = Assistant, content = ''m10''\<rparr>,
      \<lparr>role = User, content = ''m11''\<rparr>, \<lparr>role = Assistant, content = ''m12''\<rparr>,
      \<lparr>role = User, content = ''m13''\<rparr>,
      \<lparr>role = User,
       content = ''Write a pitch'' @ [CHR 0x0A, CHR 0x0A] @ ''Context:'' @ [CHR 0x0A] @
                 ''for the judges'' @ closing_note\<rparr>]"
proof -
  have a: "length (initial_messages b) \<le> 13"
    using length_history_of[of "get_prop b ''messages''"] by (simp add: initial_messages_def)
  have b: "initial_messages b =
     history_of (get_prop b ''messages'') @
     [goal_turn (trimmed_string (get_prop b ''goal'')) (trimmed_string (get_prop b ''context''))]"
    by (simp add: initial_messages_def)
  have c: "st_messages (initial_state b) = initial_messages b" by (simp add: initial_state_def)
  from history_of_array[of xs] length_history_of[of ms] history_of_nonempty[of ms] b a c
    history_entry_iff[of m e] history_of_cases[of ms] last12_drop[of ys] goal_turn_content[of g c]
    initial_messages_body[of g c xs] initial_messages_goal_only[of g] eval_sample_body
  show ?thesis by (intro conjI)
qed

section \<open>Retrieval: scores and ranking\<close>

lemma fold_count:
  "fold (\<lambda>term acc. acc + (if P term then 1 else 0)) q (n::nat) = n + length (filter P q)"
  by (induction q arbitrary: n) auto

lemma doc_score_spec: "doc_score q d = spec_score q d"
  by (simp add: doc_score_def spec_score_def Let_def fold_count)

lemma slice_take: "slice xs 0 (int n) = take n xs"
  by (simp add: slice_def Let_def min_def)

lemma scored_docs_eq:
  "scored_docs docs q limit =
     take limit (sort_key (\<lambda>x. - int (snd x))
       (filter (\<lambda>x. 0 < snd x) (map (\<lambda>d. (d, spec_score q d)) docs)))"
  by (simp add: scored_docs_def slice_take doc_score_spec)

lemma ranked_eq:
  "ranked docs q = sort_key (\<lambda>x. - int (snd x))
       (filter (\<lambda>x. 0 < snd x) (map (\<lambda>d. (d, spec_score q d)) docs))"
proof -
  have "length (filter (\<lambda>x. 0 < snd x) (map (\<lambda>d. (d, spec_score q d)) docs)) \<le> length docs"
    by (metis length_filter_le length_map)
  then show ?thesis by (simp add: ranked_def scored_docs_eq)
qed

lemma scored_docs_ranked: "scored_docs docs q limit = take limit (ranked docs q)"
  by (simp add: scored_docs_eq ranked_eq)

lemma ranked_sorted: "sorted_wrt (\<lambda>a b. snd b \<le> snd a) (ranked docs q)"
proof -
  have "sorted (map (\<lambda>x. - int (snd x)) (ranked docs q))"
    unfolding ranked_eq by (rule sorted_sort_key)
  then show ?thesis by (simp add: sorted_map)
qed

lemma ranked_stable:
  "filter (\<lambda>x. snd x = k) (ranked docs q) =
   filter (\<lambda>x. snd x = k) (filter (\<lambda>x. 0 < snd x) (map (\<lambda>d. (d, spec_score q d)) docs))"
proof -
  have "filter (\<lambda>x. - int (snd x) = - int k) (ranked docs q) =
        filter (\<lambda>x. - int (snd x) = - int k)
          (filter (\<lambda>x. 0 < snd x) (map (\<lambda>d. (d, spec_score q d)) docs))"
    unfolding ranked_eq by (rule sort_key_stable)
  then show ?thesis by simp
qed

lemma ranked_mset:
  "mset (ranked docs q) = mset (filter (\<lambda>x. 0 < snd x) (map (\<lambda>d. (d, spec_score q d)) docs))"
  unfolding ranked_eq by simp

lemma ranked_no_tokens: "ranked docs [] = []"
  by (simp add: ranked_eq spec_score_def)

lemma retrieveImpl_ranked:
  "retrieveImpl query limit = map make_hit (take limit (ranked DOCS (tokenize query)))"
  by (simp add: retrieveImpl_def Let_def scored_docs_ranked ranked_no_tokens)

lemma demo_video:
  "map (\<lambda>h. (hit_id h, score h)) (retrieveImpl ''demo video'' 5) =
     [(''hackathon-submission'', 2), (''agentic-best-practices'', 1)]"
  by code_simp

text \<open>
  C2. For every query and limit the hits are the first \<open>limit\<close> entries of the ranking of
  the corpus, each carrying the identifier and the score of its document. The ranking
  (here for any corpus and any list of query tokens) holds exactly the documents whose
  score is above 0, the score being the number of query-token occurrences, repetitions
  counted, whose token is in the document's token set; it is sorted by descending score,
  and the documents of equal score stand in corpus order. The query \<open>demo video\<close> returns
  the document that has both tokens (score 2) before the one that has only one of them
  (score 1), and nothing else.
\<close>

theorem retrieval_ranking:
  "retrieveImpl query limit = map make_hit (take limit (ranked DOCS (tokenize query))) \<and>
   hit_id (make_hit (d, s)) = doc_id d \<and> score (make_hit (d, s)) = s \<and>
   scored_docs docs q limit = take limit (ranked docs q) \<and>
   mset (ranked docs q) =
     mset (filter (\<lambda>x. 0 < snd x) (map (\<lambda>d. (d, spec_score q d)) docs)) \<and>
   sorted_wrt (\<lambda>a b. snd b \<le> snd a) (ranked docs q) \<and>
   (\<forall>k. filter (\<lambda>x. snd x = k) (ranked docs q) =
        filter (\<lambda>x. snd x = k)
          (filter (\<lambda>x. 0 < snd x) (map (\<lambda>d. (d, spec_score q d)) docs))) \<and>
   map (\<lambda>h. (hit_id h, score h)) (retrieveImpl ''demo video'' 5) =
     [(''hackathon-submission'', 2), (''agentic-best-practices'', 1)]"
  using retrieveImpl_ranked[of query limit] scored_docs_ranked[of docs q limit]
    ranked_mset[of docs q] ranked_sorted[of docs q] ranked_stable[of _ docs q] demo_video
  by (simp add: make_hit_def)

section \<open>Model invocation client: protocol selection\<close>

lemma str_includes_iff: "str_includes s p \<longleftrightarrow> (\<exists>a b. s = a @ p @ b)"
proof (induction s)
  case Nil
  then show ?case by auto
next
  case (Cons c cs)
  show ?case
  proof
    assume "str_includes (c # cs) p"
    then consider "startsWith (c # cs) p" | "str_includes cs p" by auto
    then show "\<exists>a b. c # cs = a @ p @ b"
    proof cases
      case 1
      then have "c # cs = [] @ p @ drop (length p) (c # cs)"
        unfolding startsWith_def by (metis append_Nil append_take_drop_id)
      then show ?thesis by blast
    next
      case 2
      then obtain a b where "cs = a @ p @ b" using Cons.IH by blast
      then have "c # cs = (c # a) @ p @ b" by simp
      then show ?thesis by blast
    qed
  next
    assume "\<exists>a b. c # cs = a @ p @ b"
    then obtain a b where ab: "c # cs = a @ p @ b" by blast
    show "str_includes (c # cs) p"
    proof (cases a)
      case Nil
      then have "startsWith (c # cs) p" using ab by (simp add: startsWith_def)
      then show ?thesis by simp
    next
      case (Cons x a')
      then have "cs = a' @ p @ b" using ab by simp
      then show ?thesis using Cons.IH by auto
    qed
  qed
qed

lemma nova_arn:
  "isInferenceProfileArn (modelId opts) \<Longrightarrow>
   novaConverseText P B E opts = (invokeModelFallback P B (client_region E) opts, [SingleCall])"
  by (simp add: novaConverseText_def)

lemma nova_ok:
  "\<not> isInferenceProfileArn (modelId opts) \<Longrightarrow> converse_attempt B (client_region E) opts = Inr text \<Longrightarrow>
   novaConverseText P B E opts = (Inr text, [Structured])"
  by (simp add: novaConverseText_def)

lemma nova_retry:
  "\<not> isInferenceProfileArn (modelId opts) \<Longrightarrow> converse_attempt B (client_region E) opts = Inl err \<Longrightarrow>
   operation_not_allowed err \<Longrightarrow>
   novaConverseText P B E opts = (invokeModelFallback P B (client_region E) opts, [Structured, SingleCall])"
  by (simp add: novaConverseText_def)

lemma nova_propagate:
  "\<not> isInferenceProfileArn (modelId opts) \<Longrightarrow> converse_attempt B (client_region E) opts = Inl err \<Longrightarrow>
   \<not> operation_not_allowed err \<Longrightarrow>
   novaConverseText P B E opts = (Inl err, [Structured])"
  by (simp add: novaConverseText_def)

lemma nova_trace:
  "snd (novaConverseText P B E opts) = [SingleCall] \<or>
   snd (novaConverseText P B E opts) = [Structured] \<or>
   snd (novaConverseText P B E opts) = [Structured, SingleCall]"
  by (simp add: novaConverseText_def Let_def split: sum.splits)

lemma nova_retry_iff:
  "snd (novaConverseText P B E opts) = [Structured, SingleCall] \<longleftrightarrow>
   \<not> isInferenceProfileArn (modelId opts) \<and>
   (\<exists>err. converse_attempt B (client_region E) opts = Inl err \<and> operation_not_allowed err)"
  by (auto simp: novaConverseText_def Let_def split: sum.splits)

lemma operation_not_allowed_iff:
  "operation_not_allowed err \<longleftrightarrow>
     thrown_prop err err_name = ''ValidationException'' \<and>
     (\<exists>a b. toLowerCase (thrown_prop err err_message) = a @ ''operation not allowed'' @ b)"
  by (simp add: operation_not_allowed_def Let_def str_includes_iff)


lemma isInferenceProfileArn_iff:
  "isInferenceProfileArn m \<longleftrightarrow>
     (\<exists>rest. m = ''arn:aws:bedrock:'' @ rest) \<and> (\<exists>a b. m = a @ '':inference-profile/'' @ b)"
proof -
  have "startsWith m ''arn:aws:bedrock:'' \<longleftrightarrow> (\<exists>rest. m = ''arn:aws:bedrock:'' @ rest)"
    unfolding startsWith_def
    by (metis append_eq_conv_conj)
  then show ?thesis by (simp add: isInferenceProfileArn_def str_includes_iff)
qed

text \<open>
  C6. A model identifier that is an inference-profile ARN goes directly to the single-call
  protocol. Any other identifier is tried with the structured protocol first; the
  single-call protocol is used after it, once, exactly when the structured attempt fails
  with a value whose name is \<open>ValidationException\<close> and whose message, in lower case,
  contains \<open>operation not allowed\<close>; every other failure of the structured attempt is
  the result, unchanged, and nothing else is called. What the single call gives, text or
  failure, is then the result.
\<close>

theorem protocol_selection:
  "(isInferenceProfileArn (modelId opts) \<longrightarrow>
      novaConverseText P B E opts = (invokeModelFallback P B (client_region E) opts, [SingleCall])) \<and>
   (\<not> isInferenceProfileArn (modelId opts) \<longrightarrow>
      (\<forall>text. converse_attempt B (client_region E) opts = Inr text \<longrightarrow>
         novaConverseText P B E opts = (Inr text, [Structured])) \<and>
      (\<forall>err. converse_attempt B (client_region E) opts = Inl err \<longrightarrow>
         (operation_not_allowed err \<longrightarrow>
            novaConverseText P B E opts =
              (invokeModelFallback P B (client_region E) opts, [Structured, SingleCall])) \<and>
         (\<not> operation_not_allowed err \<longrightarrow>
            novaConverseText P B E opts = (Inl err, [Structured])))) \<and>
   (snd (novaConverseText P B E opts) = [Structured, SingleCall] \<longleftrightarrow>
      \<not> isInferenceProfileArn (modelId opts) \<and>
      (\<exists>err. converse_attempt B (client_region E) opts = Inl err \<and> operation_not_allowed err)) \<and>
   (operation_not_allowed e \<longleftrightarrow>
      thrown_prop e err_name = ''ValidationException'' \<and>
      (\<exists>a b. toLowerCase (thrown_prop e err_message) = a @ ''operation not allowed'' @ b)) \<and>
   (isInferenceProfileArn m \<longleftrightarrow>
      (\<exists>rest. m = ''arn:aws:bedrock:'' @ rest) \<and> (\<exists>a b. m = a @ '':inference-profile/'' @ b))"
  using nova_arn[of opts P B E] nova_ok[of opts B E _ P] nova_retry[of opts B E _ P]
    nova_propagate[of opts B E _ P] nova_retry_iff[of P B E opts]
    operation_not_allowed_iff[of e] isInferenceProfileArn_iff[of m]
  by blast

lemma ref_platform_fields:
  "JSON_parse ref_platform = json_parse"
  "JSON_stringify ref_platform = json_stringify"
  "JSON_stringify_result ref_platform = json_stringify_result"
  "String_of ref_platform = string_of"
  "undefined_toLowerCase ref_platform = type_error"
  by (simp_all add: ref_platform_def)

lemma eval_arn: "isInferenceProfileArn (modelId (options0 profile_arn))"
  by code_simp

lemma eval_not_arn: "\<not> isInferenceProfileArn (modelId (options0 ''amazon.nova-lite-v1:0''))"
  by code_simp

lemma eval_fallback:
  "invokeModelFallback ref_platform (backend_of c (Inr body_outputText)) r opts = Inr ''from the single call''"
  unfolding invokeModelFallback_def backend_of_def body_outputText_def ref_platform_def
  apply (simp only: backend.simps platform.simps sum.case)
  apply code_simp
  done


lemma eval_attempt_ok:
  "converse_attempt (backend_of (Inr (Some [TextBlock ''structured '', OtherBlock, TextBlock ''answer''])) i) r opts
     = Inr ''structured answer''"
  by (simp add: converse_attempt_def backend_of_def block_text_def)

lemma eval_attempt_fail: "converse_attempt (backend_of (Inl err) i) r opts = Inl err"
  by (simp add: converse_attempt_def backend_of_def)

lemma eval_not_allowed:
  "operation_not_allowed (service_error ''ValidationException'' ''Operation not allowed for this model'')"
  by code_simp

lemma eval_throttled:
  "\<not> operation_not_allowed (service_error ''ThrottlingException'' ''Too many requests'')"
  by code_simp

lemma eval_other_validation:
  "\<not> operation_not_allowed (service_error ''ValidationException'' ''Malformed input request'')"
  by code_simp

theorem protocol_selection_witness:
  "novaConverseText ref_platform
     (backend_of (Inr (Some [TextBlock ''unused''])) (Inr body_outputText)) env0 (options0 profile_arn)
     = (Inr ''from the single call'', [SingleCall]) \<and>
   novaConverseText ref_platform
     (backend_of (Inr (Some [TextBlock ''structured '', OtherBlock, TextBlock ''answer'']))
        (Inr body_outputText)) env0 (options0 ''amazon.nova-lite-v1:0'')
     = (Inr ''structured answer'', [Structured]) \<and>
   novaConverseText ref_platform
     (backend_of (Inl (service_error ''ValidationException'' ''Operation not allowed for this model''))
        (Inr body_outputText)) env0 (options0 ''amazon.nova-lite-v1:0'')
     = (Inr ''from the single call'', [Structured, SingleCall]) \<and>
   novaConverseText ref_platform
     (backend_of (Inl (service_error ''ThrottlingException'' ''Too many requests''))
        (Inr body_outputText)) env0 (options0 ''amazon.nova-lite-v1:0'')
     = (Inl (service_error ''ThrottlingException'' ''Too many requests''), [Structured]) \<and>
   novaConverseText ref_platform
     (backend_of (Inl (service_error ''ValidationException'' ''Malformed input request''))
        (Inr body_outputText)) env0 (options0 ''amazon.nova-lite-v1:0'')
     = (Inl (service_error ''ValidationException'' ''Malformed input request''), [Structured])"
proof -
  let ?ok = "Inr body_outputText"
  have 1: "novaConverseText ref_platform
     (backend_of (Inr (Some [TextBlock ''unused''])) ?ok) env0 (options0 profile_arn)
     = (Inr ''from the single call'', [SingleCall])"
    using protocol_selection[of "options0 profile_arn" ref_platform
      "backend_of (Inr (Some [TextBlock ''unused''])) ?ok" env0]
    by (simp add: eval_arn eval_fallback)
  have 2: "novaConverseText ref_platform
     (backend_of (Inr (Some [TextBlock ''structured '', OtherBlock, TextBlock ''answer''])) ?ok)
       env0 (options0 ''amazon.nova-lite-v1:0'')
     = (Inr ''structured answer'', [Structured])"
    using protocol_selection[of "options0 ''amazon.nova-lite-v1:0''" ref_platform
      "backend_of (Inr (Some [TextBlock ''structured '', OtherBlock, TextBlock ''answer''])) ?ok" env0]
    by (simp add: eval_not_arn eval_attempt_ok)
  have 3: "novaConverseText ref_platform
     (backend_of (Inl (service_error ''ValidationException'' ''Operation not allowed for this model'')) ?ok)
       env0 (options0 ''amazon.nova-lite-v1:0'')
     = (Inr ''from the single call'', [Structured, SingleCall])"
    using protocol_selection[of "options0 ''amazon.nova-lite-v1:0''" ref_platform
      "backend_of (Inl (service_error ''ValidationException'' ''Operation not allowed for this model'')) ?ok" env0]
    by (simp add: eval_not_arn eval_attempt_fail eval_not_allowed eval_fallback)
  have 4: "novaConverseText ref_platform
     (backend_of (Inl (service_error ''ThrottlingException'' ''Too many requests'')) ?ok)
       env0 (options0 ''amazon.nova-lite-v1:0'')
     = (Inl (service_error ''ThrottlingException'' ''Too many requests''), [Structured])"
    using protocol_selection[of "options0 ''amazon.nova-lite-v1:0''" ref_platform
      "backend_of (Inl (service_error ''ThrottlingException'' ''Too many requests'')) ?ok" env0]
    by (simp add: eval_not_arn eval_attempt_fail eval_throttled)
  have 5: "novaConverseText ref_platform
     (backend_of (Inl (service_error ''ValidationException'' ''Malformed input request'')) ?ok)
       env0 (options0 ''amazon.nova-lite-v1:0'')
     = (Inl (service_error ''ValidationException'' ''Malformed input request''), [Structured])"
    using protocol_selection[of "options0 ''amazon.nova-lite-v1:0''" ref_platform
      "backend_of (Inl (service_error ''ValidationException'' ''Malformed input request'')) ?ok" env0]
    by (simp add: eval_not_arn eval_attempt_fail eval_other_validation)
  from 1 2 3 4 5 show ?thesis by (intro conjI)
qed


section \<open>Model invocation client: the text of a response\<close>



















section \<open>Orchestration loop: one turn\<close>

lemma new_Error_message: "det_message (toErrorDetails P (new_Error m)) = m"
  by (simp add: toErrorDetails_def new_Error_def)

lemma catch_response_fst:
  "fst (catch_response P E err st) =
     \<lparr>status = 500, final = None, error = Some (det_message (toErrorDetails P err)),
      details = Some (toErrorDetails P err),
      hint = Some (''If this is an AWS/Bedrock issue, verify AWS_REGION='' @
                   (case AWS_REGION E of None \<Rightarrow> ''(unset)'' | Some r \<Rightarrow> r) @
                   '', credentials, Bedrock model access, and NOVA_MODEL_ID.''),
      steps = Some (st_steps st @ [ErrorStep (det_message (toErrorDetails P err))])\<rparr>"
  by (simp add: catch_response_def Let_def)

lemma catch_response_snd:
  "snd (catch_response P E err st) =
     st\<lparr>st_steps := st_steps st @ [ErrorStep (det_message (toErrorDetails P err))]\<rparr>"
  by (simp add: catch_response_def Let_def)

lemma catch_response_not_budget: "fst (catch_response P E err st) \<noteq> budget_response xs"
  by (simp add: catch_response_fst budget_response_def)

lemma run_tool_ctx_on_throw: "run_tool P ctx tool input = (ctx', Inl err) \<Longrightarrow> ctx' = ctx"
  by (auto simp: run_tool_def retrieve_def makePlan_def writeDraft_def Let_def
      split: if_splits option.splits prod.splits sum.splits)


lemma tool_turn_cases:
  "(\<exists>err. tool_turn P E tool input st =
      Respond (fst (catch_response P E err st)) (snd (catch_response P E err st))) \<or>
   (\<exists>ctx' name out msg. tool_turn P E tool input st =
      Continue (st\<lparr>st_toolCtx := ctx', st_steps := st_steps st @ [ToolStep name input out],
                  st_messages := st_messages st @ [msg]\<rparr>))"
proof (cases "run_tool P (st_toolCtx st) tool input")
  case (Pair ctx' res)
  show ?thesis
  proof (cases res)
    case (Inl err)
    with Pair have "ctx' = st_toolCtx st" by (auto dest: run_tool_ctx_on_throw)
    with Pair Inl have "tool_turn P E tool input st =
      Respond (fst (catch_response P E err st)) (snd (catch_response P E err st))"
      by (simp add: tool_turn_def case_prod_beta)
    then show ?thesis by blast
  next
    case (Inr out)
    with Pair show ?thesis
      by (simp add: tool_turn_def Let_def) blast
  qed
qed

lemma decide_cases:
  "(\<exists>err. decide P E text st =
       Respond (fst (catch_response P E err
                 (st\<lparr>st_steps := st_steps st @ [ModelStep text],
                     st_messages := st_messages st @ [\<lparr>role = Assistant, content = text\<rparr>]\<rparr>)))
               (snd (catch_response P E err
                 (st\<lparr>st_steps := st_steps st @ [ModelStep text],
                     st_messages := st_messages st @ [\<lparr>role = Assistant, content = text\<rparr>]\<rparr>)))) \<or>
   (\<exists>out. decide P E text st =
       Respond \<lparr>status = 200, final = Some out, error = None, details = None, hint = None,
                steps = Some (st_steps st @ [ModelStep text])\<rparr>
               (st\<lparr>st_steps := st_steps st @ [ModelStep text],
                   st_messages := st_messages st @ [\<lparr>role = Assistant, content = text\<rparr>]\<rparr>)) \<or>
   (\<exists>ctx' name input out msg. decide P E text st =
       Continue (st\<lparr>st_toolCtx := ctx',
                    st_steps := st_steps st @ [ModelStep text, ToolStep name input out],
                    st_messages := st_messages st @ [\<lparr>role = Assistant, content = text\<rparr>, msg]\<rparr>))"
  (is "?failed \<or> ?final \<or> ?continue")
proof -
  let ?st1 = "st\<lparr>st_steps := st_steps st @ [ModelStep text],
                 st_messages := st_messages st @ [\<lparr>role = Assistant, content = text\<rparr>]\<rparr>"
  let ?parsed = "safeJsonParse P text"
  let ?action = "get_prop (Some ?parsed) ''action''"
  let ?tool = "get_prop (Some ?parsed) ''tool''"
  let ?input = "get_prop (Some ?parsed) ''input''"
  have tool: "?failed \<or> ?continue" if d: "decide P E text st = tool_turn P E t i ?st1" for t i
  proof -
    from tool_turn_cases[of P E t i ?st1]
    consider (thrown) err where "tool_turn P E t i ?st1 =
          Respond (fst (catch_response P E err ?st1)) (snd (catch_response P E err ?st1))"
      | (result) ctx' name out msg where "tool_turn P E t i ?st1 =
          Continue (?st1\<lparr>st_toolCtx := ctx', st_steps := st_steps ?st1 @ [ToolStep name i out],
                        st_messages := st_messages ?st1 @ [msg]\<rparr>)"
      by blast
    then show ?thesis
    proof cases
      case thrown
      with d have ?failed by auto
      then show ?thesis ..
    next
      case result
      with d have "decide P E text st =
          Continue (st\<lparr>st_toolCtx := ctx',
                       st_steps := st_steps st @ [ModelStep text, ToolStep name i out],
                       st_messages := st_messages st @ [\<lparr>role = Assistant, content = text\<rparr>, msg]\<rparr>)"
        by simp
      then have ?continue by blast
      then show ?thesis ..
    qed
  qed
  have failed: "decide P E text st =
      (case catch_response P E err ?st1 of (r, st') \<Rightarrow> Respond r st') \<Longrightarrow> ?failed" for err
    by (auto simp: case_prod_beta)
  consider (none) "\<not> has_action ?parsed"
    | (final) "has_action ?parsed" "?action = Some (JStr ''final'')"
    | (compact) "has_action ?parsed" "?action \<noteq> Some (JStr ''final'')" "isToolName ?action"
    | (unknown_tool) "has_action ?parsed" "?action \<noteq> Some (JStr ''final'')" "\<not> isToolName ?action"
        "?action = Some (JStr ''tool'')" "\<not> isToolName ?tool"
    | (canonical) "has_action ?parsed" "?action \<noteq> Some (JStr ''final'')" "\<not> isToolName ?action"
        "?action = Some (JStr ''tool'')" "isToolName ?tool"
    | (unknown_action) "has_action ?parsed" "?action \<noteq> Some (JStr ''final'')" "\<not> isToolName ?action"
        "?action \<noteq> Some (JStr ''tool'')"
    by blast
  then show ?thesis
  proof cases
    case none
    then show ?thesis by (intro disjI1 failed) (simp add: decide_def Let_def)
  next
    case final
    show ?thesis
    proof (cases "final_output P (get_prop (Some ?parsed) ''output'')")
      case (Inl err)
      with final show ?thesis by (intro disjI1 failed[of err]) (simp add: decide_def Let_def)
    next
      case (Inr out)
      with final have "?final" by (simp add: decide_def Let_def)
      then show ?thesis by blast
    qed
  next
    case compact
    then have "decide P E text st = tool_turn P E ?action ?input ?st1"
      by (simp add: decide_def Let_def)
    then show ?thesis using tool by blast
  next
    case unknown_tool
    then show ?thesis by (intro disjI1 failed) (simp add: decide_def Let_def)
  next
    case canonical
    then have "decide P E text st = tool_turn P E ?tool ?input ?st1"
      by (simp add: decide_def Let_def)
    then show ?thesis using tool by blast
  next
    case unknown_action
    then show ?thesis by (intro disjI1 failed) (simp add: decide_def Let_def)
  qed
qed

section \<open>Orchestration loop: the run\<close>

declare agent_loop.simps [simp del]

lemma loop_exit:
  "\<not> turn < maxTurns \<Longrightarrow> agent_loop P B E mid turn st = (budget_response (st_steps st), st)"
  by (subst agent_loop.simps) (simp add: budget_response_def budget_message_def)

lemma loop_thrown:
  "turn < maxTurns \<Longrightarrow> fst (novaConverseText P B E (turn_options mid st)) = Inl err \<Longrightarrow>
   agent_loop P B E mid turn st = catch_response P E err (st\<lparr>st_calls := st_calls st + 1\<rparr>)"
  by (subst agent_loop.simps) simp

lemma loop_respond:
  "turn < maxTurns \<Longrightarrow> fst (novaConverseText P B E (turn_options mid st)) = Inr text \<Longrightarrow>
   decide P E text (st\<lparr>st_calls := st_calls st + 1\<rparr>) = Respond r st' \<Longrightarrow>
   agent_loop P B E mid turn st = (r, st')"
  by (subst agent_loop.simps) simp

lemma loop_continue:
  "turn < maxTurns \<Longrightarrow> fst (novaConverseText P B E (turn_options mid st)) = Inr text \<Longrightarrow>
   decide P E text (st\<lparr>st_calls := st_calls st + 1\<rparr>) = Continue st' \<Longrightarrow>
   agent_loop P B E mid turn st = agent_loop P B E mid (turn + 1) st'"
  by (subst agent_loop.simps) simp

lemma model_steps_append [simp]: "model_steps (xs @ ys) = model_steps xs + model_steps ys"
  by (simp add: model_steps_def)

lemma model_steps_simps [simp]:
  "model_steps [] = 0"
  "model_steps (ModelStep t # xs) = Suc (model_steps xs)"
  "model_steps (ToolStep n i out # xs) = model_steps xs"
  "model_steps (ErrorStep m # xs) = model_steps xs"
  by (simp_all add: model_steps_def is_model_step_def)

lemma decide_respond:
  assumes "decide P E text st = Respond r st'"
  shows "steps r = Some (st_steps st') \<and> st_calls st' = st_calls st \<and>
         model_steps (st_steps st') = model_steps (st_steps st) + 1 \<and>
         (details r \<noteq> None \<or> status r = 200) \<and> r \<noteq> budget_response xs \<and>
         st_toolCtx st' = st_toolCtx st"
  using decide_cases[of P E "text" st] assms
  by (auto simp: catch_response_fst catch_response_snd budget_response_def)

lemma decide_continue:
  assumes "decide P E text st = Continue st'"
  shows "st_calls st' = st_calls st \<and>
         model_steps (st_steps st') = model_steps (st_steps st) + 1 \<and>
         length (st_steps st') = length (st_steps st) + 2 \<and>
         filter is_error_step (st_steps st') = filter is_error_step (st_steps st)"
  using decide_cases[of P E "text" st] assms
  by (auto simp: is_error_step_def)

lemma loop_invariant:
  "steps (fst (agent_loop P B E mid turn st)) = Some (st_steps (snd (agent_loop P B E mid turn st))) \<and>
   st_calls (snd (agent_loop P B E mid turn st)) \<le> st_calls st + (maxTurns - turn) \<and>
   model_steps (st_steps (snd (agent_loop P B E mid turn st))) + st_calls st
     \<le> model_steps (st_steps st) + st_calls (snd (agent_loop P B E mid turn st)) \<and>
   (fst (agent_loop P B E mid turn st) = budget_response (st_steps (snd (agent_loop P B E mid turn st))) \<or>
    details (fst (agent_loop P B E mid turn st)) \<noteq> None \<or>
    status (fst (agent_loop P B E mid turn st)) = 200)"
proof (induction P B E mid turn st rule: agent_loop.induct)
  case (1 P B E mid turn st)
  let ?st = "st\<lparr>st_calls := st_calls st + 1\<rparr>"
  show ?case
  proof (cases "turn < maxTurns")
    case False
    then show ?thesis by (simp add: loop_exit budget_response_def)
  next
    case True
    show ?thesis
    proof (cases "fst (novaConverseText P B E (turn_options mid st))")
      case (Inl err)
      with True show ?thesis
        by (simp add: loop_thrown catch_response_fst catch_response_snd)
    next
      case (Inr mtext)
      show ?thesis
      proof (cases "decide P E mtext ?st")
        case (Respond r st')
        with True Inr have "agent_loop P B E mid turn st = (r, st')" by (simp add: loop_respond)
        with decide_respond[OF Respond] True show ?thesis by auto
      next
        case (Continue st')
        with True Inr have eq: "agent_loop P B E mid turn st = agent_loop P B E mid (turn + 1) st'"
          by (simp add: loop_continue)
        from "1.IH"[OF True Inr Continue] decide_continue[OF Continue] True
        show ?thesis unfolding eq by auto
      qed
    qed
  qed
qed

lemma after_turns_budget:
  "after_turns P B E mid k st = Some st' \<Longrightarrow> turn + k = maxTurns \<Longrightarrow>
   agent_loop P B E mid turn st = (budget_response (st_steps st'), st')"
proof (induction k arbitrary: turn st)
  case 0
  then show ?case by (simp add: loop_exit)
next
  case (Suc k)
  from Suc.prems(2) have lt: "turn < maxTurns" by simp
  from Suc.prems(1) obtain mtext st1 where
    t: "fst (novaConverseText P B E (turn_options mid st)) = Inr mtext" and
    d: "decide P E mtext (st\<lparr>st_calls := st_calls st + 1\<rparr>) = Continue st1" and
    a: "after_turns P B E mid k st1 = Some st'"
    by (auto split: sum.splits turn_result.splits)
  from Suc.prems(2) have "(turn + 1) + k = maxTurns" by simp
  from Suc.IH[OF a this] loop_continue[OF lt t d] show ?case by simp
qed

lemma budget_after_turns:
  "fst (agent_loop P B E mid turn st) = budget_response xs \<Longrightarrow>
   after_turns P B E mid (maxTurns - turn) st = Some (snd (agent_loop P B E mid turn st))"
proof (induction P B E mid turn st rule: agent_loop.induct)
  case (1 P B E mid turn st)
  let ?st = "st\<lparr>st_calls := st_calls st + 1\<rparr>"
  show ?case
  proof (cases "turn < maxTurns")
    case False
    then show ?thesis by (simp add: loop_exit)
  next
    case True
    then have k: "maxTurns - turn = Suc (maxTurns - (turn + 1))" by simp
    show ?thesis
    proof (cases "fst (novaConverseText P B E (turn_options mid st))")
      case (Inl err)
      with True "1.prems" show ?thesis
        by (simp add: loop_thrown catch_response_not_budget)
    next
      case (Inr mtext)
      show ?thesis
      proof (cases "decide P E mtext ?st")
        case (Respond r st')
        with True Inr have "agent_loop P B E mid turn st = (r, st')" by (simp add: loop_respond)
        with decide_respond[OF Respond, of xs] "1.prems" show ?thesis by simp
      next
        case (Continue st')
        with True Inr have eq: "agent_loop P B E mid turn st = agent_loop P B E mid (turn + 1) st'"
          by (simp add: loop_continue)
        from "1.IH"[OF True Inr Continue] "1.prems" Inr Continue
        show ?thesis unfolding eq k by simp
      qed
    qed
  qed
qed

lemma after_turns_counts:
  "after_turns P B E mid k st = Some st' \<Longrightarrow>
   st_calls st' = st_calls st + k \<and>
   model_steps (st_steps st') = model_steps (st_steps st) + k \<and>
   length (st_steps st') = length (st_steps st) + 2 * k \<and>
   filter is_error_step (st_steps st') = filter is_error_step (st_steps st)"
proof (induction k arbitrary: st)
  case 0
  then show ?case by simp
next
  case (Suc k)
  from Suc.prems obtain mtext st1 where
    d: "decide P E mtext (st\<lparr>st_calls := st_calls st + 1\<rparr>) = Continue st1" and
    a: "after_turns P B E mid k st1 = Some st'"
    by (auto split: sum.splits turn_result.splits)
  from Suc.IH[OF a] decide_continue[OF d] show ?case by simp
qed


section \<open>Orchestration loop: failures of a turn\<close>

lemma toErrorDetails_new_Error:
  "toErrorDetails P (new_Error msg) =
     \<lparr>det_name = Some ''Error'', det_message = msg, det_code = None, det_fault = None,
      det_metadata = None\<rparr>"
  by (simp add: toErrorDetails_def new_Error_def string_or_undefined_def is_object_def)

lemma catch_new_Error:
  "catch_response P E (new_Error msg)
     (st\<lparr>st_calls := st_calls st + 1, st_steps := st_steps st @ [ModelStep mtext],
         st_messages := st_messages st @ [\<lparr>role = Assistant, content = mtext\<rparr>]\<rparr>) =
   (failure_response E msg (st_steps st @ [ModelStep mtext, ErrorStep msg]),
    after_model_step mtext msg st)"
  by (simp add: catch_response_def toErrorDetails_new_Error failure_response_def hint_text_def
      after_model_step_def Let_def)

lemma loop_parse_failure:
  assumes "turn < maxTurns" "fst (novaConverseText P B E (turn_options mid st)) = Inr mtext"
    "\<not> has_action (safeJsonParse P mtext)"
  shows "agent_loop P B E mid turn st =
     (failure_response E parse_failure_message
        (st_steps st @ [ModelStep mtext, ErrorStep parse_failure_message]),
      after_model_step mtext parse_failure_message st)"
proof -
  have "decide P E mtext (st\<lparr>st_calls := st_calls st + 1\<rparr>) =
          Respond (failure_response E parse_failure_message
                     (st_steps st @ [ModelStep mtext, ErrorStep parse_failure_message]))
                  (after_model_step mtext parse_failure_message st)"
    using assms(3) catch_new_Error[of P E parse_failure_message st mtext]
    by (simp add: decide_def Let_def parse_failure_message_def)
  with assms(1,2) show ?thesis by (rule loop_respond)
qed

lemma catch_turn_failure:
  "catch_response P E err
     (st\<lparr>st_calls := st_calls st + 1, st_steps := st_steps st @ [ModelStep mtext],
         st_messages := st_messages st @ [\<lparr>role = Assistant, content = mtext\<rparr>]\<rparr>) =
   (turn_failure P E err (st_steps st @ [ModelStep mtext]),
    after_model_step mtext (det_message (toErrorDetails P err)) st)"
  by (simp add: catch_response_def turn_failure_def hint_text_def after_model_step_def Let_def)

lemma decide_unknown_tool:
  assumes "get_prop (Some (safeJsonParse P mtext)) ''action'' = Some (JStr ''tool'')"
    "\<not> isToolName (get_prop (Some (safeJsonParse P mtext)) ''tool'')"
  shows "decide P E mtext (st\<lparr>st_calls := st_calls st + 1\<rparr>) =
     (case catch_response P E
             (case String P (get_prop (Some (safeJsonParse P mtext)) ''tool'') of
                Inl err \<Rightarrow> err
              | Inr name \<Rightarrow> new_Error (unknown_tool_message name))
             (st\<lparr>st_calls := st_calls st + 1, st_steps := st_steps st @ [ModelStep mtext],
                 st_messages := st_messages st @ [\<lparr>role = Assistant, content = mtext\<rparr>]\<rparr>) of
        (r, st') \<Rightarrow> Respond r st')"
proof -
  from assms(1) have act: "has_action (safeJsonParse P mtext)"
    by (auto simp: has_action_def get_prop_def split: jsvalue.splits)
  have "\<not> isToolName (Some (JStr ''tool''))" by (simp add: isToolName_def)
  with assms act show ?thesis
    unfolding unknown_tool_message_def by (simp add: decide_def Let_def)
qed

lemma decide_unknown_action:
  assumes "has_action (safeJsonParse P mtext)"
    "get_prop (Some (safeJsonParse P mtext)) ''action'' \<noteq> Some (JStr ''final'')"
    "get_prop (Some (safeJsonParse P mtext)) ''action'' \<noteq> Some (JStr ''tool'')"
    "\<not> isToolName (get_prop (Some (safeJsonParse P mtext)) ''action'')"
  shows "decide P E mtext (st\<lparr>st_calls := st_calls st + 1\<rparr>) =
     (case catch_response P E
             (case String P (get_prop (Some (safeJsonParse P mtext)) ''action'') of
                Inl err \<Rightarrow> err
              | Inr name \<Rightarrow> new_Error (unknown_action_message name))
             (st\<lparr>st_calls := st_calls st + 1, st_steps := st_steps st @ [ModelStep mtext],
                 st_messages := st_messages st @ [\<lparr>role = Assistant, content = mtext\<rparr>]\<rparr>) of
        (r, st') \<Rightarrow> Respond r st')"
  using assms unfolding unknown_action_message_def by (simp add: decide_def Let_def)

lemma loop_unknown_tool:
  assumes "turn < maxTurns" "fst (novaConverseText P B E (turn_options mid st)) = Inr mtext"
    "get_prop (Some (safeJsonParse P mtext)) ''action'' = Some (JStr ''tool'')"
    "\<not> isToolName (get_prop (Some (safeJsonParse P mtext)) ''tool'')"
    "String P (get_prop (Some (safeJsonParse P mtext)) ''tool'') = Inr name"
  shows "agent_loop P B E mid turn st =
     (failure_response E (unknown_tool_message name)
        (st_steps st @ [ModelStep mtext, ErrorStep (unknown_tool_message name)]),
      after_model_step mtext (unknown_tool_message name) st)"
proof -
  have "decide P E mtext (st\<lparr>st_calls := st_calls st + 1\<rparr>) =
          Respond (failure_response E (unknown_tool_message name)
                     (st_steps st @ [ModelStep mtext, ErrorStep (unknown_tool_message name)]))
                  (after_model_step mtext (unknown_tool_message name) st)"
    unfolding decide_unknown_tool[OF assms(3,4)] assms(5)
    by (simp only: sum.case catch_new_Error prod.case)
  with assms(1,2) show ?thesis by (rule loop_respond)
qed

lemma loop_unknown_tool_thrown:
  assumes "turn < maxTurns" "fst (novaConverseText P B E (turn_options mid st)) = Inr mtext"
    "get_prop (Some (safeJsonParse P mtext)) ''action'' = Some (JStr ''tool'')"
    "\<not> isToolName (get_prop (Some (safeJsonParse P mtext)) ''tool'')"
    "String P (get_prop (Some (safeJsonParse P mtext)) ''tool'') = Inl err"
  shows "agent_loop P B E mid turn st =
     (turn_failure P E err (st_steps st @ [ModelStep mtext]),
      after_model_step mtext (det_message (toErrorDetails P err)) st)"
proof -
  have "decide P E mtext (st\<lparr>st_calls := st_calls st + 1\<rparr>) =
          Respond (turn_failure P E err (st_steps st @ [ModelStep mtext]))
                  (after_model_step mtext (det_message (toErrorDetails P err)) st)"
    unfolding decide_unknown_tool[OF assms(3,4)] assms(5)
    by (simp only: sum.case catch_turn_failure prod.case)
  with assms(1,2) show ?thesis by (rule loop_respond)
qed

lemma loop_unknown_action:
  assumes "turn < maxTurns" "fst (novaConverseText P B E (turn_options mid st)) = Inr mtext"
    "has_action (safeJsonParse P mtext)"
    "get_prop (Some (safeJsonParse P mtext)) ''action'' \<noteq> Some (JStr ''final'')"
    "get_prop (Some (safeJsonParse P mtext)) ''action'' \<noteq> Some (JStr ''tool'')"
    "\<not> isToolName (get_prop (Some (safeJsonParse P mtext)) ''action'')"
    "String P (get_prop (Some (safeJsonParse P mtext)) ''action'') = Inr name"
  shows "agent_loop P B E mid turn st =
     (failure_response E (unknown_action_message name)
        (st_steps st @ [ModelStep mtext, ErrorStep (unknown_action_message name)]),
      after_model_step mtext (unknown_action_message name) st)"
proof -
  have "decide P E mtext (st\<lparr>st_calls := st_calls st + 1\<rparr>) =
          Respond (failure_response E (unknown_action_message name)
                     (st_steps st @ [ModelStep mtext, ErrorStep (unknown_action_message name)]))
                  (after_model_step mtext (unknown_action_message name) st)"
    unfolding decide_unknown_action[OF assms(3-6)] assms(7)
    by (simp only: sum.case catch_new_Error prod.case)
  with assms(1,2) show ?thesis by (rule loop_respond)
qed

lemma loop_unknown_action_thrown:
  assumes "turn < maxTurns" "fst (novaConverseText P B E (turn_options mid st)) = Inr mtext"
    "has_action (safeJsonParse P mtext)"
    "get_prop (Some (safeJsonParse P mtext)) ''action'' \<noteq> Some (JStr ''final'')"
    "get_prop (Some (safeJsonParse P mtext)) ''action'' \<noteq> Some (JStr ''tool'')"
    "\<not> isToolName (get_prop (Some (safeJsonParse P mtext)) ''action'')"
    "String P (get_prop (Some (safeJsonParse P mtext)) ''action'') = Inl err"
  shows "agent_loop P B E mid turn st =
     (turn_failure P E err (st_steps st @ [ModelStep mtext]),
      after_model_step mtext (det_message (toErrorDetails P err)) st)"
proof -
  have "decide P E mtext (st\<lparr>st_calls := st_calls st + 1\<rparr>) =
          Respond (turn_failure P E err (st_steps st @ [ModelStep mtext]))
                  (after_model_step mtext (det_message (toErrorDetails P err)) st)"
    unfolding decide_unknown_action[OF assms(3-6)] assms(7)
    by (simp only: sum.case catch_turn_failure prod.case)
  with assms(1,2) show ?thesis by (rule loop_respond)
qed

lemma loop_final_thrown:
  assumes "turn < maxTurns" "fst (novaConverseText P B E (turn_options mid st)) = Inr mtext"
    "get_prop (Some (safeJsonParse P mtext)) ''action'' = Some (JStr ''final'')"
    "final_output P (get_prop (Some (safeJsonParse P mtext)) ''output'') = Inl err"
  shows "agent_loop P B E mid turn st =
     (turn_failure P E err (st_steps st @ [ModelStep mtext]),
      after_model_step mtext (det_message (toErrorDetails P err)) st)"
proof -
  from assms(3) have act: "has_action (safeJsonParse P mtext)"
    by (auto simp: has_action_def get_prop_def split: jsvalue.splits)
  have "decide P E mtext (st\<lparr>st_calls := st_calls st + 1\<rparr>) =
     (case catch_response P E err
             (st\<lparr>st_calls := st_calls st + 1, st_steps := st_steps st @ [ModelStep mtext],
                 st_messages := st_messages st @ [\<lparr>role = Assistant, content = mtext\<rparr>]\<rparr>) of
        (r, st') \<Rightarrow> Respond r st')"
    using assms(3,4) act by (simp add: decide_def Let_def)
  then have "decide P E mtext (st\<lparr>st_calls := st_calls st + 1\<rparr>) =
          Respond (turn_failure P E err (st_steps st @ [ModelStep mtext]))
                  (after_model_step mtext (det_message (toErrorDetails P err)) st)"
    by (simp only: catch_turn_failure prod.case)
  with assms(1,2) show ?thesis by (rule loop_respond)
qed

lemma String_fixed:
  "String P None = Inr ''undefined''"
  "String P (Some JNull) = Inr ''null''"
  "String P (Some (JStr s)) = Inr s"
  by (simp_all add: String_def)

lemma has_action_iff: "has_action v \<longleftrightarrow> (\<exists>kvs x. v = JObj kvs \<and> map_of kvs ''action'' = Some x)"
  by (cases v) (auto simp: has_action_def)

lemma safeJsonParse_cases:
  "(JSON_parse P (extractJsonObject mtext) = Inl err \<longrightarrow> safeJsonParse P mtext = JNull) \<and>
   (JSON_parse P (extractJsonObject mtext) = Inr v \<longrightarrow> safeJsonParse P mtext = v)"
  by (simp add: safeJsonParse_def)

lemma nova_backend_says:
  "answer \<noteq> [] \<Longrightarrow>
   fst (novaConverseText P (backend_says answer) env0 (turn_options ''amazon.nova-lite-v1:0'' st))
     = Inr answer"
proof -
  have "\<not> isInferenceProfileArn ''amazon.nova-lite-v1:0''" by code_simp
  then show "answer \<noteq> [] \<Longrightarrow> ?thesis"
    by (simp add: novaConverseText_def turn_options_def backend_says_def backend_of_def
        converse_attempt_def block_text_def Let_def)
qed

text \<open>
  C4, as the specification states it, fails: when the extracted text parses to a value
  that is not an object carrying an \<open>action\<close> field, the parse step returns that value,
  not an absence value. The answer \<open>42\<close> parses to the number 42, and the answer
  \<open>{"answer":"hi"}\<close> to an object without \<open>action\<close>.
\<close>

theorem absence_counterexample:
  "\<not> has_action (safeJsonParse ref_platform ''42'') \<and>
   safeJsonParse ref_platform ''42'' = JNum ''42'' \<and>
   safeJsonParse ref_platform ''42'' \<noteq> JNull \<and>
   \<not> has_action (safeJsonParse ref_platform no_action_reply) \<and>
   safeJsonParse ref_platform no_action_reply = JObj [(''answer'', JStr ''hi'')] \<and>
   safeJsonParse ref_platform no_action_reply \<noteq> JNull"
proof -
  have a: "safeJsonParse ref_platform ''42'' = JNum ''42''" by code_simp
  have b: "safeJsonParse ref_platform no_action_reply = JObj [(''answer'', JStr ''hi'')]"
    unfolding no_action_reply_def by code_simp
  show ?thesis unfolding a b by (simp add: has_action_def)
qed

text \<open>
  C4, amended. The parse step never throws: it returns \<open>null\<close> when the extracted text
  fails to parse, and the parsed value otherwise. Whenever that result is not an object
  carrying an \<open>action\<close> field (\<open>null\<close> is not), the run fails with the decision-parse
  error, and the transcript is the transcript so far followed by exactly one Model step
  for that turn and exactly one Error step; no further call of the model is made.
\<close>

theorem decision_parse_failure:
  "(JSON_parse P (extractJsonObject mtext) = Inl err \<longrightarrow>
      safeJsonParse P mtext = JNull \<and> \<not> has_action (safeJsonParse P mtext)) \<and>
   (JSON_parse P (extractJsonObject mtext) = Inr v \<longrightarrow> safeJsonParse P mtext = v) \<and>
   (has_action v \<longleftrightarrow> (\<exists>kvs x. v = JObj kvs \<and> map_of kvs ''action'' = Some x)) \<and>
   (turn < maxTurns \<and> fst (novaConverseText P B E (turn_options mid st)) = Inr mtext \<and>
    \<not> has_action (safeJsonParse P mtext) \<longrightarrow>
      agent_loop P B E mid turn st =
        (failure_response E parse_failure_message
           (st_steps st @ [ModelStep mtext, ErrorStep parse_failure_message]),
         after_model_step mtext parse_failure_message st))"
  using safeJsonParse_cases[of P mtext err v] has_action_iff[of v]
    loop_parse_failure[of turn P B E mid st mtext]
  by (auto simp: has_action_def)

theorem decision_parse_failure_witness:
  "safeJsonParse ref_platform ''no json here'' = JNull \<and>
   agent_loop ref_platform (backend_says ''no json here'') env0 ''amazon.nova-lite-v1:0'' 1 state0 =
     (failure_response env0 parse_failure_message
        [ModelStep ''earlier'', ModelStep ''no json here'', ErrorStep parse_failure_message],
      after_model_step ''no json here'' parse_failure_message state0) \<and>
   safeJsonParse ref_platform ''42'' = JNum ''42'' \<and>
   agent_loop ref_platform (backend_says ''42'') env0 ''amazon.nova-lite-v1:0'' 1 state0 =
     (failure_response env0 parse_failure_message
        [ModelStep ''earlier'', ModelStep ''42'', ErrorStep parse_failure_message],
      after_model_step ''42'' parse_failure_message state0)"
proof -
  have turn: "(1::nat) < maxTurns" by (simp add: maxTurns_def)
  have p1: "JSON_parse ref_platform (extractJsonObject ''no json here'') = Inl syntax_error"
    unfolding ref_platform_fields by code_simp
  have p2: "JSON_parse ref_platform (extractJsonObject ''42'') = Inr (JNum ''42'')"
    unfolding ref_platform_fields by code_simp
  have n2: "\<not> has_action (JNum ''42'')" by (simp add: has_action_def)
  have s0: "st_steps state0 = [ModelStep ''earlier'']" by (simp add: state0_def)
  note w1 = decision_parse_failure[of ref_platform "''no json here''" syntax_error "JNull" 1
      "backend_says ''no json here''" env0 "''amazon.nova-lite-v1:0''" state0]
  note w2 = decision_parse_failure[of ref_platform "''42''" syntax_error "JNum ''42''" 1
      "backend_says ''42''" env0 "''amazon.nova-lite-v1:0''" state0]
  from w1 p1 have a1: "safeJsonParse ref_platform ''no json here'' = JNull"
    and b1: "\<not> has_action (safeJsonParse ref_platform ''no json here'')" by simp_all
  from w2 p2 have a2: "safeJsonParse ref_platform ''42'' = JNum ''42''" by simp
  from w1 turn b1 have c1:
    "agent_loop ref_platform (backend_says ''no json here'') env0 ''amazon.nova-lite-v1:0'' 1 state0 =
     (failure_response env0 parse_failure_message
        [ModelStep ''earlier'', ModelStep ''no json here'', ErrorStep parse_failure_message],
      after_model_step ''no json here'' parse_failure_message state0)"
    by (simp add: nova_backend_says s0)
  from w2 turn a2 n2 have c2:
    "agent_loop ref_platform (backend_says ''42'') env0 ''amazon.nova-lite-v1:0'' 1 state0 =
     (failure_response env0 parse_failure_message
        [ModelStep ''earlier'', ModelStep ''42'', ErrorStep parse_failure_message],
      after_model_step ''42'' parse_failure_message state0)"
    by (simp add: nova_backend_says s0)
  from a1 c1 a2 c2 show ?thesis by (intro conjI)
qed

lemma loop_ctx_after_model_step:
  "st_toolCtx (after_model_step mtext msg st) = st_toolCtx st \<and>
   st_calls (after_model_step mtext msg st) = st_calls st + 1"
  by (simp add: after_model_step_def)

lemma eval_unknown_replies:
  "safeJsonParse ref_platform unknown_canonical =
     JObj [(''action'', JStr ''tool''), (''tool'', JStr ''deleteAll''), (''input'', JNum ''1'')]"
  "safeJsonParse ref_platform unknown_compact =
     JObj [(''action'', JStr ''deleteAll''), (''input'', JNum ''1'')]"
  "safeJsonParse ref_platform unknown_no_text =
     JObj [(''action'', JStr ''tool''), (''tool'', JObj [(''toString'', JNum ''1'')])]"
  "safeJsonParse ref_platform action_no_text =
     JObj [(''action'', JObj [(''toString'', JNum ''1'')])]"
  unfolding unknown_canonical_def unknown_compact_def unknown_no_text_def action_no_text_def
  by code_simp+

lemma eval_no_text:
  "String ref_platform (Some (JObj [(''toString'', JNum ''1'')])) = Inl conversion_error"
  by (simp add: String_def ref_platform_fields string_of_def)

lemma conversion_error_message:
  "det_message (toErrorDetails P conversion_error) = ''Cannot convert object to primitive value''"
  by (simp add: toErrorDetails_def conversion_error_def)

lemma final_not_convertible:
  "agent_loop ref_platform (backend_says final_no_text) env0 ''amazon.nova-lite-v1:0'' 1 state0 =
     (turn_failure ref_platform env0 conversion_error [ModelStep ''earlier'', ModelStep final_no_text],
      after_model_step final_no_text ''Cannot convert object to primitive value'' state0)"
proof -
  have turn: "(1::nat) < maxTurns" by (simp add: maxTurns_def)
  have ne: "final_no_text \<noteq> []" by (simp add: final_no_text_def)
  have p: "safeJsonParse ref_platform final_no_text =
      JObj [(''action'', JStr ''final''), (''output'', JObj [(''toString'', JNum ''1'')])]"
    unfolding final_no_text_def by code_simp
  have "agent_loop ref_platform (backend_says final_no_text) env0 ''amazon.nova-lite-v1:0'' 1 state0 =
     (turn_failure ref_platform env0 conversion_error (st_steps state0 @ [ModelStep final_no_text]),
      after_model_step final_no_text (det_message (toErrorDetails ref_platform conversion_error))
        state0)"
    by (rule loop_final_thrown[OF turn nova_backend_says[OF ne]])
      (simp_all add: p get_prop_def final_output_def eval_no_text)
  then show ?thesis by (simp add: conversion_error_message state0_def)
qed

lemma unknown_compact_run:
  "agent_loop ref_platform (backend_says unknown_compact) env0 ''amazon.nova-lite-v1:0'' 1 state0 =
     (failure_response env0 ''Unknown model action: deleteAll''
        [ModelStep ''earlier'', ModelStep unknown_compact,
         ErrorStep ''Unknown model action: deleteAll''],
      after_model_step unknown_compact ''Unknown model action: deleteAll'' state0)"
proof -
  have turn: "(1::nat) < maxTurns" by (simp add: maxTurns_def)
  have ne: "unknown_compact \<noteq> []" by (simp add: unknown_compact_def)
  have s0: "st_steps state0 = [ModelStep ''earlier'']" by (simp add: state0_def)
  have "agent_loop ref_platform (backend_says unknown_compact) env0 ''amazon.nova-lite-v1:0'' 1 state0 =
     (failure_response env0 (unknown_action_message ''deleteAll'')
        (st_steps state0 @ [ModelStep unknown_compact,
           ErrorStep (unknown_action_message ''deleteAll'')]),
      after_model_step unknown_compact (unknown_action_message ''deleteAll'') state0)"
    by (rule loop_unknown_action[OF turn nova_backend_says[OF ne]])
      (simp_all add: eval_unknown_replies has_action_def get_prop_def isToolName_def String_fixed)
  then show ?thesis
    by (simp add: unknown_action_message_def s0)
qed

text \<open>
  C5, as the specification states it, fails for the compact form: a decision whose
  \<open>action\<close> is an unregistered name, as in \<open>{"action":"deleteAll","input":1}\<close>, does not end
  with the unknown-tool error (\<open>Unknown or missing tool: deleteAll\<close>) but with the error
  for an unknown action (\<open>Unknown model action: deleteAll\<close>).
\<close>

theorem unknown_tool_counterexample:
  "error (fst (agent_loop ref_platform (backend_says unknown_compact) env0
                 ''amazon.nova-lite-v1:0'' 1 state0))
     = Some ''Unknown model action: deleteAll'' \<and>
   unknown_tool_message ''deleteAll'' = ''Unknown or missing tool: deleteAll'' \<and>
   error (fst (agent_loop ref_platform (backend_says unknown_compact) env0
                 ''amazon.nova-lite-v1:0'' 1 state0))
     \<noteq> Some (unknown_tool_message ''deleteAll'') \<and>
   safeJsonParse ref_platform unknown_compact =
     JObj [(''action'', JStr ''deleteAll''), (''input'', JNum ''1'')]"
proof -
  have m: "unknown_tool_message ''deleteAll'' = ''Unknown or missing tool: deleteAll''"
    by (simp add: unknown_tool_message_def)
  have e: "error (fst (agent_loop ref_platform (backend_says unknown_compact) env0
                 ''amazon.nova-lite-v1:0'' 1 state0)) = Some ''Unknown model action: deleteAll''"
    unfolding unknown_compact_run by (simp add: failure_response_def)
  show ?thesis unfolding e m eval_unknown_replies by simp
qed

lemma unknown_tool_outcome:
  assumes "turn < maxTurns" "fst (novaConverseText P B E (turn_options mid st)) = Inr mtext"
    "get_prop (Some (safeJsonParse P mtext)) ''action'' = Some (JStr ''tool'')"
    "\<not> isToolName (get_prop (Some (safeJsonParse P mtext)) ''tool'')"
  shows "(String P (get_prop (Some (safeJsonParse P mtext)) ''tool'') = Inr name \<longrightarrow>
            agent_loop P B E mid turn st =
              (failure_response E (unknown_tool_message name)
                 (st_steps st @ [ModelStep mtext, ErrorStep (unknown_tool_message name)]),
               after_model_step mtext (unknown_tool_message name) st)) \<and>
         (String P (get_prop (Some (safeJsonParse P mtext)) ''tool'') = Inl err \<longrightarrow>
            agent_loop P B E mid turn st =
              (turn_failure P E err (st_steps st @ [ModelStep mtext]),
               after_model_step mtext (det_message (toErrorDetails P err)) st)) \<and>
         status (fst (agent_loop P B E mid turn st)) = 500 \<and>
         st_toolCtx (snd (agent_loop P B E mid turn st)) = st_toolCtx st \<and>
         st_calls (snd (agent_loop P B E mid turn st)) = st_calls st + 1"
proof (cases "String P (get_prop (Some (safeJsonParse P mtext)) ''tool'')")
  case (Inl e)
  from loop_unknown_tool_thrown[OF assms Inl] Inl show ?thesis
    by (simp add: loop_ctx_after_model_step turn_failure_def)
next
  case (Inr n)
  from loop_unknown_tool[OF assms Inr] Inr show ?thesis
    by (simp add: loop_ctx_after_model_step failure_response_def)
qed

lemma unknown_action_outcome:
  assumes "turn < maxTurns" "fst (novaConverseText P B E (turn_options mid st)) = Inr mtext"
    "has_action (safeJsonParse P mtext)"
    "get_prop (Some (safeJsonParse P mtext)) ''action'' \<noteq> Some (JStr ''final'')"
    "get_prop (Some (safeJsonParse P mtext)) ''action'' \<noteq> Some (JStr ''tool'')"
    "\<not> isToolName (get_prop (Some (safeJsonParse P mtext)) ''action'')"
  shows "(String P (get_prop (Some (safeJsonParse P mtext)) ''action'') = Inr name \<longrightarrow>
            agent_loop P B E mid turn st =
              (failure_response E (unknown_action_message name)
                 (st_steps st @ [ModelStep mtext, ErrorStep (unknown_action_message name)]),
               after_model_step mtext (unknown_action_message name) st)) \<and>
         (String P (get_prop (Some (safeJsonParse P mtext)) ''action'') = Inl err \<longrightarrow>
            agent_loop P B E mid turn st =
              (turn_failure P E err (st_steps st @ [ModelStep mtext]),
               after_model_step mtext (det_message (toErrorDetails P err)) st)) \<and>
         status (fst (agent_loop P B E mid turn st)) = 500 \<and>
         st_toolCtx (snd (agent_loop P B E mid turn st)) = st_toolCtx st \<and>
         st_calls (snd (agent_loop P B E mid turn st)) = st_calls st + 1"
proof (cases "String P (get_prop (Some (safeJsonParse P mtext)) ''action'')")
  case (Inl e)
  from loop_unknown_action_thrown[OF assms Inl] Inl show ?thesis
    by (simp add: loop_ctx_after_model_step turn_failure_def)
next
  case (Inr n)
  from loop_unknown_action[OF assms Inr] Inr show ?thesis
    by (simp add: loop_ctx_after_model_step failure_response_def)
qed

text \<open>
  C5, amended. A decision that names a tool outside \<open>makePlan\<close>, \<open>retrieve\<close>, \<open>writeDraft\<close> ends
  the run with status 500, the Tool Context is the one from before the turn, and the
  model is not called again. In the canonical form (\<open>action\<close> is \<open>tool\<close>, the name is in
  \<open>tool\<close>; a missing \<open>tool\<close> counts, as \<open>undefined\<close>) the error is the unknown-tool error,
  \<open>Unknown or missing tool:\<close> and the name; in the compact form (the name is in \<open>action\<close>,
  which is then neither \<open>final\<close> nor \<open>tool\<close>) it is the unknown-action error,
  \<open>Unknown model action:\<close> and the name. The name is the text \<open>String\<close> gives: a string is
  its own text. When \<open>String\<close> throws instead (the value in the place of the name is an
  object that cannot be converted), the error reported is the one it throws. In every
  case the transcript is the transcript so far, the Model step of the turn and one Error
  step.
\<close>

theorem unknown_tool_dispatch:
  "(turn < maxTurns \<and> fst (novaConverseText P B E (turn_options mid st)) = Inr mtext \<and>
    get_prop (Some (safeJsonParse P mtext)) ''action'' = Some (JStr ''tool'') \<and>
    \<not> isToolName (get_prop (Some (safeJsonParse P mtext)) ''tool'') \<longrightarrow>
      (String P (get_prop (Some (safeJsonParse P mtext)) ''tool'') = Inr name \<longrightarrow>
         agent_loop P B E mid turn st =
           (failure_response E (unknown_tool_message name)
              (st_steps st @ [ModelStep mtext, ErrorStep (unknown_tool_message name)]),
            after_model_step mtext (unknown_tool_message name) st)) \<and>
      (String P (get_prop (Some (safeJsonParse P mtext)) ''tool'') = Inl err \<longrightarrow>
         agent_loop P B E mid turn st =
           (turn_failure P E err (st_steps st @ [ModelStep mtext]),
            after_model_step mtext (det_message (toErrorDetails P err)) st)) \<and>
      status (fst (agent_loop P B E mid turn st)) = 500 \<and>
      st_toolCtx (snd (agent_loop P B E mid turn st)) = st_toolCtx st \<and>
      st_calls (snd (agent_loop P B E mid turn st)) = st_calls st + 1) \<and>
   (turn < maxTurns \<and> fst (novaConverseText P B E (turn_options mid st)) = Inr mtext \<and>
    has_action (safeJsonParse P mtext) \<and>
    get_prop (Some (safeJsonParse P mtext)) ''action'' \<noteq> Some (JStr ''final'') \<and>
    get_prop (Some (safeJsonParse P mtext)) ''action'' \<noteq> Some (JStr ''tool'') \<and>
    \<not> isToolName (get_prop (Some (safeJsonParse P mtext)) ''action'') \<longrightarrow>
      (String P (get_prop (Some (safeJsonParse P mtext)) ''action'') = Inr name \<longrightarrow>
         agent_loop P B E mid turn st =
           (failure_response E (unknown_action_message name)
              (st_steps st @ [ModelStep mtext, ErrorStep (unknown_action_message name)]),
            after_model_step mtext (unknown_action_message name) st)) \<and>
      (String P (get_prop (Some (safeJsonParse P mtext)) ''action'') = Inl err \<longrightarrow>
         agent_loop P B E mid turn st =
           (turn_failure P E err (st_steps st @ [ModelStep mtext]),
            after_model_step mtext (det_message (toErrorDetails P err)) st)) \<and>
      status (fst (agent_loop P B E mid turn st)) = 500 \<and>
      st_toolCtx (snd (agent_loop P B E mid turn st)) = st_toolCtx st \<and>
      st_calls (snd (agent_loop P B E mid turn st)) = st_calls st + 1) \<and>
   (isToolName x \<longleftrightarrow>
      x \<in> {Some (JStr ''makePlan''), Some (JStr ''retrieve''), Some (JStr ''writeDraft'')}) \<and>
   String P (Some (JStr s)) = Inr s \<and>
   String P None = Inr ''undefined'' \<and>
   unknown_tool_message s = ''Unknown or missing tool: '' @ s \<and>
   unknown_action_message s = ''Unknown model action: '' @ s"
proof -
  note a = unknown_tool_outcome[of turn P B E mid st mtext name err]
  note b = unknown_action_outcome[of turn P B E mid st mtext name err]
  have c: "isToolName x \<longleftrightarrow>
      x \<in> {Some (JStr ''makePlan''), Some (JStr ''retrieve''), Some (JStr ''writeDraft'')}"
    by (auto simp: isToolName_def)
  have d: "String P (Some (JStr s)) = Inr s" "String P None = Inr ''undefined''"
    by (simp_all add: String_def)
  have e: "unknown_tool_message s = ''Unknown or missing tool: '' @ s"
    "unknown_action_message s = ''Unknown model action: '' @ s"
    by (simp_all add: unknown_tool_message_def unknown_action_message_def)
  from a b c d e show ?thesis by blast
qed

theorem unknown_tool_dispatch_witness:
  "agent_loop ref_platform (backend_says unknown_canonical) env0 ''amazon.nova-lite-v1:0'' 1 state0 =
     (failure_response env0 ''Unknown or missing tool: deleteAll''
        [ModelStep ''earlier'', ModelStep unknown_canonical,
         ErrorStep ''Unknown or missing tool: deleteAll''],
      after_model_step unknown_canonical ''Unknown or missing tool: deleteAll'' state0) \<and>
   agent_loop ref_platform (backend_says unknown_compact) env0 ''amazon.nova-lite-v1:0'' 1 state0 =
     (failure_response env0 ''Unknown model action: deleteAll''
        [ModelStep ''earlier'', ModelStep unknown_compact,
         ErrorStep ''Unknown model action: deleteAll''],
      after_model_step unknown_compact ''Unknown model action: deleteAll'' state0) \<and>
   agent_loop ref_platform (backend_says unknown_no_text) env0 ''amazon.nova-lite-v1:0'' 1 state0 =
     (turn_failure ref_platform env0 conversion_error [ModelStep ''earlier'', ModelStep unknown_no_text],
      after_model_step unknown_no_text ''Cannot convert object to primitive value'' state0) \<and>
   agent_loop ref_platform (backend_says action_no_text) env0 ''amazon.nova-lite-v1:0'' 1 state0 =
     (turn_failure ref_platform env0 conversion_error [ModelStep ''earlier'', ModelStep action_no_text],
      after_model_step action_no_text ''Cannot convert object to primitive value'' state0) \<and>
   error (fst (agent_loop ref_platform (backend_says unknown_no_text) env0
                 ''amazon.nova-lite-v1:0'' 1 state0))
     = Some ''Cannot convert object to primitive value'' \<and>
   st_toolCtx (snd (agent_loop ref_platform (backend_says unknown_canonical) env0
                      ''amazon.nova-lite-v1:0'' 1 state0))
     = \<lparr>draft = Some ''a draft'', plan = [''step one'']\<rparr> \<and>
   st_toolCtx (snd (agent_loop ref_platform (backend_says unknown_compact) env0
                      ''amazon.nova-lite-v1:0'' 1 state0))
     = \<lparr>draft = Some ''a draft'', plan = [''step one'']\<rparr> \<and>
   st_toolCtx (snd (agent_loop ref_platform (backend_says unknown_no_text) env0
                      ''amazon.nova-lite-v1:0'' 1 state0))
     = \<lparr>draft = Some ''a draft'', plan = [''step one'']\<rparr> \<and>
   st_toolCtx (snd (agent_loop ref_platform (backend_says action_no_text) env0
                      ''amazon.nova-lite-v1:0'' 1 state0))
     = \<lparr>draft = Some ''a draft'', plan = [''step one'']\<rparr>"
proof -
  have turn: "(1::nat) < maxTurns" by (simp add: maxTurns_def)
  have ne: "unknown_canonical \<noteq> []" "unknown_compact \<noteq> []" "unknown_no_text \<noteq> []"
    "action_no_text \<noteq> []"
    by (simp_all add: unknown_canonical_def unknown_compact_def unknown_no_text_def
        action_no_text_def)
  have s0: "st_steps state0 = [ModelStep ''earlier'']"
    "st_toolCtx state0 = \<lparr>draft = Some ''a draft'', plan = [''step one'']\<rparr>"
    by (simp_all add: state0_def)
  note w1 = unknown_tool_dispatch[where turn = 1 and P = ref_platform
      and B = "backend_says unknown_canonical" and E = env0 and mid = "''amazon.nova-lite-v1:0''"
      and st = state0 and mtext = unknown_canonical and name = "''deleteAll''"
      and err = conversion_error]
  note w2 = unknown_tool_dispatch[where turn = 1 and P = ref_platform
      and B = "backend_says unknown_compact" and E = env0 and mid = "''amazon.nova-lite-v1:0''"
      and st = state0 and mtext = unknown_compact and name = "''deleteAll''"
      and err = conversion_error]
  note w3 = unknown_tool_dispatch[where turn = 1 and P = ref_platform
      and B = "backend_says unknown_no_text" and E = env0 and mid = "''amazon.nova-lite-v1:0''"
      and st = state0 and mtext = unknown_no_text and name = "''deleteAll''"
      and err = conversion_error]
  note w4 = unknown_tool_dispatch[where turn = 1 and P = ref_platform
      and B = "backend_says action_no_text" and E = env0 and mid = "''amazon.nova-lite-v1:0''"
      and st = state0 and mtext = action_no_text and name = "''deleteAll''"
      and err = conversion_error]
  from w1 turn have c1:
    "agent_loop ref_platform (backend_says unknown_canonical) env0 ''amazon.nova-lite-v1:0'' 1 state0 =
     (failure_response env0 ''Unknown or missing tool: deleteAll''
        [ModelStep ''earlier'', ModelStep unknown_canonical,
         ErrorStep ''Unknown or missing tool: deleteAll''],
      after_model_step unknown_canonical ''Unknown or missing tool: deleteAll'' state0)"
    and d1: "st_toolCtx (snd (agent_loop ref_platform (backend_says unknown_canonical) env0
                      ''amazon.nova-lite-v1:0'' 1 state0))
       = \<lparr>draft = Some ''a draft'', plan = [''step one'']\<rparr>"
    by (simp_all add: nova_backend_says ne eval_unknown_replies get_prop_def isToolName_def s0
        unknown_tool_message_def String_fixed loop_ctx_after_model_step)
  from w2 turn have c2:
    "agent_loop ref_platform (backend_says unknown_compact) env0 ''amazon.nova-lite-v1:0'' 1 state0 =
     (failure_response env0 ''Unknown model action: deleteAll''
        [ModelStep ''earlier'', ModelStep unknown_compact,
         ErrorStep ''Unknown model action: deleteAll''],
      after_model_step unknown_compact ''Unknown model action: deleteAll'' state0)"
    and d2: "st_toolCtx (snd (agent_loop ref_platform (backend_says unknown_compact) env0
                      ''amazon.nova-lite-v1:0'' 1 state0))
       = \<lparr>draft = Some ''a draft'', plan = [''step one'']\<rparr>"
    by (simp_all add: nova_backend_says ne eval_unknown_replies get_prop_def isToolName_def
        has_action_def s0 unknown_action_message_def String_fixed loop_ctx_after_model_step)
  from w3 turn have c3:
    "agent_loop ref_platform (backend_says unknown_no_text) env0 ''amazon.nova-lite-v1:0'' 1 state0 =
     (turn_failure ref_platform env0 conversion_error [ModelStep ''earlier'', ModelStep unknown_no_text],
      after_model_step unknown_no_text ''Cannot convert object to primitive value'' state0)"
    and d3: "st_toolCtx (snd (agent_loop ref_platform (backend_says unknown_no_text) env0
                      ''amazon.nova-lite-v1:0'' 1 state0))
       = \<lparr>draft = Some ''a draft'', plan = [''step one'']\<rparr>"
    by (simp_all add: nova_backend_says ne eval_unknown_replies get_prop_def isToolName_def s0
        eval_no_text conversion_error_message loop_ctx_after_model_step)
  from w4 turn have c4:
    "agent_loop ref_platform (backend_says action_no_text) env0 ''amazon.nova-lite-v1:0'' 1 state0 =
     (turn_failure ref_platform env0 conversion_error [ModelStep ''earlier'', ModelStep action_no_text],
      after_model_step action_no_text ''Cannot convert object to primitive value'' state0)"
    and d4: "st_toolCtx (snd (agent_loop ref_platform (backend_says action_no_text) env0
                      ''amazon.nova-lite-v1:0'' 1 state0))
       = \<lparr>draft = Some ''a draft'', plan = [''step one'']\<rparr>"
    by (simp_all add: nova_backend_says ne eval_unknown_replies get_prop_def isToolName_def
        has_action_def s0 eval_no_text conversion_error_message loop_ctx_after_model_step)
  have e: "error (fst (agent_loop ref_platform (backend_says unknown_no_text) env0
                 ''amazon.nova-lite-v1:0'' 1 state0))
     = Some ''Cannot convert object to primitive value''"
    unfolding c3 by (simp add: turn_failure_def conversion_error_message)
  from c1 c2 c3 c4 e d1 d2 d3 d4 show ?thesis by (intro conjI)
qed

section \<open>Orchestration loop: the turn budget\<close>

lemma eval_tool_reply:
  "safeJsonParse ref_platform tool_reply =
     JObj [(''action'', JStr ''tool''), (''tool'', JStr ''writeDraft''), (''input'', JStr ''d'')]"
  unfolding tool_reply_def by code_simp

lemma decide_tool_reply:
  "decide ref_platform E tool_reply (st\<lparr>st_calls := Suc (st_calls st)\<rparr>) =
     Continue (after_tool_reply st)"
  by (simp add: decide_def eval_tool_reply has_action_def get_prop_def isToolName_def
      tool_turn_def run_tool_def writeDraft_def input_text_def Let_def ref_platform_fields
      after_tool_reply_def)

lemma nova_backend_tool:
  "fst (novaConverseText P backend_tool env0 (turn_options ''amazon.nova-lite-v1:0'' st))
     = Inr tool_reply"
  using nova_backend_says[of tool_reply P st]
  by (simp add: backend_tool_def backend_says_def tool_reply_def)

lemma after_turns_tool_reply:
  "after_turns ref_platform backend_tool env0 ''amazon.nova-lite-v1:0'' k st
     = Some ((after_tool_reply ^^ k) st)"
proof (induction k arbitrary: st)
  case 0
  then show ?case by simp
next
  case (Suc k)
  show ?case
    by (simp add: nova_backend_tool decide_tool_reply Suc.IH funpow_swap1)
qed

lemma concat_replicate_snoc: "concat (replicate k xs) @ xs = xs @ concat (replicate k xs)"
  by (induction k) simp_all

lemma after_tool_reply_steps:
  "st_steps ((after_tool_reply ^^ k) st) =
     st_steps st @ concat (replicate k
       [ModelStep tool_reply, ToolStep ''writeDraft'' (Some (JStr ''d'')) (DraftOut (Some ''d''))])"
proof (induction k)
  case 0
  then show ?case by simp
next
  case (Suc k)
  have "st_steps ((after_tool_reply ^^ Suc k) st) =
        st_steps ((after_tool_reply ^^ k) st) @
          [ModelStep tool_reply, ToolStep ''writeDraft'' (Some (JStr ''d'')) (DraftOut (Some ''d''))]"
    by (simp add: after_tool_reply_def)
  also have "\<dots> = st_steps st @ (concat (replicate k
       [ModelStep tool_reply, ToolStep ''writeDraft'' (Some (JStr ''d'')) (DraftOut (Some ''d''))]) @
       [ModelStep tool_reply, ToolStep ''writeDraft'' (Some (JStr ''d'')) (DraftOut (Some ''d''))])"
    by (simp only: Suc.IH append_assoc)
  also have "\<dots> = st_steps st @ concat (replicate (Suc k)
       [ModelStep tool_reply, ToolStep ''writeDraft'' (Some (JStr ''d'')) (DraftOut (Some ''d''))])"
    by (simp only: concat_replicate_snoc replicate_Suc concat.simps)
  finally show ?case .
qed

text \<open>
  C1. In every run the model is called at most 8 times (more generally, from turn
  \<open>turn\<close> on, at most \<open>maxTurns - turn\<close> times), the transcript holds at most 8 Model steps,
  and every response of the loop carries the transcript of the state it ends in. When 8
  turns in a row end in a tool result, the loop is left and the response is the
  turn-budget failure with that transcript: 8 more calls, 8 more Model steps, no Error
  step added; and only such a run gives that response. The turn-budget failure differs
  from every response of the \<open>catch\<close> block, in particular from the decision-parse failure,
  whose message is another one.
\<close>

theorem turn_budget:
  "st_calls (snd (agent_loop P B E mid 0 (initial_state b))) \<le> 8 \<and>
   model_steps (st_steps (snd (agent_loop P B E mid 0 (initial_state b)))) \<le> 8 \<and>
   st_calls (snd (agent_loop P B E mid turn st)) \<le> st_calls st + (maxTurns - turn) \<and>
   model_steps (st_steps (snd (agent_loop P B E mid turn st)))
     \<le> model_steps (st_steps st) + (maxTurns - turn) \<and>
   steps (fst (agent_loop P B E mid turn st)) = Some (st_steps (snd (agent_loop P B E mid turn st))) \<and>
   (after_turns P B E mid maxTurns st = Some st' \<longrightarrow>
      agent_loop P B E mid 0 st = (budget_response (st_steps st'), st') \<and>
      st_calls st' = st_calls st + 8 \<and>
      model_steps (st_steps st') = model_steps (st_steps st) + 8 \<and>
      length (st_steps st') = length (st_steps st) + 16 \<and>
      filter is_error_step (st_steps st') = filter is_error_step (st_steps st)) \<and>
   (fst (agent_loop P B E mid 0 st) = budget_response xs \<longrightarrow>
      after_turns P B E mid maxTurns st = Some (snd (agent_loop P B E mid 0 st))) \<and>
   budget_response xs \<noteq> fst (catch_response P E err st) \<and>
   budget_response xs \<noteq> failure_response E parse_failure_message ys \<and>
   error (budget_response xs) \<noteq> Some parse_failure_message"
proof -
  note inv = loop_invariant[of P B E mid turn st]
  note inv0 = loop_invariant[of P B E mid 0 "initial_state b"]
  have a: "st_calls (snd (agent_loop P B E mid 0 (initial_state b))) \<le> 8"
    using inv0 by (simp add: initial_state_def maxTurns_def)
  have b: "model_steps (st_steps (snd (agent_loop P B E mid 0 (initial_state b)))) \<le> 8"
    using inv0 by (simp add: initial_state_def maxTurns_def)
  have c: "model_steps (st_steps (snd (agent_loop P B E mid turn st)))
             \<le> model_steps (st_steps st) + (maxTurns - turn)"
    using inv by linarith
  have d: "after_turns P B E mid maxTurns st = Some st' \<longrightarrow>
      agent_loop P B E mid 0 st = (budget_response (st_steps st'), st') \<and>
      st_calls st' = st_calls st + 8 \<and>
      model_steps (st_steps st') = model_steps (st_steps st) + 8 \<and>
      length (st_steps st') = length (st_steps st) + 16 \<and>
      filter is_error_step (st_steps st') = filter is_error_step (st_steps st)"
    using after_turns_budget[of P B E mid maxTurns st st' 0]
      after_turns_counts[of P B E mid maxTurns st st']
    by (simp add: maxTurns_def)
  have e: "fst (agent_loop P B E mid 0 st) = budget_response xs \<longrightarrow>
      after_turns P B E mid maxTurns st = Some (snd (agent_loop P B E mid 0 st))"
    using budget_after_turns[of P B E mid 0 st xs] by simp
  have f: "budget_response xs \<noteq> fst (catch_response P E err st)"
    using catch_response_not_budget[of P E err st xs] by simp
  have g: "budget_response xs \<noteq> failure_response E parse_failure_message ys"
    by (simp add: budget_response_def failure_response_def)
  have h: "error (budget_response xs) \<noteq> Some parse_failure_message"
    by (simp add: budget_response_def budget_message_def parse_failure_message_def)
  from a b c d e f g h inv show ?thesis by blast
qed

theorem turn_budget_witness:
  "after_turns ref_platform backend_tool env0 ''amazon.nova-lite-v1:0'' maxTurns
       (initial_state (body request0))
     = Some ((after_tool_reply ^^ 8) (initial_state (body request0))) \<and>
   fst (agent_loop ref_platform backend_tool env0 ''amazon.nova-lite-v1:0'' 0
          (initial_state (body request0)))
     = budget_response (concat (replicate 8
         [ModelStep tool_reply, ToolStep ''writeDraft'' (Some (JStr ''d'')) (DraftOut (Some ''d''))])) \<and>
   st_calls (snd (agent_loop ref_platform backend_tool env0 ''amazon.nova-lite-v1:0'' 0
                    (initial_state (body request0)))) = 8 \<and>
   model_steps (st_steps (snd (agent_loop ref_platform backend_tool env0 ''amazon.nova-lite-v1:0'' 0
                    (initial_state (body request0))))) = 8"
proof -
  let ?st = "initial_state (body request0)"
  let ?st' = "(after_tool_reply ^^ 8) ?st"
  have a: "after_turns ref_platform backend_tool env0 ''amazon.nova-lite-v1:0'' maxTurns ?st = Some ?st'"
    by (simp add: after_turns_tool_reply maxTurns_def)
  have s: "st_steps ?st = []" "st_calls ?st = 0" by (simp_all add: initial_state_def)
  from turn_budget[of ref_platform backend_tool env0 "''amazon.nova-lite-v1:0''" "body request0" 0
      ?st ?st'] a
  have run: "agent_loop ref_platform backend_tool env0 ''amazon.nova-lite-v1:0'' 0 ?st
               = (budget_response (st_steps ?st'), ?st')"
    and calls: "st_calls ?st' = st_calls ?st + 8"
    and models: "model_steps (st_steps ?st') = model_steps (st_steps ?st) + 8"
    by blast+
  have steps': "st_steps ?st' = concat (replicate 8
         [ModelStep tool_reply, ToolStep ''writeDraft'' (Some (JStr ''d'')) (DraftOut (Some ''d''))])"
    unfolding after_tool_reply_steps s by simp
  from run have r1: "fst (agent_loop ref_platform backend_tool env0 ''amazon.nova-lite-v1:0'' 0 ?st)
      = budget_response (concat (replicate 8
         [ModelStep tool_reply, ToolStep ''writeDraft'' (Some (JStr ''d'')) (DraftOut (Some ''d''))]))"
    by (simp only: fst_conv steps')
  from run calls have r2:
    "st_calls (snd (agent_loop ref_platform backend_tool env0 ''amazon.nova-lite-v1:0'' 0 ?st)) = 8"
    by (simp only: snd_conv s add_0)
  from run models have r3:
    "model_steps (st_steps (snd (agent_loop ref_platform backend_tool env0
        ''amazon.nova-lite-v1:0'' 0 ?st))) = 8"
    by (simp only: snd_conv s model_steps_simps add_0)
  from a r1 r2 r3 show ?thesis by (intro conjI)
qed

section \<open>The shapes of the responses\<close>

lemma catch_response_shape:
  "fst (catch_response P E err st) =
     \<lparr>status = 500, final = None, error = Some (det_message (toErrorDetails P err)),
      details = Some (toErrorDetails P err), hint = Some (hint_text E),
      steps = Some (st_steps (snd (catch_response P E err st)))\<rparr> \<and>
   st_steps (snd (catch_response P E err st)) =
     st_steps st @ [ErrorStep (det_message (toErrorDetails P err))]"
  by (simp add: catch_response_def Let_def hint_text_def)

lemma loop_shapes:
  "(\<exists>out. fst (agent_loop P B E mid turn st) =
       \<lparr>status = 200, final = Some out, error = None, details = None, hint = None,
        steps = Some (st_steps (snd (agent_loop P B E mid turn st)))\<rparr>) \<or>
   (\<exists>err xs. fst (agent_loop P B E mid turn st) =
       \<lparr>status = 500, final = None, error = Some (det_message (toErrorDetails P err)),
        details = Some (toErrorDetails P err), hint = Some (hint_text E),
        steps = Some (st_steps (snd (agent_loop P B E mid turn st)))\<rparr> \<and>
       st_steps (snd (agent_loop P B E mid turn st)) =
         xs @ [ErrorStep (det_message (toErrorDetails P err))]) \<or>
   fst (agent_loop P B E mid turn st) = budget_response (st_steps (snd (agent_loop P B E mid turn st)))"
proof (induction P B E mid turn st rule: agent_loop.induct)
  case (1 P B E mid turn st)
  let ?st = "st\<lparr>st_calls := st_calls st + 1\<rparr>"
  show ?case
  proof (cases "turn < maxTurns")
    case False
    then show ?thesis by (simp add: loop_exit)
  next
    case True
    show ?thesis
    proof (cases "fst (novaConverseText P B E (turn_options mid st))")
      case (Inl err)
      with True have "agent_loop P B E mid turn st = catch_response P E err ?st"
        by (simp add: loop_thrown)
      with catch_response_shape[of P E err ?st] show ?thesis by metis
    next
      case (Inr mtext)
      show ?thesis
      proof (cases "decide P E mtext ?st")
        case (Respond r st')
        with True Inr have eq: "agent_loop P B E mid turn st = (r, st')" by (simp add: loop_respond)
        from decide_cases[of P E mtext ?st] Respond
        consider (failed) err stx where "r = fst (catch_response P E err stx)"
            "st' = snd (catch_response P E err stx)"
          | (final) out where "r = \<lparr>status = 200, final = Some out, error = None, details = None,
              hint = None, steps = Some (st_steps st')\<rparr>"
          by auto
        then show ?thesis
        proof cases
          case failed
          with catch_response_shape[of P E err stx] show ?thesis unfolding eq fst_conv snd_conv
            by metis
        next
          case final
          then show ?thesis unfolding eq fst_conv snd_conv by blast
        qed
      next
        case (Continue st')
        with True Inr have eq: "agent_loop P B E mid turn st = agent_loop P B E mid (turn + 1) st'"
          by (simp add: loop_continue)
        from "1.IH"[OF True Inr Continue] show ?thesis unfolding eq .
      qed
    qed
  qed
qed

lemma post_agent_cases:
  "post_agent P B E req = plain_error 401 ''Unauthorized'' \<or>
   post_agent P B E req = plain_error 400 ''Missing required field: goal'' \<or>
   post_agent P B E req = plain_error 500
     ''Missing NOVA_MODEL_ID. Set it in your server environment (and ensure Bedrock model access is enabled).'' \<or>
   (\<exists>mid. NOVA_MODEL_ID E = Some mid \<and> mid \<noteq> [] \<and>
      post_agent P B E req = fst (agent_loop P B E mid 0 (initial_state (request_body req))))"
  by (auto simp: post_agent_def Let_def split: option.splits)

lemma post_agent_run:
  "DEMO_API_KEY E = None \<Longrightarrow> NOVA_MODEL_ID E = Some mid \<Longrightarrow> mid \<noteq> [] \<Longrightarrow>
   trimmed_string (get_prop (request_body req) ''goal'') \<noteq> [] \<Longrightarrow>
   post_agent P B E req = fst (agent_loop P B E mid 0 (initial_state (request_body req)))"
  by (simp add: post_agent_def Let_def)

lemma env0_fields:
  "DEMO_API_KEY env0 = None" "NOVA_MODEL_ID env0 = Some ''amazon.nova-lite-v1:0''"
  "AWS_REGION env0 = None"
  by (simp_all add: env0_def)

text \<open>
  C9, as the specification states it, fails: a request without a goal is answered with
  \<open>error\<close> alone (no \<open>details\<close>, no \<open>hint\<close>, no \<open>steps\<close>), and a run that uses up its turn
  budget is answered with \<open>error\<close> and \<open>steps\<close> but neither \<open>details\<close> nor \<open>hint\<close>.
\<close>

theorem failure_shape_counterexample:
  "post_agent ref_platform backend_tool env0 \<lparr>header_key = None, body = None\<rparr>
     = plain_error 400 ''Missing required field: goal'' \<and>
   details (post_agent ref_platform backend_tool env0 \<lparr>header_key = None, body = None\<rparr>) = None \<and>
   hint (post_agent ref_platform backend_tool env0 \<lparr>header_key = None, body = None\<rparr>) = None \<and>
   steps (post_agent ref_platform backend_tool env0 \<lparr>header_key = None, body = None\<rparr>) = None \<and>
   post_agent ref_platform backend_tool env0 request0
     = budget_response (concat (replicate 8
         [ModelStep tool_reply, ToolStep ''writeDraft'' (Some (JStr ''d'')) (DraftOut (Some ''d''))])) \<and>
   error (post_agent ref_platform backend_tool env0 request0) = Some budget_message \<and>
   details (post_agent ref_platform backend_tool env0 request0) = None \<and>
   hint (post_agent ref_platform backend_tool env0 request0) = None"
proof -
  have a: "post_agent ref_platform backend_tool env0 \<lparr>header_key = None, body = None\<rparr>
     = plain_error 400 ''Missing required field: goal''"
    by (simp add: post_agent_def env0_def request_body_def get_prop_def trimmed_string_def)
  have goal: "trimmed_string (get_prop (request_body request0) ''goal'') = ''Write a pitch''"
    by code_simp
  have body: "request_body request0 = body request0"
    by (simp add: request_body_def request0_def)
  have st: "st_steps (initial_state (body request0)) = []" by (simp add: initial_state_def)
  have "after_turns ref_platform backend_tool env0 ''amazon.nova-lite-v1:0'' maxTurns
          (initial_state (body request0))
        = Some ((after_tool_reply ^^ 8) (initial_state (body request0)))"
    by (simp add: after_turns_tool_reply maxTurns_def)
  then have "agent_loop ref_platform backend_tool env0 ''amazon.nova-lite-v1:0'' 0
               (initial_state (body request0))
             = (budget_response (st_steps ((after_tool_reply ^^ 8) (initial_state (body request0)))),
                (after_tool_reply ^^ 8) (initial_state (body request0)))"
    by (rule after_turns_budget) simp
  moreover have "post_agent ref_platform backend_tool env0 request0 =
      fst (agent_loop ref_platform backend_tool env0 ''amazon.nova-lite-v1:0'' 0
             (initial_state (request_body request0)))"
    by (rule post_agent_run) (simp_all add: env0_fields goal)
  ultimately have b: "post_agent ref_platform backend_tool env0 request0
     = budget_response (concat (replicate 8
         [ModelStep tool_reply, ToolStep ''writeDraft'' (Some (JStr ''d'')) (DraftOut (Some ''d''))]))"
    by (simp add: body after_tool_reply_steps st)
  show ?thesis unfolding a b by (simp add: plain_error_def budget_response_def)
qed

lemma catch_response_turn_failure:
  "fst (catch_response P E err st) = turn_failure P E err (st_steps st)"
  by (simp add: catch_response_def turn_failure_def hint_text_def Let_def)

lemma turn_thrown:
  assumes "turn < maxTurns" "fst (novaConverseText P B E (turn_options mid st)) = Inl err"
  shows "fst (agent_loop P B E mid turn st) = turn_failure P E err (st_steps st)"
  using loop_thrown[OF assms] by (simp add: catch_response_turn_failure)

lemma turn_respond:
  assumes "turn < maxTurns" "fst (novaConverseText P B E (turn_options mid st)) = Inr mtext"
    "decide P E mtext (st\<lparr>st_calls := st_calls st + 1\<rparr>) = Respond r st'"
  shows "fst (agent_loop P B E mid turn st) = r \<and>
     ((\<exists>out. r = \<lparr>status = 200, final = Some out, error = None, details = None, hint = None,
                  steps = Some (st_steps st @ [ModelStep mtext])\<rparr>) \<or>
      (\<exists>e. r = turn_failure P E e (st_steps st @ [ModelStep mtext])))"
proof -
  from loop_respond[OF assms] have "fst (agent_loop P B E mid turn st) = r" by simp
  moreover from decide_cases[of P E mtext "st\<lparr>st_calls := st_calls st + 1\<rparr>"] assms(3)
  have "(\<exists>out. r = \<lparr>status = 200, final = Some out, error = None, details = None, hint = None,
                  steps = Some (st_steps st @ [ModelStep mtext])\<rparr>) \<or>
      (\<exists>e. r = turn_failure P E e (st_steps st @ [ModelStep mtext]))"
    by (auto simp: catch_response_turn_failure)
  ultimately show ?thesis by simp
qed

lemma decide_continue_steps:
  assumes "decide P E mtext st = Continue st'"
  shows "\<exists>name input out. st_steps st' = st_steps st @ [ModelStep mtext, ToolStep name input out]"
  using decide_cases[of P E mtext st] assms by auto

lemma after_turns_loop:
  "after_turns P B E mid j st = Some st_j \<Longrightarrow> turn + j \<le> maxTurns \<Longrightarrow>
   agent_loop P B E mid turn st = agent_loop P B E mid (turn + j) st_j"
proof (induction j arbitrary: turn st)
  case 0
  then show ?case by simp
next
  case (Suc j)
  from Suc.prems(2) have lt: "turn < maxTurns" by simp
  from Suc.prems(1) obtain mtext st1 where
    t: "fst (novaConverseText P B E (turn_options mid st)) = Inr mtext" and
    d: "decide P E mtext (st\<lparr>st_calls := st_calls st + 1\<rparr>) = Continue st1" and
    a: "after_turns P B E mid j st1 = Some st_j"
    by (auto split: sum.splits turn_result.splits)
  from Suc.prems(2) have "(turn + 1) + j \<le> maxTurns" by simp
  from Suc.IH[OF a this] loop_continue[OF lt t d] show ?case by simp
qed

lemma tool_rounds_append: "tool_rounds xs \<Longrightarrow> tool_rounds ys \<Longrightarrow> tool_rounds (xs @ ys)"
  by (induction xs rule: tool_rounds.induct) simp_all

lemma after_turns_steps:
  "after_turns P B E mid j st = Some st_j \<Longrightarrow>
   \<exists>ys. st_steps st_j = st_steps st @ ys \<and> tool_rounds ys \<and> length ys = 2 * j"
proof (induction j arbitrary: st)
  case 0
  then show ?case by simp
next
  case (Suc j)
  from Suc.prems obtain mtext st1 where
    d: "decide P E mtext (st\<lparr>st_calls := st_calls st + 1\<rparr>) = Continue st1" and
    a: "after_turns P B E mid j st1 = Some st_j"
    by (auto split: sum.splits turn_result.splits)
  from decide_continue_steps[OF d] obtain name input out where
    s1: "st_steps st1 = st_steps st @ [ModelStep mtext, ToolStep name input out]" by auto
  from Suc.IH[OF a] obtain ys where
    ys: "st_steps st_j = st_steps st1 @ ys" "tool_rounds ys" "length ys = 2 * j" by blast
  have "st_steps st_j = st_steps st @ ([ModelStep mtext, ToolStep name input out] @ ys)"
    by (simp add: ys(1) s1)
  moreover have "tool_rounds ([ModelStep mtext, ToolStep name input out] @ ys)"
    using ys(2) by simp
  moreover have "length ([ModelStep mtext, ToolStep name input out] @ ys) = 2 * Suc j"
    using ys(3) by simp
  ultimately show ?case by blast
qed

lemma run_thrown:
  assumes "after_turns P B E mid j st = Some st_j" "turn + j < maxTurns"
    "fst (novaConverseText P B E (turn_options mid st_j)) = Inl err"
  shows "fst (agent_loop P B E mid turn st) = turn_failure P E err (st_steps st_j)"
proof -
  from assms(2) have "turn + j \<le> maxTurns" by simp
  from after_turns_loop[OF assms(1) this] turn_thrown[OF assms(2,3)] show ?thesis by simp
qed

lemma run_respond:
  assumes "after_turns P B E mid j st = Some st_j" "turn + j < maxTurns"
    "fst (novaConverseText P B E (turn_options mid st_j)) = Inr mtext"
    "decide P E mtext (st_j\<lparr>st_calls := st_calls st_j + 1\<rparr>) = Respond r st'"
  shows "fst (agent_loop P B E mid turn st) = r \<and>
     ((\<exists>out. r = \<lparr>status = 200, final = Some out, error = None, details = None, hint = None,
                  steps = Some (st_steps st_j @ [ModelStep mtext])\<rparr>) \<or>
      (\<exists>e. r = turn_failure P E e (st_steps st_j @ [ModelStep mtext])))"
proof -
  from assms(2) have "turn + j \<le> maxTurns" by simp
  from after_turns_loop[OF assms(1) this] turn_respond[OF assms(2,3,4)] show ?thesis by simp
qed

lemma run_budget:
  assumes "after_turns P B E mid (maxTurns - turn) st = Some st_j"
  shows "fst (agent_loop P B E mid turn st) = budget_response (st_steps st_j)"
proof (cases "turn \<le> maxTurns")
  case True
  then have "turn + (maxTurns - turn) = maxTurns" by simp
  from after_turns_budget[OF assms this] show ?thesis by simp
next
  case False
  then have "maxTurns - turn = 0" "\<not> turn < maxTurns" by simp_all
  with assms show ?thesis by (simp add: loop_exit)
qed

lemma loop_outcome:
  "\<exists>j st_j. after_turns P B E mid j st = Some st_j \<and>
     ((j = maxTurns - turn \<and>
       fst (agent_loop P B E mid turn st) = budget_response (st_steps st_j)) \<or>
      (turn + j < maxTurns \<and>
       (\<exists>err. fst (novaConverseText P B E (turn_options mid st_j)) = Inl err \<and>
          fst (agent_loop P B E mid turn st) = turn_failure P E err (st_steps st_j))) \<or>
      (turn + j < maxTurns \<and>
       (\<exists>mtext err. fst (novaConverseText P B E (turn_options mid st_j)) = Inr mtext \<and>
          fst (agent_loop P B E mid turn st) =
            turn_failure P E err (st_steps st_j @ [ModelStep mtext]))) \<or>
      (turn + j < maxTurns \<and>
       (\<exists>mtext out. fst (novaConverseText P B E (turn_options mid st_j)) = Inr mtext \<and>
          fst (agent_loop P B E mid turn st) =
            \<lparr>status = 200, final = Some out, error = None, details = None, hint = None,
             steps = Some (st_steps st_j @ [ModelStep mtext])\<rparr>)))"
proof (induction P B E mid turn st rule: agent_loop.induct)
  case (1 P B E mid turn st)
  let ?st = "st\<lparr>st_calls := st_calls st + 1\<rparr>"
  have start: "after_turns P B E mid 0 st = Some st" by simp
  show ?case
  proof (cases "turn < maxTurns")
    case False
    then have "0 = maxTurns - turn"
      "fst (agent_loop P B E mid turn st) = budget_response (st_steps st)"
      by (simp_all add: loop_exit)
    with start show ?thesis by blast
  next
    case True
    then have lt: "turn + 0 < maxTurns" by simp
    show ?thesis
    proof (cases "fst (novaConverseText P B E (turn_options mid st))")
      case (Inl err)
      from turn_thrown[OF True Inl] Inl start lt show ?thesis by blast
    next
      case (Inr mtext)
      show ?thesis
      proof (cases "decide P E mtext ?st")
        case (Respond r st')
        from turn_respond[OF True Inr Respond] Inr start lt show ?thesis by blast
      next
        case (Continue st')
        with True Inr have eq: "agent_loop P B E mid turn st = agent_loop P B E mid (turn + 1) st'"
          by (simp add: loop_continue)
        from "1.IH"[OF True Inr Continue] obtain j st_j where
          a: "after_turns P B E mid j st' = Some st_j" and
          o: "(j = maxTurns - (turn + 1) \<and>
               fst (agent_loop P B E mid (turn + 1) st') = budget_response (st_steps st_j)) \<or>
              (turn + 1 + j < maxTurns \<and>
               (\<exists>err. fst (novaConverseText P B E (turn_options mid st_j)) = Inl err \<and>
                  fst (agent_loop P B E mid (turn + 1) st') = turn_failure P E err (st_steps st_j))) \<or>
              (turn + 1 + j < maxTurns \<and>
               (\<exists>mtext err. fst (novaConverseText P B E (turn_options mid st_j)) = Inr mtext \<and>
                  fst (agent_loop P B E mid (turn + 1) st') =
                    turn_failure P E err (st_steps st_j @ [ModelStep mtext]))) \<or>
              (turn + 1 + j < maxTurns \<and>
               (\<exists>mtext out. fst (novaConverseText P B E (turn_options mid st_j)) = Inr mtext \<and>
                  fst (agent_loop P B E mid (turn + 1) st') =
                    \<lparr>status = 200, final = Some out, error = None, details = None, hint = None,
                     steps = Some (st_steps st_j @ [ModelStep mtext])\<rparr>))"
          by blast
        from a Inr Continue have a': "after_turns P B E mid (Suc j) st = Some st_j" by simp
        have j: "j = maxTurns - (turn + 1) \<Longrightarrow> Suc j = maxTurns - turn" using True by simp
        have k: "turn + 1 + j < maxTurns \<Longrightarrow> turn + Suc j < maxTurns" by simp
        from o j k have
          "(Suc j = maxTurns - turn \<and>
             fst (agent_loop P B E mid (turn + 1) st') = budget_response (st_steps st_j)) \<or>
           (turn + Suc j < maxTurns \<and>
             (\<exists>err. fst (novaConverseText P B E (turn_options mid st_j)) = Inl err \<and>
                fst (agent_loop P B E mid (turn + 1) st') = turn_failure P E err (st_steps st_j))) \<or>
           (turn + Suc j < maxTurns \<and>
             (\<exists>mtext err. fst (novaConverseText P B E (turn_options mid st_j)) = Inr mtext \<and>
                fst (agent_loop P B E mid (turn + 1) st') =
                  turn_failure P E err (st_steps st_j @ [ModelStep mtext]))) \<or>
           (turn + Suc j < maxTurns \<and>
             (\<exists>mtext out. fst (novaConverseText P B E (turn_options mid st_j)) = Inr mtext \<and>
                fst (agent_loop P B E mid (turn + 1) st') =
                  \<lparr>status = 200, final = Some out, error = None, details = None, hint = None,
                   steps = Some (st_steps st_j @ [ModelStep mtext])\<rparr>))"
          by blast
        with a' show ?thesis unfolding eq by blast
      qed
    qed
  qed
qed

lemma loop_prefix: "\<exists>ys. st_steps (snd (agent_loop P B E mid turn st)) = st_steps st @ ys"
proof -
  from loop_invariant[of P B E mid turn st]
  have s: "steps (fst (agent_loop P B E mid turn st)) =
             Some (st_steps (snd (agent_loop P B E mid turn st)))" by simp
  from loop_outcome[of P B E mid st turn] obtain j st_j zs where
    a: "after_turns P B E mid j st = Some st_j" and
    o: "steps (fst (agent_loop P B E mid turn st)) = Some (st_steps st_j @ zs)"
    by (auto simp: budget_response_def turn_failure_def)
  from after_turns_steps[OF a] obtain ys where "st_steps st_j = st_steps st @ ys" by blast
  with s o have "st_steps (snd (agent_loop P B E mid turn st)) = st_steps st @ (ys @ zs)" by simp
  then show ?thesis by blast
qed

text \<open>
  C9, amended. A response of the loop is a success \<open>{final, steps}\<close>, or a failure of the
  \<open>catch\<close> block with the shape \<open>{error, details, hint, steps}\<close> whose transcript ends with
  the Error step carrying the same message, or the turn-budget failure \<open>{error, steps}\<close>
  with neither \<open>details\<close> nor \<open>hint\<close>; each of the three carries the transcript accumulated
  so far. A request that is refused before a run starts (wrong key, missing goal, missing
  model identifier) is answered with \<open>{error}\<close> alone. The handler gives no other
  response.

  The transcript accumulated so far is kept: the transcript of a response starts with the
  transcript the loop was entered with. More precisely, a run is a number \<open>j\<close> of turns
  that each end in a tool result, and add a Model step and a Tool step each, followed by
  its end: when the call of the model throws in the next turn, the response is the
  failure of the \<open>catch\<close> block for the value thrown, with the transcript of the \<open>j\<close> turns
  and the Error step; when the turn ends the run after the model has answered, the
  response is a success or the failure of the \<open>catch\<close> block for a value thrown in that
  turn, with the transcript of the \<open>j\<close> turns, the Model step of the turn and, for the
  failure, the Error step; when no turn is left, the response is the turn-budget failure
  with the transcript of the \<open>j\<close> turns. Every run ends in one of these ways.
\<close>

theorem failure_shapes:
  "((\<exists>out. fst (agent_loop P B E mid turn st) =
       \<lparr>status = 200, final = Some out, error = None, details = None, hint = None,
        steps = Some (st_steps (snd (agent_loop P B E mid turn st)))\<rparr>) \<or>
    (\<exists>err xs. fst (agent_loop P B E mid turn st) =
       \<lparr>status = 500, final = None, error = Some (det_message (toErrorDetails P err)),
        details = Some (toErrorDetails P err), hint = Some (hint_text E),
        steps = Some (st_steps (snd (agent_loop P B E mid turn st)))\<rparr> \<and>
       st_steps (snd (agent_loop P B E mid turn st)) =
         xs @ [ErrorStep (det_message (toErrorDetails P err))]) \<or>
    fst (agent_loop P B E mid turn st) =
      budget_response (st_steps (snd (agent_loop P B E mid turn st)))) \<and>
   (post_agent P B E req = plain_error 401 ''Unauthorized'' \<or>
    post_agent P B E req = plain_error 400 ''Missing required field: goal'' \<or>
    post_agent P B E req = plain_error 500
      ''Missing NOVA_MODEL_ID. Set it in your server environment (and ensure Bedrock model access is enabled).'' \<or>
    (\<exists>mid. NOVA_MODEL_ID E = Some mid \<and> mid \<noteq> [] \<and>
       post_agent P B E req = fst (agent_loop P B E mid 0 (initial_state (request_body req))))) \<and>
   budget_response ys =
     \<lparr>status = 500, final = None, error = Some budget_message, details = None, hint = None,
      steps = Some ys\<rparr> \<and>
   plain_error code msg =
     \<lparr>status = code, final = None, error = Some msg, details = None, hint = None, steps = None\<rparr> \<and>
   turn_failure P E err xs =
     \<lparr>status = 500, final = None, error = Some (det_message (toErrorDetails P err)),
      details = Some (toErrorDetails P err), hint = Some (hint_text E),
      steps = Some (xs @ [ErrorStep (det_message (toErrorDetails P err))])\<rparr> \<and>
   (\<exists>zs. st_steps (snd (agent_loop P B E mid turn st)) = st_steps st @ zs) \<and>
   (\<exists>j st_j. after_turns P B E mid j st = Some st_j \<and>
      ((j = maxTurns - turn \<and>
        fst (agent_loop P B E mid turn st) = budget_response (st_steps st_j)) \<or>
       (turn + j < maxTurns \<and>
        (\<exists>err. fst (novaConverseText P B E (turn_options mid st_j)) = Inl err \<and>
           fst (agent_loop P B E mid turn st) = turn_failure P E err (st_steps st_j))) \<or>
       (turn + j < maxTurns \<and>
        (\<exists>mtext err. fst (novaConverseText P B E (turn_options mid st_j)) = Inr mtext \<and>
           fst (agent_loop P B E mid turn st) =
             turn_failure P E err (st_steps st_j @ [ModelStep mtext]))) \<or>
       (turn + j < maxTurns \<and>
        (\<exists>mtext out. fst (novaConverseText P B E (turn_options mid st_j)) = Inr mtext \<and>
           fst (agent_loop P B E mid turn st) =
             \<lparr>status = 200, final = Some out, error = None, details = None, hint = None,
              steps = Some (st_steps st_j @ [ModelStep mtext])\<rparr>)))) \<and>
   (after_turns P B E mid k st = Some st_k \<and> turn + k < maxTurns \<and>
    fst (novaConverseText P B E (turn_options mid st_k)) = Inl err \<longrightarrow>
      fst (agent_loop P B E mid turn st) = turn_failure P E err (st_steps st_k)) \<and>
   (after_turns P B E mid k st = Some st_k \<and> turn + k < maxTurns \<and>
    fst (novaConverseText P B E (turn_options mid st_k)) = Inr mtext \<and>
    decide P E mtext (st_k\<lparr>st_calls := st_calls st_k + 1\<rparr>) = Respond r st' \<longrightarrow>
      fst (agent_loop P B E mid turn st) = r \<and>
      ((\<exists>out. r = \<lparr>status = 200, final = Some out, error = None, details = None, hint = None,
                   steps = Some (st_steps st_k @ [ModelStep mtext])\<rparr>) \<or>
       (\<exists>e. r = turn_failure P E e (st_steps st_k @ [ModelStep mtext])))) \<and>
   (after_turns P B E mid (maxTurns - turn) st = Some st_k \<longrightarrow>
      fst (agent_loop P B E mid turn st) = budget_response (st_steps st_k)) \<and>
   (after_turns P B E mid k st = Some st_k \<longrightarrow>
      (\<exists>zs. st_steps st_k = st_steps st @ zs \<and> tool_rounds zs \<and> length zs = 2 * k))"
proof -
  have a: "budget_response ys =
     \<lparr>status = 500, final = None, error = Some budget_message, details = None, hint = None,
      steps = Some ys\<rparr>" by (simp add: budget_response_def)
  have b: "plain_error code msg =
     \<lparr>status = code, final = None, error = Some msg, details = None, hint = None, steps = None\<rparr>"
    by (simp add: plain_error_def)
  have c: "turn_failure P E err xs =
     \<lparr>status = 500, final = None, error = Some (det_message (toErrorDetails P err)),
      details = Some (toErrorDetails P err), hint = Some (hint_text E),
      steps = Some (xs @ [ErrorStep (det_message (toErrorDetails P err))])\<rparr>"
    by (simp add: turn_failure_def)
  have d: "after_turns P B E mid k st = Some st_k \<and> turn + k < maxTurns \<and>
    fst (novaConverseText P B E (turn_options mid st_k)) = Inl err \<longrightarrow>
      fst (agent_loop P B E mid turn st) = turn_failure P E err (st_steps st_k)"
    using run_thrown[of P B E mid k st st_k turn err] by blast
  have e: "after_turns P B E mid k st = Some st_k \<and> turn + k < maxTurns \<and>
    fst (novaConverseText P B E (turn_options mid st_k)) = Inr mtext \<and>
    decide P E mtext (st_k\<lparr>st_calls := st_calls st_k + 1\<rparr>) = Respond r st' \<longrightarrow>
      fst (agent_loop P B E mid turn st) = r \<and>
      ((\<exists>out. r = \<lparr>status = 200, final = Some out, error = None, details = None, hint = None,
                   steps = Some (st_steps st_k @ [ModelStep mtext])\<rparr>) \<or>
       (\<exists>e. r = turn_failure P E e (st_steps st_k @ [ModelStep mtext])))"
    using run_respond[of P B E mid k st st_k turn mtext r st'] by blast
  have f: "after_turns P B E mid (maxTurns - turn) st = Some st_k \<longrightarrow>
      fst (agent_loop P B E mid turn st) = budget_response (st_steps st_k)"
    using run_budget[of P B E mid turn st st_k] by blast
  have g: "after_turns P B E mid k st = Some st_k \<longrightarrow>
      (\<exists>zs. st_steps st_k = st_steps st @ zs \<and> tool_rounds zs \<and> length zs = 2 * k)"
    using after_turns_steps[of P B E mid k st st_k] by blast
  from loop_shapes[of P B E mid turn st] post_agent_cases[of P B E req] a b c
    loop_prefix[of P B E mid turn st] loop_outcome[of P B E mid st turn] d e f g
  show ?thesis by (intro conjI)
qed

lemma nova_backend_then_first:
  "length (st_messages st) < 3 \<Longrightarrow>
   fst (novaConverseText P (backend_then answer) env0 (turn_options ''amazon.nova-lite-v1:0'' st))
     = Inr tool_reply"
proof -
  have "\<not> isInferenceProfileArn ''amazon.nova-lite-v1:0''" by code_simp
  moreover have "tool_reply \<noteq> []" by (simp add: tool_reply_def)
  ultimately show "length (st_messages st) < 3 \<Longrightarrow> ?thesis"
    by (simp add: novaConverseText_def turn_options_def backend_then_def converse_attempt_def
        block_text_def request_of_def toBedrockMessages_def Let_def)
qed

lemma nova_backend_then_thrown:
  "\<not> length (st_messages st) < 3 \<Longrightarrow> \<not> operation_not_allowed err \<Longrightarrow>
   fst (novaConverseText P (backend_then (Inl err)) env0 (turn_options ''amazon.nova-lite-v1:0'' st))
     = Inl err"
proof -
  have "\<not> isInferenceProfileArn ''amazon.nova-lite-v1:0''" by code_simp
  then show "\<not> length (st_messages st) < 3 \<Longrightarrow> \<not> operation_not_allowed err \<Longrightarrow> ?thesis"
    by (simp add: novaConverseText_def turn_options_def backend_then_def converse_attempt_def
        request_of_def toBedrockMessages_def Let_def)
qed

lemma nova_backend_then_says:
  "\<not> length (st_messages st) < 3 \<Longrightarrow> answer \<noteq> [] \<Longrightarrow>
   fst (novaConverseText P (backend_then (Inr (Some [TextBlock answer]))) env0
          (turn_options ''amazon.nova-lite-v1:0'' st))
     = Inr answer"
proof -
  have "\<not> isInferenceProfileArn ''amazon.nova-lite-v1:0''" by code_simp
  then show "\<not> length (st_messages st) < 3 \<Longrightarrow> answer \<noteq> [] \<Longrightarrow> ?thesis"
    by (simp add: novaConverseText_def turn_options_def backend_then_def converse_attempt_def
        block_text_def request_of_def toBedrockMessages_def Let_def)
qed

lemma request0_start:
  "st_steps (initial_state (body request0)) = []"
  "length (st_messages (initial_state (body request0))) < 3"
  "st_steps (after_tool_reply (initial_state (body request0))) =
     [ModelStep tool_reply, ToolStep ''writeDraft'' (Some (JStr ''d'')) (DraftOut (Some ''d''))]"
  "\<not> length (st_messages (after_tool_reply (initial_state (body request0)))) < 3"
  by (simp_all add: initial_state_def request0_def initial_messages_goal_only after_tool_reply_def)

lemma after_first_tool_reply:
  "after_turns ref_platform (backend_then answer) env0 ''amazon.nova-lite-v1:0'' (Suc 0)
       (initial_state (body request0))
     = Some (after_tool_reply (initial_state (body request0)))"
  by (simp add: nova_backend_then_first request0_start decide_tool_reply)

lemma decide_no_action:
  assumes "\<not> has_action (safeJsonParse P mtext)"
  shows "decide P E mtext (st\<lparr>st_calls := st_calls st + 1\<rparr>) =
     Respond (failure_response E parse_failure_message
                (st_steps st @ [ModelStep mtext, ErrorStep parse_failure_message]))
             (after_model_step mtext parse_failure_message st)"
  using assms catch_new_Error[of P E parse_failure_message st mtext]
  by (simp add: decide_def Let_def parse_failure_message_def)

lemma eval_retrieve_no_input:
  "safeJsonParse ref_platform retrieve_no_input = JObj [(''action'', JStr ''retrieve'')]"
  unfolding retrieve_no_input_def by code_simp

lemma decide_retrieve_no_input:
  "decide ref_platform E retrieve_no_input (st\<lparr>st_calls := st_calls st + 1\<rparr>) =
     Respond (turn_failure ref_platform E type_error (st_steps st @ [ModelStep retrieve_no_input]))
             (after_model_step retrieve_no_input
                (det_message (toErrorDetails ref_platform type_error)) st)"
proof -
  have "decide ref_platform E retrieve_no_input (st\<lparr>st_calls := st_calls st + 1\<rparr>) =
     (case catch_response ref_platform E type_error
             (st\<lparr>st_calls := st_calls st + 1,
                 st_steps := st_steps st @ [ModelStep retrieve_no_input],
                 st_messages := st_messages st @
                   [\<lparr>role = Assistant, content = retrieve_no_input\<rparr>]\<rparr>) of
        (r, st') \<Rightarrow> Respond r st')"
    by (simp add: decide_def eval_retrieve_no_input has_action_def get_prop_def isToolName_def
        tool_turn_def run_tool_def retrieve_def input_text_def Let_def ref_platform_fields)
  then show ?thesis by (simp only: catch_turn_failure prod.case)
qed

lemma eval_throttled_details:
  "\<not> operation_not_allowed throttled"
  "det_message (toErrorDetails P throttled) = ''Too many requests''"
  unfolding throttled_def using eval_throttled
  by (simp_all add: toErrorDetails_def service_error_def)

theorem failure_shapes_witness:
  "fst (agent_loop ref_platform (backend_then (Inl throttled)) env0 ''amazon.nova-lite-v1:0'' 0
          (initial_state (body request0)))
     = turn_failure ref_platform env0 throttled
         [ModelStep tool_reply, ToolStep ''writeDraft'' (Some (JStr ''d'')) (DraftOut (Some ''d''))] \<and>
   steps (turn_failure ref_platform env0 throttled
            [ModelStep tool_reply, ToolStep ''writeDraft'' (Some (JStr ''d'')) (DraftOut (Some ''d''))])
     = Some [ModelStep tool_reply, ToolStep ''writeDraft'' (Some (JStr ''d'')) (DraftOut (Some ''d'')),
             ErrorStep ''Too many requests''] \<and>
   fst (agent_loop ref_platform (backend_then (Inr (Some [TextBlock ''no json here''])))
          env0 ''amazon.nova-lite-v1:0'' 0 (initial_state (body request0)))
     = failure_response env0 parse_failure_message
         [ModelStep tool_reply, ToolStep ''writeDraft'' (Some (JStr ''d'')) (DraftOut (Some ''d'')),
          ModelStep ''no json here'', ErrorStep parse_failure_message] \<and>
   fst (agent_loop ref_platform (backend_then (Inr (Some [TextBlock retrieve_no_input])))
          env0 ''amazon.nova-lite-v1:0'' 0 (initial_state (body request0)))
     = turn_failure ref_platform env0 type_error
         [ModelStep tool_reply, ToolStep ''writeDraft'' (Some (JStr ''d'')) (DraftOut (Some ''d'')),
          ModelStep retrieve_no_input] \<and>
   fst (agent_loop ref_platform backend_tool env0 ''amazon.nova-lite-v1:0'' 0
          (initial_state (body request0)))
     = budget_response (concat (replicate 8
         [ModelStep tool_reply, ToolStep ''writeDraft'' (Some (JStr ''d'')) (DraftOut (Some ''d''))])) \<and>
   (\<exists>zs. st_steps (after_tool_reply (initial_state (body request0))) =
            st_steps (initial_state (body request0)) @ zs \<and>
          tool_rounds zs \<and> length zs = 2 * Suc 0)"
proof -
  let ?st = "initial_state (body request0)"
  let ?st1 = "after_tool_reply ?st"
  let ?says = "backend_then (Inr (Some [TextBlock ''no json here'']))"
  let ?r = "failure_response env0 parse_failure_message
              (st_steps ?st1 @ [ModelStep ''no json here'', ErrorStep parse_failure_message])"
  have lt: "0 + Suc 0 < maxTurns" by (simp add: maxTurns_def)
  have n1: "fst (novaConverseText ref_platform (backend_then (Inl throttled)) env0
                   (turn_options ''amazon.nova-lite-v1:0'' ?st1)) = Inl throttled"
    by (rule nova_backend_then_thrown) (simp_all add: request0_start eval_throttled_details)
  have n2: "fst (novaConverseText ref_platform ?says env0
                   (turn_options ''amazon.nova-lite-v1:0'' ?st1)) = Inr ''no json here''"
    by (rule nova_backend_then_says) (simp_all add: request0_start)
  have "safeJsonParse ref_platform ''no json here'' = JNull" by code_simp
  then have "\<not> has_action (safeJsonParse ref_platform ''no json here'')"
    by (simp add: has_action_def)
  from decide_no_action[OF this]
  have d2: "decide ref_platform env0 ''no json here'' (?st1\<lparr>st_calls := st_calls ?st1 + 1\<rparr>) =
      Respond ?r (after_model_step ''no json here'' parse_failure_message ?st1)" .
  have a3: "after_turns ref_platform backend_tool env0 ''amazon.nova-lite-v1:0'' (maxTurns - 0) ?st
              = Some ((after_tool_reply ^^ 8) ?st)"
    by (simp add: after_turns_tool_reply maxTurns_def)
  note w1 = failure_shapes[where P = ref_platform and B = "backend_then (Inl throttled)"
      and E = env0 and mid = "''amazon.nova-lite-v1:0''" and turn = 0 and st = ?st
      and k = "Suc 0" and st_k = ?st1 and err = throttled]
  note w2 = failure_shapes[where P = ref_platform and B = ?says
      and E = env0 and mid = "''amazon.nova-lite-v1:0''" and turn = 0 and st = ?st
      and k = "Suc 0" and st_k = ?st1 and mtext = "''no json here''" and r = ?r
      and st' = "after_model_step ''no json here'' parse_failure_message ?st1"]
  note w4 = failure_shapes[where P = ref_platform
      and B = "backend_then (Inr (Some [TextBlock retrieve_no_input]))"
      and E = env0 and mid = "''amazon.nova-lite-v1:0''" and turn = 0 and st = ?st
      and k = "Suc 0" and st_k = ?st1 and mtext = retrieve_no_input
      and r = "turn_failure ref_platform env0 type_error
                 (st_steps ?st1 @ [ModelStep retrieve_no_input])"
      and st' = "after_model_step retrieve_no_input
                   (det_message (toErrorDetails ref_platform type_error)) ?st1"]
  note w3 = failure_shapes[where P = ref_platform and B = backend_tool
      and E = env0 and mid = "''amazon.nova-lite-v1:0''" and turn = 0 and st = ?st
      and st_k = "(after_tool_reply ^^ 8) ?st"]
  note thrown = w1[THEN conjunct2, THEN conjunct2, THEN conjunct2, THEN conjunct2, THEN conjunct2,
      THEN conjunct2, THEN conjunct2, THEN conjunct1]
  note rounds = w1[THEN conjunct2, THEN conjunct2, THEN conjunct2, THEN conjunct2, THEN conjunct2,
      THEN conjunct2, THEN conjunct2, THEN conjunct2, THEN conjunct2, THEN conjunct2]
  note respond = w2[THEN conjunct2, THEN conjunct2, THEN conjunct2, THEN conjunct2, THEN conjunct2,
      THEN conjunct2, THEN conjunct2, THEN conjunct2, THEN conjunct1]
  note tool_throws = w4[THEN conjunct2, THEN conjunct2, THEN conjunct2, THEN conjunct2,
      THEN conjunct2, THEN conjunct2, THEN conjunct2, THEN conjunct2, THEN conjunct1]
  note budget = w3[THEN conjunct2, THEN conjunct2, THEN conjunct2, THEN conjunct2, THEN conjunct2,
      THEN conjunct2, THEN conjunct2, THEN conjunct2, THEN conjunct2, THEN conjunct1]
  from thrown after_first_tool_reply[of "Inl throttled"] lt n1
  have "fst (agent_loop ref_platform (backend_then (Inl throttled)) env0 ''amazon.nova-lite-v1:0'' 0 ?st)
     = turn_failure ref_platform env0 throttled (st_steps ?st1)"
    by blast
  then have a: "fst (agent_loop ref_platform (backend_then (Inl throttled)) env0
                       ''amazon.nova-lite-v1:0'' 0 ?st)
     = turn_failure ref_platform env0 throttled
         [ModelStep tool_reply, ToolStep ''writeDraft'' (Some (JStr ''d'')) (DraftOut (Some ''d''))]"
    by (simp only: request0_start)
  have b: "steps (turn_failure ref_platform env0 throttled
            [ModelStep tool_reply, ToolStep ''writeDraft'' (Some (JStr ''d'')) (DraftOut (Some ''d''))])
     = Some [ModelStep tool_reply, ToolStep ''writeDraft'' (Some (JStr ''d'')) (DraftOut (Some ''d'')),
             ErrorStep ''Too many requests'']"
    by (simp add: turn_failure_def eval_throttled_details)
  from respond after_first_tool_reply[of "Inr (Some [TextBlock ''no json here''])"] lt n2 d2
  have "fst (agent_loop ref_platform ?says env0 ''amazon.nova-lite-v1:0'' 0 ?st) = ?r"
    by blast
  then have c: "fst (agent_loop ref_platform ?says env0 ''amazon.nova-lite-v1:0'' 0 ?st)
     = failure_response env0 parse_failure_message
         [ModelStep tool_reply, ToolStep ''writeDraft'' (Some (JStr ''d'')) (DraftOut (Some ''d'')),
          ModelStep ''no json here'', ErrorStep parse_failure_message]"
    by (simp add: request0_start)
  have n4: "fst (novaConverseText ref_platform (backend_then (Inr (Some [TextBlock retrieve_no_input])))
                   env0 (turn_options ''amazon.nova-lite-v1:0'' ?st1)) = Inr retrieve_no_input"
    by (rule nova_backend_then_says) (simp_all add: request0_start retrieve_no_input_def)
  from tool_throws after_first_tool_reply[of "Inr (Some [TextBlock retrieve_no_input])"] lt n4
    decide_retrieve_no_input[of env0 ?st1]
  have "fst (agent_loop ref_platform (backend_then (Inr (Some [TextBlock retrieve_no_input])))
               env0 ''amazon.nova-lite-v1:0'' 0 ?st)
     = turn_failure ref_platform env0 type_error (st_steps ?st1 @ [ModelStep retrieve_no_input])"
    by blast
  then have t: "fst (agent_loop ref_platform (backend_then (Inr (Some [TextBlock retrieve_no_input])))
               env0 ''amazon.nova-lite-v1:0'' 0 ?st)
     = turn_failure ref_platform env0 type_error
         [ModelStep tool_reply, ToolStep ''writeDraft'' (Some (JStr ''d'')) (DraftOut (Some ''d'')),
          ModelStep retrieve_no_input]"
    by (simp add: request0_start)
  from budget a3
  have "fst (agent_loop ref_platform backend_tool env0 ''amazon.nova-lite-v1:0'' 0 ?st)
     = budget_response (st_steps ((after_tool_reply ^^ 8) ?st))"
    by blast
  then have d: "fst (agent_loop ref_platform backend_tool env0 ''amazon.nova-lite-v1:0'' 0 ?st)
     = budget_response (concat (replicate 8
         [ModelStep tool_reply, ToolStep ''writeDraft'' (Some (JStr ''d'')) (DraftOut (Some ''d''))]))"
    by (simp add: after_tool_reply_steps request0_start)
  from rounds after_first_tool_reply[of "Inl throttled"]
  have e: "\<exists>zs. st_steps ?st1 = st_steps ?st @ zs \<and> tool_rounds zs \<and> length zs = 2 * Suc 0"
    by blast
  from a b c t d e show ?thesis by (intro conjI)
qed

section \<open>Decision extraction\<close>

lemma indexOf_absent: "c \<notin> set s \<Longrightarrow> indexOf s c = - 1"
  by (induction s) (auto simp: Let_def)

lemma indexOf_first: "c \<notin> set p \<Longrightarrow> indexOf (p @ c # r) c = int (length p)"
  by (induction p) (auto simp: Let_def)

lemma lastIndexOf_absent: "c \<notin> set s \<Longrightarrow> lastIndexOf s c = - 1"
  by (simp add: lastIndexOf_def indexOf_absent)

lemma lastIndexOf_last: "c \<notin> set v \<Longrightarrow> lastIndexOf (u @ c # v) c = int (length u)"
  using indexOf_first[of c "rev v" "rev u"] by (simp add: lastIndexOf_def)

lemma slice_within:
  "i \<le> j \<Longrightarrow> j \<le> length s \<Longrightarrow> slice s (int i) (int j) = take (j - i) (drop i s)"
  by (simp add: slice_def Let_def min_def nat_diff_distrib')

lemma dropWhile_first: "a \<notin> set p \<Longrightarrow> dropWhile (\<lambda>c. c \<noteq> a) (p @ a # r) = a # r"
  by (induction p) auto

lemma between_found:
  assumes "a \<notin> set p" "b \<notin> set v"
  shows "between a b (p @ a # m @ b # v) = Some (a # m @ [b])"
proof -
  have "dropWhile (\<lambda>c. c \<noteq> b) (rev v @ b # rev m @ [a]) = b # rev m @ [a]"
    using assms(2) dropWhile_first[of b "rev v" "rev m @ [a]"] by simp
  then show ?thesis
    using assms(1) by (simp add: between_def dropWhile_first)
qed

lemma between_none_a: "a \<notin> set s \<Longrightarrow> between a b s = None"
  by (simp add: between_def)

lemma between_none_b: "a \<notin> set p \<Longrightarrow> b \<notin> set r \<Longrightarrow> between a b (p @ a # r) = None"
  by (simp add: between_def dropWhile_first)

lemma slice_between:
  "(if indexOf s a \<ge> 0 \<and> lastIndexOf s b > indexOf s a
    then Some (slice s (indexOf s a) (lastIndexOf s b + 1)) else None) = between a b s"
proof (cases "a \<in> set s")
  case False
  then show ?thesis by (simp add: indexOf_absent between_none_a)
next
  case True
  then obtain p r where s: "s = p @ a # r" and p: "a \<notin> set p"
    by (meson split_list_first)
  have first: "indexOf s a = int (length p)" unfolding s using p by (rule indexOf_first)
  show ?thesis
  proof (cases "b \<in> set r")
    case True
    then obtain m v where r: "r = m @ b # v" and v: "b \<notin> set v"
      by (meson split_list_last)
    have "lastIndexOf ((p @ a # m) @ b # v) b = int (length (p @ a # m))"
      using v by (rule lastIndexOf_last)
    then have last: "lastIndexOf s b = int (length p + 1 + length m)"
      unfolding s r by simp
    have "slice s (int (length p)) (int (length p + 1 + length m + 1)) =
            take (length p + 1 + length m + 1 - length p) (drop (length p) s)"
      by (rule slice_within) (simp_all add: s r)
    also have "\<dots> = a # m @ [b]" by (simp add: s r)
    finally have "slice s (indexOf s a) (lastIndexOf s b + 1) = a # m @ [b]"
      unfolding first last by (simp add: add.commute add.left_commute)
    moreover have "between a b s = Some (a # m @ [b])"
      unfolding s r using p v by (rule between_found)
    ultimately show ?thesis by (simp add: first last)
  next
    case False
    have none: "between a b s = None" unfolding s using p False by (rule between_none_b)
    have "lastIndexOf s b \<le> int (length p)"
    proof (cases "b \<in> set s")
      case False
      then show ?thesis by (simp add: lastIndexOf_absent)
    next
      case True
      then obtain u w where uw: "s = u @ b # w" and w: "b \<notin> set w"
        by (meson split_list_last)
      have "length u \<le> length p"
      proof (rule ccontr)
        assume "\<not> length u \<le> length p"
        then have "length (p @ [a]) \<le> length u" by simp
        moreover have "(p @ [a]) @ r = u @ b # w" using s uw by simp
        ultimately obtain t where "u = (p @ [a]) @ t" "r = t @ b # w"
          by (metis (no_types, lifting) append_eq_append_conv_if append_take_drop_id)
        with False show False by simp
      qed
      moreover have "lastIndexOf s b = int (length u)" unfolding uw using w by (rule lastIndexOf_last)
      ultimately show ?thesis by simp
    qed
    then show ?thesis by (simp add: first none)
  qed
qed

lemma endsWith_iff: "endsWith s p \<longleftrightarrow> (\<exists>x. s = x @ p)"
proof
  assume "endsWith s p"
  then have "s = take (length s - length p) s @ p"
    unfolding endsWith_def by (metis append_take_drop_id)
  then show "\<exists>x. s = x @ p" ..
next
  assume "\<exists>x. s = x @ p"
  then show "endsWith s p" by (auto simp: endsWith_def)
qed

lemma backquote_not_space: "\<not> is_space (CHR 0x60)"
  by (simp add: is_space_def)

lemma dropWhile_fence: "dropWhile is_space (y @ ''```'') = dropWhile is_space y @ ''```''"
  using backquote_not_space by (simp add: dropWhile_append3)

lemma lower_backquote: "lower_char (CHR 0x60) = CHR 0x60"
  by (simp add: lower_char_def)

lemma json_tag_no_backquote:
  assumes "toLowerCase u = ''json''"
  shows "length u = 4 \<and> CHR 0x60 \<notin> set u"
proof
  from assms have "length (map lower_char u) = length ''json''" by (simp add: toLowerCase_def)
  then show "length u = 4" by simp
  show "CHR 0x60 \<notin> set u"
  proof
    assume "CHR 0x60 \<in> set u"
    then have "lower_char (CHR 0x60) \<in> set (map lower_char u)" by (metis image_eqI set_map)
    with assms show False by (simp add: toLowerCase_def lower_backquote)
  qed
qed

lemma untag_fence: "untag (x @ ''```'') = untag x @ ''```''"
proof (cases "4 \<le> length x")
  case True
  then show ?thesis by (simp add: untag_def)
next
  case False
  then obtain k where k: "4 - length x = Suc k" by (cases "4 - length x") auto
  have "CHR 0x60 \<in> set (take 4 (x @ ''```''))" by (simp add: k)
  then have a: "toLowerCase (take 4 (x @ ''```'')) \<noteq> ''json''"
    using json_tag_no_backquote by blast
  from False have "length (take 4 x) \<noteq> 4" by simp
  then have b: "toLowerCase (take 4 x) \<noteq> ''json''"
    using json_tag_no_backquote by blast
  from a b show ?thesis unfolding untag_def by (simp only: if_False)
qed

lemma untag_suffix: "\<exists>pre. s = pre @ untag s"
proof (cases "toLowerCase (take 4 s) = ''json''")
  case True
  then have "s = take 4 s @ untag s" by (simp add: untag_def)
  then show ?thesis ..
next
  case False
  then have "s = [] @ untag s" by (simp add: untag_def)
  then show ?thesis ..
qed

lemma dropWhile_suffix: "\<exists>pre. s = pre @ dropWhile P s"
  by (metis takeWhile_dropWhile_id)

lemma startsWith_fence: "startsWith t ''```'' \<longleftrightarrow> (\<exists>r. t = ''```'' @ r)"
proof
  assume "startsWith t ''```''"
  then have "take 3 t = ''```''" by (simp add: startsWith_def numeral_3_eq_3)
  then have "t = ''```'' @ drop 3 t" by (metis append_take_drop_id)
  then show "\<exists>r. t = ''```'' @ r" ..
next
  assume "\<exists>r. t = ''```'' @ r"
  then show "startsWith t ''```''" by (auto simp: startsWith_def)
qed

lemma fence_body_fenced: "fence_body (''```'' @ x @ ''```'') = Some (trim (untag x))"
  by (simp add: fence_body_def)

lemma split_at_ends:
  assumes "n + m \<le> length t" "take n t = a" "drop (length t - m) t = b"
  shows "t = a @ take (length t - (n + m)) (drop n t) @ b"
proof -
  have "drop (length t - (n + m)) (drop n t) = drop (length t - m) t"
    using assms(1) by (simp add: add.commute)
  then have "take (length t - (n + m)) (drop n t) @ b = drop n t"
    using assms(3) by (metis append_take_drop_id)
  then show ?thesis using assms(2) by (metis append_take_drop_id)
qed

lemma fence_body_Some:
  assumes "fence_body t = Some g"
  shows "\<exists>x. t = ''```'' @ x @ ''```''"
proof -
  have c: "6 \<le> length t \<and> take 3 t = ''```'' \<and> drop (length t - 3) t = ''```''"
  proof (rule ccontr)
    assume "\<not> (6 \<le> length t \<and> take 3 t = ''```'' \<and> drop (length t - 3) t = ''```'')"
    then have "fence_body t = None" by (simp only: fence_body_def if_False)
    with assms show False by simp
  qed
  note a = c[THEN conjunct2, THEN conjunct1] and b = c[THEN conjunct2, THEN conjunct2]
  from c[THEN conjunct1] have l: "3 + 3 \<le> length t" by simp
  have "t = ''```'' @ take (length t - (3 + 3)) (drop 3 t) @ ''```''"
    by (rule split_at_ends[OF l a b])
  then show ?thesis by (rule exI[where x = "take (length t - (3 + 3)) (drop 3 t)"])
qed

lemma fenceMatch_fenced: "fenceMatch (''```'' @ x @ ''```'') = Some (trim (untag x))"
proof -
  let ?r2 = "dropWhile is_space (untag x) @ ''```''"
  have r2: "dropWhile is_space (untag (x @ ''```'')) = ?r2"
    unfolding untag_fence dropWhile_fence ..
  have e: "endsWith ?r2 ''```''" unfolding endsWith_iff by blast
  have g: "trimEnd (take (length ?r2 - 3) ?r2) = trim (untag x)"
    by (simp add: trim_def trimStart_def)
  have "fenceMatch (''```'' @ x @ ''```'') =
          (if endsWith (dropWhile is_space (untag (x @ ''```''))) ''```''
           then Some (trimEnd (take (length (dropWhile is_space (untag (x @ ''```''))) - 3)
                                (dropWhile is_space (untag (x @ ''```'')))))
           else None)"
    by (simp add: fenceMatch_def Let_def untag_def startsWith_def)
  then show ?thesis unfolding r2 using e g by (simp only: if_True)
qed

lemma chain_suffix: "r = p1 @ u \<Longrightarrow> u = p2 @ d \<Longrightarrow> d = y @ f \<Longrightarrow> r = (p1 @ p2 @ y) @ f"
  by simp

lemma fenceMatch_unfold:
  "fenceMatch t =
     (if startsWith t ''```''
      then (if endsWith (dropWhile is_space (untag (drop 3 t))) ''```''
            then Some (trimEnd (take (length (dropWhile is_space (untag (drop 3 t))) - 3)
                                 (dropWhile is_space (untag (drop 3 t)))))
            else None)
      else None)"
  unfolding fenceMatch_def Let_def untag_def ..

lemma fenceMatch_Some:
  assumes "fenceMatch t = Some g"
  shows "\<exists>x. t = ''```'' @ x @ ''```''"
proof -
  have sw: "startsWith t ''```''"
  proof (rule ccontr)
    assume "\<not> startsWith t ''```''"
    then have "fenceMatch t = None" by (simp only: fenceMatch_unfold if_False)
    with assms show False by simp
  qed
  have ew: "endsWith (dropWhile is_space (untag (drop 3 t))) ''```''"
  proof (rule ccontr)
    assume "\<not> endsWith (dropWhile is_space (untag (drop 3 t))) ''```''"
    then have "fenceMatch t = None" by (simp only: fenceMatch_unfold if_False if_cancel)
    with assms show False by simp
  qed
  from sw obtain r where t: "t = ''```'' @ r" unfolding startsWith_fence ..
  have r0: "drop 3 t = r" unfolding t by simp
  from ew obtain y where y: "dropWhile is_space (untag r) = y @ ''```''"
    unfolding endsWith_iff r0 ..
  obtain p1 where p1: "r = p1 @ untag r" using untag_suffix by blast
  obtain p2 where p2: "untag r = p2 @ dropWhile is_space (untag r)" using dropWhile_suffix by blast
  have "r = (p1 @ p2 @ y) @ ''```''" by (rule chain_suffix[OF p1 p2 y])
  then have "''```'' @ r = ''```'' @ (p1 @ p2 @ y) @ ''```''" by (rule arg_cong)
  then have "t = ''```'' @ (p1 @ p2 @ y) @ ''```''" unfolding t[symmetric] .
  then show ?thesis by (rule exI[where x = "p1 @ p2 @ y"])
qed

lemma fenceMatch_eq: "fenceMatch t = fence_body t"
proof (cases "\<exists>x. t = ''```'' @ x @ ''```''")
  case True
  then obtain x where "t = ''```'' @ x @ ''```''" ..
  then show ?thesis by (simp only: fenceMatch_fenced fence_body_fenced)
next
  case False
  then have "fenceMatch t = None" "fence_body t = None"
    using fenceMatch_Some fence_body_Some by (metis not_Some_eq)+
  then show ?thesis by simp
qed

lemma trimStart_id: "s = [] \<or> \<not> is_space (hd s) \<Longrightarrow> trimStart s = s"
  by (cases s) (auto simp: trimStart_def)

lemma trimEnd_Cons: "\<not> is_space c \<Longrightarrow> trimEnd (c # s) = c # trimEnd s"
  by (simp add: trimEnd_def dropWhile_append3)

lemma trimEnd_idem: "trimEnd (trimEnd s) = trimEnd s"
proof -
  have "dropWhile is_space (dropWhile is_space (rev s)) = dropWhile is_space (rev s)"
    by (rule dropWhile_idem)
  then show ?thesis by (simp add: trimEnd_def)
qed

lemma hd_take_Cons: "take n xs = c # ys \<Longrightarrow> hd xs = c"
  by (cases xs; cases n) simp_all

lemma fenceMatch_trimmed:
  assumes "fenceMatch t = Some g"
  shows "trim g = g"
proof -
  from assms obtain r1 where g: "g = trimEnd (take (length (dropWhile is_space r1) - 3) (dropWhile is_space r1))"
    by (auto simp: fenceMatch_def Let_def split: if_splits)
  let ?x = "take (length (dropWhile is_space r1) - 3) (dropWhile is_space r1)"
  have start: "trimStart (trimEnd ?x) = trimEnd ?x"
  proof (cases ?x)
    case Nil
    have "trimStart (trimEnd []) = trimEnd []" by (simp add: trimEnd_def trimStart_def)
    then show ?thesis unfolding Nil .
  next
    case (Cons c x')
    have ne: "dropWhile is_space r1 \<noteq> []"
    proof
      assume "dropWhile is_space r1 = []"
      then have "?x = []" by (simp only: take_Nil)
      with Cons show False by simp
    qed
    from ne
    have "\<not> is_space (hd (dropWhile is_space r1))" by (rule hd_dropWhile)
    moreover have "c = hd (dropWhile is_space r1)"
      using hd_take_Cons[OF Cons] by simp
    ultimately have c: "\<not> is_space c" by simp
    then have "trimEnd ?x = c # trimEnd x'" unfolding Cons by (rule trimEnd_Cons)
    with c show ?thesis by (simp add: trimStart_id)
  qed
  show ?thesis unfolding trim_def g start by (simp add: trimEnd_idem start)
qed

lemma extract_refines:
  "extractJsonObject s = spec_extract (trim s)"
proof -
  let ?c = "case fence_body (trim s) of Some g \<Rightarrow> g | None \<Rightarrow> trim s"
  have cand: "(case fenceMatch (trim s) of Some g \<Rightarrow> trim g | None \<Rightarrow> trim s) = ?c"
  proof (cases "fenceMatch (trim s)")
    case None
    then show ?thesis by (simp add: fenceMatch_eq[symmetric])
  next
    case (Some g)
    then have "trim g = g" by (rule fenceMatch_trimmed)
    with Some show ?thesis by (simp add: fenceMatch_eq[symmetric])
  qed
  have braces: "(if indexOf ?c (CHR ''{'') \<ge> 0 \<and> lastIndexOf ?c (CHR ''}'') > indexOf ?c (CHR ''{'')
        then Some (slice ?c (indexOf ?c (CHR ''{'')) (lastIndexOf ?c (CHR ''}'') + 1)) else None)
      = between (CHR ''{'') (CHR ''}'') ?c"
    by (rule slice_between)
  have brackets: "(if indexOf ?c (CHR ''['') \<ge> 0 \<and> lastIndexOf ?c (CHR '']'') > indexOf ?c (CHR ''['')
        then Some (slice ?c (indexOf ?c (CHR ''['')) (lastIndexOf ?c (CHR '']'') + 1)) else None)
      = between (CHR ''['') (CHR '']'') ?c"
    by (rule slice_between)
  define braces_ok where "braces_ok \<longleftrightarrow>
      indexOf ?c (CHR ''{'') \<ge> 0 \<and> lastIndexOf ?c (CHR ''}'') > indexOf ?c (CHR ''{'')"
  define brackets_ok where "brackets_ok \<longleftrightarrow>
      indexOf ?c (CHR ''['') \<ge> 0 \<and> lastIndexOf ?c (CHR '']'') > indexOf ?c (CHR ''['')"
  have code: "extractJsonObject s =
      (if startsWith ?c ''{'' \<or> startsWith ?c ''['' then ?c
       else if braces_ok then slice ?c (indexOf ?c (CHR ''{'')) (lastIndexOf ?c (CHR ''}'') + 1)
       else if brackets_ok then slice ?c (indexOf ?c (CHR ''['')) (lastIndexOf ?c (CHR '']'') + 1)
       else ?c)"
    unfolding extractJsonObject_def Let_def cand braces_ok_def brackets_ok_def ..
  have b1: "between (CHR ''{'') (CHR ''}'') ?c =
      (if braces_ok then Some (slice ?c (indexOf ?c (CHR ''{'')) (lastIndexOf ?c (CHR ''}'') + 1))
       else None)"
    unfolding braces_ok_def by (rule braces[symmetric])
  have b2: "between (CHR ''['') (CHR '']'') ?c =
      (if brackets_ok then Some (slice ?c (indexOf ?c (CHR ''['')) (lastIndexOf ?c (CHR '']'') + 1))
       else None)"
    unfolding brackets_ok_def by (rule brackets[symmetric])
  have spec: "spec_extract (trim s) =
      (if startsWith ?c ''{'' \<or> startsWith ?c ''['' then ?c
       else case between (CHR ''{'') (CHR ''}'') ?c of
              Some r \<Rightarrow> r
            | None \<Rightarrow> (case between (CHR ''['') (CHR '']'') ?c of Some r \<Rightarrow> r | None \<Rightarrow> ?c))"
    unfolding spec_extract_def Let_def ..
  show ?thesis
    unfolding code spec b1 b2
    by (cases braces_ok; cases brackets_ok) (simp_all only: if_True if_False option.case)
qed

lemma between_iff:
  "between a b u = Some r \<longleftrightarrow>
     (\<exists>p m v. u = p @ a # m @ b # v \<and> a \<notin> set p \<and> b \<notin> set v \<and> r = a # m @ [b])"
proof
  assume found: "between a b u = Some r"
  have "a \<in> set u" using found between_none_a[of a u b] by auto
  then obtain p w where u: "u = p @ a # w" and p: "a \<notin> set p" by (meson split_list_first)
  have "b \<in> set w" using found between_none_b[OF p, of b w] unfolding u by auto
  then obtain m v where w: "w = m @ b # v" and v: "b \<notin> set v" by (meson split_list_last)
  have "between a b u = Some (a # m @ [b])" unfolding u w using p v by (rule between_found)
  with found have "r = a # m @ [b]" by simp
  with u w p v show "\<exists>p m v. u = p @ a # m @ b # v \<and> a \<notin> set p \<and> b \<notin> set v \<and> r = a # m @ [b]"
    by blast
next
  assume "\<exists>p m v. u = p @ a # m @ b # v \<and> a \<notin> set p \<and> b \<notin> set v \<and> r = a # m @ [b]"
  then show "between a b u = Some r" using between_found by blast
qed

text \<open>
  C3, as the specification states it, fails: the heuristic is applied to the text once
  its surrounding white space is removed, not to the raw text. An answer that is a JSON
  object after one space and before more prose is used verbatim from the brace on (and
  then does not parse), where the heuristic on the raw text slices it from the first
  brace to the last; and a text with no brace and no bracket is returned trimmed, not
  unchanged.
\<close>

theorem extraction_counterexample:
  \<open>extractJsonObject padded_final = ''{"action":"final","output":"x"} trailing'' \<and>
   spec_extract padded_final = ''{"action":"final","output":"x"}'' \<and>
   safeJsonParse ref_platform padded_final = JNull \<and>
   json_parse (spec_extract padded_final) =
     Inr (JObj [(''action'', JStr ''final''), (''output'', JStr ''x'')]) \<and>
   extractJsonObject '' x '' = ''x'' \<and>
   spec_extract '' x '' = '' x ''\<close>
proof -
  have a: \<open>extractJsonObject padded_final = ''{"action":"final","output":"x"} trailing''\<close>
    unfolding padded_final_def by code_simp
  have b: \<open>spec_extract padded_final = ''{"action":"final","output":"x"}''\<close>
    unfolding padded_final_def by code_simp
  have c: "safeJsonParse ref_platform padded_final = JNull"
    unfolding padded_final_def by code_simp
  have d: \<open>json_parse ''{"action":"final","output":"x"}'' =
     Inr (JObj [(''action'', JStr ''final''), (''output'', JStr ''x'')])\<close>
    by code_simp
  have e: "extractJsonObject '' x '' = ''x''" by code_simp
  have f: "spec_extract '' x '' = '' x ''" by code_simp
  from a b c d e f show ?thesis by (simp only: simp_thms)
qed

text \<open>
  C3, amended. For every raw model text, the extraction is the ordered heuristic applied
  to the text without its surrounding white space: strip the fence when that text is
  wholly fenced (three back quotes at both ends; the optional tag \<open>json\<close>, in any case,
  and the white space around the body go with the fence); use the result verbatim when
  it starts with a brace or a bracket; otherwise take the text from the first opening
  brace to the last closing brace; otherwise the same with brackets; otherwise return
  it as it is (trimmed). The fenced answer of the specification is extracted without any
  fence left, parses to the object it holds, and the run ends with the final answer \<open>x\<close>.
\<close>

theorem extraction_heuristic:
  \<open>extractJsonObject s = spec_extract (trim s) \<and>
   fenceMatch t = fence_body t \<and>
   fence_body (''```'' @ inner @ ''```'') = Some (trim (untag inner)) \<and>
   (between a b u = Some r \<longleftrightarrow>
      (\<exists>p m v. u = p @ a # m @ b # v \<and> a \<notin> set p \<and> b \<notin> set v \<and> r = a # m @ [b])) \<and>
   extractJsonObject fenced_final = ''{"action":"final","output":"x"}'' \<and>
   safeJsonParse ref_platform fenced_final =
     JObj [(''action'', JStr ''final''), (''output'', JStr ''x'')] \<and>
   fst (agent_loop ref_platform (backend_says fenced_final) env0 ''amazon.nova-lite-v1:0'' 0
          (initial_state (body request0))) =
     \<lparr>status = 200, final = Some ''x'', error = None, details = None, hint = None,
      steps = Some [ModelStep fenced_final]\<rparr>\<close>
proof -
  have e: \<open>extractJsonObject fenced_final = ''{"action":"final","output":"x"}''\<close>
    unfolding fenced_final_def by code_simp
  have p: "safeJsonParse ref_platform fenced_final =
     JObj [(''action'', JStr ''final''), (''output'', JStr ''x'')]"
    unfolding fenced_final_def by code_simp
  have ne: "fenced_final \<noteq> []" by (simp add: fenced_final_def)
  let ?st = "initial_state (body request0)"
  have d: "decide ref_platform env0 fenced_final (?st\<lparr>st_calls := st_calls ?st + 1\<rparr>) =
      Respond \<lparr>status = 200, final = Some ''x'', error = None, details = None, hint = None,
               steps = Some [ModelStep fenced_final]\<rparr>
              (?st\<lparr>st_calls := st_calls ?st + 1, st_steps := [ModelStep fenced_final],
                    st_messages := st_messages ?st @ [\<lparr>role = Assistant, content = fenced_final\<rparr>]\<rparr>)"
    by (simp add: decide_def p has_action_def get_prop_def Let_def final_output_def String_def
        initial_state_def)
  have "(0::nat) < maxTurns" by (simp add: maxTurns_def)
  from loop_respond[OF this nova_backend_says[OF ne] d]
  have run: "fst (agent_loop ref_platform (backend_says fenced_final) env0 ''amazon.nova-lite-v1:0'' 0 ?st) =
     \<lparr>status = 200, final = Some ''x'', error = None, details = None, hint = None,
      steps = Some [ModelStep fenced_final]\<rparr>"
    by simp
  from extract_refines[of s] fenceMatch_eq[of t] fence_body_fenced[of inner] between_iff[of a b u r]
    e p run
  show ?thesis by (intro conjI)
qed

end
